(* ===== verification/Prelude.thy ===== *)
theory Prelude
  imports Main "HOL-Library.Word"
begin

text \<open>
  Shared ground of the development: the machine types of the code, the ways a C++ call can
  end, reads and writes of a byte vector, and the lemma collections the component proofs use.

  The program is built with its assertions enabled (\<^verbatim>\<open>xmake/makefile.xf\<close> sets
  \<^verbatim>\<open>-g -O2\<close> and no \<^verbatim>\<open>NDEBUG\<close>), so a failed \<^verbatim>\<open>assert\<close> is an outcome
  of its own, next to undefined behaviour, the end of the process by \<^verbatim>\<open>exit\<close> or
  \<^verbatim>\<open>abort\<close> (\<open>Exited\<close>), and a thrown exception.
\<close>

named_theorems buf_simps \<open>equations that rewrite buffer operations to their effect on indices and bytes\<close>
named_theorems outcome_simps \<open>equations of the sequencing operators\<close>

section \<open>Machine types\<close>

type_synonym byte = "8 word"
type_synonym size_t = "64 word"
type_synonym int32 = "32 word"

section \<open>How a call can end\<close>

text \<open>
  \<open>LengthError\<close> is \<^verbatim>\<open>std::length_error\<close>, \<open>BadFunctionCall\<close> the call of an empty
  \<^verbatim>\<open>std::function\<close>, \<open>MutexException\<close> and \<open>ConditionException\<close> what the wrappers of the
  thread library throw, \<open>SystemError\<close> is \<^verbatim>\<open>std::system_error\<close>, \<open>OutOfRange\<close> \<^verbatim>\<open>std::out_of_range\<close>,
  \<open>UserException\<close> what a
  callback of the user throws (any \<^verbatim>\<open>std::exception\<close>).
\<close>

datatype exn = LengthError | BadFunctionCall | SocketException | MutexException | ConditionException | SystemError | OutOfRange
  | UserException nat

datatype fault = AssertFailed | Undefined | Exited | Thrown exn

text \<open>
  A plain operation on a value returns \<open>fault + 'a\<close>; a thrown exception then leaves the
  value as it was. \<open>bindE\<close> sequences, \<open>assertE\<close> is \<^verbatim>\<open>assert\<close>.
\<close>

definition bindE :: "fault + 'a \<Rightarrow> ('a \<Rightarrow> fault + 'b) \<Rightarrow> fault + 'b" where
  "bindE m f = (case m of Inl e \<Rightarrow> Inl e | Inr x \<Rightarrow> f x)"

definition assertE :: "bool \<Rightarrow> fault + unit" where
  "assertE b = (if b then Inr () else Inl AssertFailed)"

lemma bindE_simps [simp, outcome_simps]:
  "bindE (Inl e) f = Inl e"
  "bindE (Inr x) f = f x"
  by (simp_all add: bindE_def)

lemma assertE_simps [simp, outcome_simps]:
  "assertE True = Inr ()"
  "assertE False = Inl AssertFailed"
  by (simp_all add: assertE_def)

lemma bindE_assertE [outcome_simps]:
  "bindE (assertE b) f = (if b then f () else Inl AssertFailed)"
  by (simp add: assertE_def)

lemma bindE_eq_Inr [outcome_simps]:
  "bindE m f = Inr y \<longleftrightarrow> (\<exists>x. m = Inr x \<and> f x = Inr y)"
  by (cases m) auto

section \<open>Sequencing over a state\<close>

text \<open>
  Handlers work on a whole state. \<open>Done\<close> returns, \<open>Raise\<close> leaves with an exception and
  the state reached so far (a \<^verbatim>\<open>catch\<close> goes on from it), \<open>Crash\<close> ends the process,
  \<open>Diverge\<close> is a loop that has used up its fuel.
\<close>

datatype ('a, 's) outcome = Done 'a 's | Raise exn 's | Crash fault | Diverge

definition bindS :: "('a, 's) outcome \<Rightarrow> ('a \<Rightarrow> 's \<Rightarrow> ('b, 's) outcome) \<Rightarrow> ('b, 's) outcome" where
  "bindS m f = (case m of Done x s \<Rightarrow> f x s | Raise e s \<Rightarrow> Raise e s | Crash c \<Rightarrow> Crash c | Diverge \<Rightarrow> Diverge)"

definition catchS :: "('a, 's) outcome \<Rightarrow> (exn \<Rightarrow> 's \<Rightarrow> ('a, 's) outcome) \<Rightarrow> ('a, 's) outcome" where
  "catchS m h = (case m of Raise e s \<Rightarrow> h e s | _ \<Rightarrow> m)"

definition assertS :: "bool \<Rightarrow> 's \<Rightarrow> (unit, 's) outcome" where
  "assertS b s = (if b then Done () s else Crash AssertFailed)"

text \<open>A plain operation run inside a handler: its exception leaves the state unchanged.\<close>

definition liftS :: "fault + 'a \<Rightarrow> 's \<Rightarrow> ('a, 's) outcome" where
  "liftS m s = (case m of Inr x \<Rightarrow> Done x s | Inl (Thrown e) \<Rightarrow> Raise e s | Inl c \<Rightarrow> Crash c)"

lemma bindS_simps [simp, outcome_simps]:
  "bindS (Done x s) f = f x s"
  "bindS (Raise e s) f = Raise e s"
  "bindS (Crash c) f = Crash c"
  "bindS Diverge f = Diverge"
  by (simp_all add: bindS_def)

lemma catchS_simps [simp, outcome_simps]:
  "catchS (Done x s) h = Done x s"
  "catchS (Raise e s) h = h e s"
  "catchS (Crash c) h = Crash c"
  "catchS Diverge h = Diverge"
  by (simp_all add: catchS_def)

lemma assertS_simps [simp, outcome_simps]:
  "assertS True s = Done () s"
  "assertS False s = Crash AssertFailed"
  by (simp_all add: assertS_def)

lemma liftS_simps [simp, outcome_simps]:
  "liftS (Inr x) s = Done x s"
  "liftS (Inl (Thrown e)) s = Raise e s"
  "liftS (Inl AssertFailed) s = Crash AssertFailed"
  "liftS (Inl Undefined) s = Crash Undefined"
  "liftS (Inl Exited) s = Crash Exited"
  by (simp_all add: liftS_def)

lemma bindS_eq_Done [outcome_simps]:
  "bindS m f = Done y t \<longleftrightarrow> (\<exists>x s. m = Done x s \<and> f x s = Done y t)"
  by (cases m) auto

section \<open>Results of system calls\<close>

text \<open>
  What the kernel answers is an input of the model: each \<^verbatim>\<open>readv\<close> or
  \<^verbatim>\<open>write\<close> takes the next answer of a list. \<open>RData\<close> is data that has arrived
  (no byte: end of file), \<open>WAccept k\<close> means that the kernel takes up to \<open>k\<close> bytes.
\<close>

datatype errno = EAGAIN | EINTR | EINVAL | EINPROGRESS | EOther nat

datatype rd_res = RData "byte list" | RErr errno

datatype wr_res = WAccept nat | WErr errno

text \<open>A non-negative return value, or \<open>-1\<close> with \<^verbatim>\<open>errno\<close> set.\<close>

datatype io_ret = Bytes nat | Failed errno

section \<open>Words as sizes\<close>

lemma unat_size_add:
  "unat (a::size_t) + unat b < 2 ^ 64 \<Longrightarrow> unat (a + b) = unat a + unat b"
  using unat_add_lem [of a b] by simp

lemma unat_size_sub: "(b::size_t) \<le> a \<Longrightarrow> unat (a - b) = unat a - unat b"
  by (rule unat_sub)

lemma unat_size_of_nat: "n < 2 ^ 64 \<Longrightarrow> unat (of_nat n :: size_t) = n"
  by (simp add: unat_of_nat)

lemma size_le_iff: "(a::size_t) \<le> b \<longleftrightarrow> unat a \<le> unat b"
  by (rule word_le_nat_alt)

lemma size_less_iff: "(a::size_t) < b \<longleftrightarrow> unat a < unat b"
  by (rule word_less_nat_alt)

section \<open>Byte vectors\<close>

text \<open>
  \<^verbatim>\<open>std::vector<char>\<close> is a list of bytes; its \<^verbatim>\<open>max_size()\<close> is
  \<^verbatim>\<open>PTRDIFF_MAX\<close>, beyond which construction and \<^verbatim>\<open>resize\<close> throw
  \<^verbatim>\<open>std::length_error\<close>. A copy from or to memory outside the vector is undefined.
\<close>

definition vec_max :: nat where
  "vec_max = 2 ^ 63 - 1"

definition vector_new :: "size_t \<Rightarrow> fault + byte list" where
  "vector_new n = (if unat n \<le> vec_max then Inr (replicate (unat n) 0) else Inl (Thrown LengthError))"

definition vector_size :: "byte list \<Rightarrow> size_t" where
  "vector_size v = of_nat (length v)"

definition vector_resize :: "size_t \<Rightarrow> byte list \<Rightarrow> fault + byte list" where
  "vector_resize n v =
     (if unat n \<le> vec_max then Inr (take (unat n) v @ replicate (unat n - length v) 0)
      else Inl (Thrown LengthError))"

definition mem_read :: "byte list \<Rightarrow> size_t \<Rightarrow> size_t \<Rightarrow> fault + byte list" where
  "mem_read m p n =
     (if unat p + unat n \<le> length m then Inr (take (unat n) (drop (unat p) m)) else Inl Undefined)"

definition mem_write :: "byte list \<Rightarrow> size_t \<Rightarrow> byte list \<Rightarrow> fault + byte list" where
  "mem_write m p d =
     (if unat p + length d \<le> length m
      then Inr (take (unat p) m @ d @ drop (unat p + length d) m) else Inl Undefined)"

lemma vec_max_less [simp]: "vec_max < 2 ^ 63" "vec_max < 2 ^ 64"
  by (simp_all add: vec_max_def)

lemma unat_vector_size: "length v \<le> vec_max \<Longrightarrow> unat (vector_size v) = length v"
  unfolding vector_size_def by (rule unat_size_of_nat) (simp add: vec_max_def)

lemma length_mem_write: "mem_write m p d = Inr m' \<Longrightarrow> length m' = length m"
  by (auto simp: mem_write_def split: if_splits)

text \<open>The readable part of a vector: \<open>n\<close> bytes from offset \<open>p\<close>.\<close>

definition seg :: "byte list \<Rightarrow> nat \<Rightarrow> nat \<Rightarrow> byte list" where
  "seg m p n = take n (drop p m)"

lemma length_seg [simp]: "p + n \<le> length m \<Longrightarrow> length (seg m p n) = n"
  by (simp add: seg_def)

lemma seg_0 [simp]: "seg m p 0 = []"
  by (simp add: seg_def)

lemma seg_append: "seg m p (a + b) = seg m p a @ seg m (p + a) b"
  by (simp add: seg_def take_add add.commute)

lemma seg_write_same:
  "p + length d \<le> length m \<Longrightarrow> seg (take p m @ d @ drop (p + length d) m) p (length d) = d"
  by (simp add: seg_def)

lemma seg_write_before:
  assumes "q + n \<le> p" and "p \<le> length m"
  shows "seg (take p m @ d @ e) q n = seg m q n"
  using assms by (simp add: seg_def take_drop min_def)

lemma seg_write_after:
  assumes "p + length d \<le> q" and "p \<le> length m"
  shows "seg (take p m @ d @ drop (p + length d) m) q n = seg m q n"
  using assms by (simp add: seg_def add.commute)

lemma mem_write_ok:
  assumes "unat p + length d \<le> length m"
  obtains v where "mem_write m p d = Inr v" and "length v = length m"
    and "seg v (unat p) (length d) = d"
    and "\<And>q n. q + n \<le> unat p \<Longrightarrow> seg v q n = seg m q n"
    and "\<And>q n. unat p + length d \<le> q \<Longrightarrow> seg v q n = seg m q n"
proof
  show "mem_write m p d = Inr (take (unat p) m @ d @ drop (unat p + length d) m)"
    using assms by (simp add: mem_write_def)
qed (use assms in \<open>simp_all add: seg_write_same seg_write_before seg_write_after\<close>)

lemma drop_seg: "drop k (seg m p n) = seg m (p + k) (n - k)"
  by (simp add: seg_def drop_take add.commute)

lemma take_seg: "take k (seg m p n) = seg m p (min k n)"
  by (simp add: seg_def)

end
