(* ===== verification/Endian.thy ===== *)
theory Endian
  imports Prelude
begin

text \<open>
  \<^verbatim>\<open>net/include/xendian.h\<close>: the conversions between host and network byte order.
  The program runs on x86 (\<^verbatim>\<open>base/include/time_helper.h\<close> uses the \<^verbatim>\<open>rdtsc\<close>
  instruction), so the host is little-endian and each conversion swaps the bytes of its
  argument. \<open>mem_bytes\<close> is the memory image of an integer on that host, lowest byte
  first, and \<open>mem_word\<close> reads an integer back from its image, as \<^verbatim>\<open>memcpy\<close> does.
\<close>

definition mem_bytes :: "'a::len word \<Rightarrow> byte list" where
  "mem_bytes w = map (\<lambda>i. ucast (drop_bit (8 * i) w)) [0..<LENGTH('a) div 8]"

fun mem_word :: "byte list \<Rightarrow> 'a::len word" where
  "mem_word [] = 0"
| "mem_word (b # bs) = or (ucast b) (push_bit 8 (mem_word bs))"

definition byte_swap :: "'a::len word \<Rightarrow> 'a word" where
  "byte_swap w = mem_word (rev (mem_bytes w))"

definition hostToNetwork64 :: "64 word \<Rightarrow> 64 word" where
  "hostToNetwork64 host64 = byte_swap host64"

definition hostToNetwork32 :: "32 word \<Rightarrow> 32 word" where
  "hostToNetwork32 host32 = byte_swap host32"

definition hostToNetwork16 :: "16 word \<Rightarrow> 16 word" where
  "hostToNetwork16 host16 = byte_swap host16"

definition networkToHost64 :: "64 word \<Rightarrow> 64 word" where
  "networkToHost64 net64 = byte_swap net64"

definition networkToHost32 :: "32 word \<Rightarrow> 32 word" where
  "networkToHost32 net32 = byte_swap net32"

definition networkToHost16 :: "16 word \<Rightarrow> 16 word" where
  "networkToHost16 net16 = byte_swap net16"

lemma length_mem_bytes [simp]: "length (mem_bytes (w::'a::len word)) = LENGTH('a) div 8"
  by (simp add: mem_bytes_def)

lemma nth_mem_bytes:
  "i < LENGTH('a) div 8 \<Longrightarrow> mem_bytes (w::'a::len word) ! i = ucast (drop_bit (8 * i) w)"
  by (simp add: mem_bytes_def)

lemma bit_mem_word:
  "bit (mem_word bs :: 'a::len word) n \<longleftrightarrow>
     n < LENGTH('a) \<and> n div 8 < length bs \<and> bit (bs ! (n div 8)) (n mod 8)"
proof (induction bs arbitrary: n)
  case Nil
  then show ?case by simp
next
  case (Cons b bs)
  show ?case
  proof (cases "n < 8")
    case True
    then show ?thesis by (auto simp: bit_simps dest: bit_imp_le_length)
  next
    case False
    then have d: "n div 8 = Suc ((n - 8) div 8)" "n mod 8 = (n - 8) mod 8"
      by (simp_all add: le_div_geq le_mod_geq)
    have "\<not> bit b n"
      using False bit_imp_le_length [of b n] by auto
    then have "bit (mem_word (b # bs) :: 'a word) n \<longleftrightarrow>
        n < LENGTH('a) \<and> bit (mem_word bs :: 'a word) (n - 8)"
      using False by (auto simp: bit_simps)
    also have "\<dots> \<longleftrightarrow> n < LENGTH('a) \<and> (n - 8) div 8 < length bs \<and> bit (bs ! ((n - 8) div 8)) ((n - 8) mod 8)"
      by (subst Cons.IH) auto
    finally show ?thesis by (simp add: d)
  qed
qed

lemma mem_bytes_mem_word:
  assumes "length bs = LENGTH('a) div 8"
  shows "mem_bytes (mem_word bs :: 'a::len word) = bs"
proof (rule nth_equalityI)
  show "length (mem_bytes (mem_word bs :: 'a word)) = length bs"
    using assms by simp
next
  fix i assume "i < length (mem_bytes (mem_word bs :: 'a word))"
  then have i: "i < LENGTH('a) div 8" by simp
  show "mem_bytes (mem_word bs :: 'a word) ! i = bs ! i"
  proof (rule bit_word_eqI)
    fix n assume "n < LENGTH(8)"
    then have n: "n < 8" by simp
    have q: "(8 * i + n) div 8 = i" "(8 * i + n) mod 8 = n" "8 * i + n < LENGTH('a)"
      using n i by auto
    show "bit (mem_bytes (mem_word bs :: 'a word) ! i) n = bit (bs ! i) n"
      using n i assms q
      by (simp add: nth_mem_bytes bit_simps bit_mem_word)
  qed
qed

lemma mem_word_mem_bytes:
  assumes "LENGTH('a) = 8 * k"
  shows "mem_word (mem_bytes (w::'a::len word)) = w"
proof (rule bit_word_eqI)
  fix n assume n: "n < LENGTH('a)"
  then have i: "n div 8 < LENGTH('a) div 8" using assms by auto
  have "8 * (n div 8) + n mod 8 = n" by simp
  then show "bit (mem_word (mem_bytes w) :: 'a word) n = bit w n"
    using n i by (simp add: bit_mem_word nth_mem_bytes bit_simps)
qed

lemma mem_bytes_byte_swap: "mem_bytes (byte_swap (w::'a::len word)) = rev (mem_bytes w)"
  unfolding byte_swap_def by (rule mem_bytes_mem_word) simp

lemma byte_swap_byte_swap:
  assumes "LENGTH('a) = 8 * k"
  shows "byte_swap (byte_swap (w::'a::len word)) = w"
  using mem_word_mem_bytes [OF assms, of w]
  by (simp add: byte_swap_def [of "byte_swap w"] mem_bytes_byte_swap)

text \<open>The bytes of an integer in network order.\<close>

definition net_bytes :: "'a::len word \<Rightarrow> byte list" where
  "net_bytes w = rev (mem_bytes w)"

lemma length_net_bytes [simp]: "length (net_bytes (w::'a::len word)) = LENGTH('a) div 8"
  by (simp add: net_bytes_def)

lemma mem_bytes_hostToNetwork:
  "mem_bytes (hostToNetwork64 w64) = net_bytes w64"
  "mem_bytes (hostToNetwork32 w32) = net_bytes w32"
  "mem_bytes (hostToNetwork16 w16) = net_bytes w16"
  by (simp_all add: hostToNetwork64_def hostToNetwork32_def hostToNetwork16_def
      mem_bytes_byte_swap net_bytes_def)

lemma networkToHost_net_bytes:
  "networkToHost64 (mem_word (net_bytes w64)) = w64"
  "networkToHost32 (mem_word (net_bytes w32)) = w32"
  "networkToHost16 (mem_word (net_bytes w16)) = w16"
  using byte_swap_byte_swap [of 8 w64] byte_swap_byte_swap [of 4 w32] byte_swap_byte_swap [of 2 w16]
  by (simp_all add: networkToHost64_def networkToHost32_def networkToHost16_def net_bytes_def
      byte_swap_def)

end
