(* ===== verification/Buffer.thy ===== *)
theory Buffer
  imports Endian
begin

text \<open>
  \<^verbatim>\<open>net/include/buffer.h\<close> and \<^verbatim>\<open>net/buffer.cpp\<close>: the byte buffer of a
  connection. Every operation is translated with its assertions and with the wrap-around of
  \<^verbatim>\<open>size_t\<close>. The laws of the operations, in the theories after this one, see the buffer as a
  queue of bytes.
\<close>

section \<open>State\<close>

record xBuffer =
  buffer :: "byte list"
  readerIndex :: size_t
  writerIndex :: size_t

definition kDiscardableSize :: size_t where
  "kDiscardableSize = 4"

definition kInitialSize :: size_t where
  "kInitialSize = 1024 - 4"

definition readableBytes :: "xBuffer \<Rightarrow> size_t" where
  "readableBytes b = writerIndex b - readerIndex b"

definition writableBytes :: "xBuffer \<Rightarrow> size_t" where
  "writableBytes b = vector_size (buffer b) - writerIndex b"

definition discardableBytes :: "xBuffer \<Rightarrow> size_t" where
  "discardableBytes b = readerIndex b"

definition xBuffer_new :: "size_t \<Rightarrow> fault + xBuffer" where
  "xBuffer_new initialSize =
     bindE (vector_new (kDiscardableSize + initialSize)) (\<lambda>v.
       let b = \<lparr>buffer = v, readerIndex = kDiscardableSize, writerIndex = kDiscardableSize\<rparr> in
       bindE (assertE (readableBytes b = 0)) (\<lambda>_.
       bindE (assertE (writableBytes b = initialSize)) (\<lambda>_.
       bindE (assertE (discardableBytes b = kDiscardableSize)) (\<lambda>_. Inr b))))"

definition swap_buffers :: "xBuffer \<Rightarrow> xBuffer \<Rightarrow> xBuffer \<times> xBuffer" where
  "swap_buffers this rhs =
     (this\<lparr>buffer := buffer rhs, readerIndex := readerIndex rhs, writerIndex := writerIndex rhs\<rparr>,
      rhs\<lparr>buffer := buffer this, readerIndex := readerIndex this, writerIndex := writerIndex this\<rparr>)"

section \<open>Reading\<close>

text \<open>Pointers into the vector are offsets from \<^verbatim>\<open>begin()\<close>.\<close>

definition peek :: "xBuffer \<Rightarrow> size_t" where
  "peek b = readerIndex b"

definition beginWrite :: "xBuffer \<Rightarrow> size_t" where
  "beginWrite b = writerIndex b"

definition reset :: "xBuffer \<Rightarrow> xBuffer" where
  "reset b = b\<lparr>readerIndex := kDiscardableSize, writerIndex := kDiscardableSize\<rparr>"

definition moveOver :: "size_t \<Rightarrow> xBuffer \<Rightarrow> fault + xBuffer" where
  "moveOver len b =
     bindE (assertE (len \<le> readableBytes b)) (\<lambda>_.
       Inr (if len < readableBytes b then b\<lparr>readerIndex := readerIndex b + len\<rparr> else reset b))"

definition moveTo :: "size_t \<Rightarrow> xBuffer \<Rightarrow> fault + xBuffer" where
  "moveTo end_ptr b =
     bindE (assertE (peek b \<le> end_ptr)) (\<lambda>_.
     bindE (assertE (end_ptr \<le> beginWrite b)) (\<lambda>_.
       moveOver (end_ptr - peek b) b))"

definition moveInt64 :: "xBuffer \<Rightarrow> fault + xBuffer" where
  "moveInt64 b = moveOver 8 b"

definition moveInt32 :: "xBuffer \<Rightarrow> fault + xBuffer" where
  "moveInt32 b = moveOver 4 b"

definition moveInt16 :: "xBuffer \<Rightarrow> fault + xBuffer" where
  "moveInt16 b = moveOver 2 b"

definition moveInt8 :: "xBuffer \<Rightarrow> fault + xBuffer" where
  "moveInt8 b = moveOver 1 b"

definition readStr :: "size_t \<Rightarrow> xBuffer \<Rightarrow> fault + byte list \<times> xBuffer" where
  "readStr len b =
     bindE (assertE (len \<le> readableBytes b)) (\<lambda>_.
     bindE (mem_read (buffer b) (peek b) len) (\<lambda>result.
     bindE (moveOver len b) (\<lambda>b'. Inr (result, b'))))"

definition readAll :: "xBuffer \<Rightarrow> fault + byte list \<times> xBuffer" where
  "readAll b = readStr (readableBytes b) b"

definition toString :: "xBuffer \<Rightarrow> fault + byte list" where
  "toString b = mem_read (buffer b) (peek b) (readableBytes b)"

section \<open>Writing\<close>

text \<open>
  \<open>makeSpace\<close> either grows the vector or moves the readable bytes to the front of it.
\<close>

definition makeSpace :: "size_t \<Rightarrow> xBuffer \<Rightarrow> fault + xBuffer" where
  "makeSpace len b =
     (if writableBytes b + discardableBytes b < len + kDiscardableSize
      then bindE (vector_resize (writerIndex b + len) (buffer b)) (\<lambda>v. Inr (b\<lparr>buffer := v\<rparr>))
      else bindE (assertE (kDiscardableSize < readerIndex b)) (\<lambda>_.
           let readable = readableBytes b in
           bindE (mem_read (buffer b) (readerIndex b) readable) (\<lambda>d.
           bindE (mem_write (buffer b) kDiscardableSize d) (\<lambda>v.
           let b' = b\<lparr>buffer := v, readerIndex := kDiscardableSize,
                       writerIndex := kDiscardableSize + readable\<rparr> in
           bindE (assertE (readable = readableBytes b')) (\<lambda>_. Inr b')))))"

definition ensureWritableBytes :: "size_t \<Rightarrow> xBuffer \<Rightarrow> fault + xBuffer" where
  "ensureWritableBytes len b =
     bindE (if writableBytes b < len then makeSpace len b else Inr b) (\<lambda>b'.
     bindE (assertE (len \<le> writableBytes b')) (\<lambda>_. Inr b'))"

definition hasWritten :: "size_t \<Rightarrow> xBuffer \<Rightarrow> fault + xBuffer" where
  "hasWritten len b =
     bindE (assertE (len \<le> writableBytes b)) (\<lambda>_. Inr (b\<lparr>writerIndex := writerIndex b + len\<rparr>))"

definition unwrite :: "size_t \<Rightarrow> xBuffer \<Rightarrow> fault + xBuffer" where
  "unwrite len b =
     bindE (assertE (len \<le> readableBytes b)) (\<lambda>_. Inr (b\<lparr>writerIndex := writerIndex b - len\<rparr>))"

text \<open>
  \<open>append mem len\<close> copies \<open>len\<close> bytes from a pointer; \<open>mem\<close> is the memory from the
  pointer to the end of the object it points into.
\<close>

definition append_bytes :: "byte list \<Rightarrow> size_t \<Rightarrow> xBuffer \<Rightarrow> fault + xBuffer" where
  "append_bytes mem len b =
     bindE (ensureWritableBytes len b) (\<lambda>b1.
     bindE (mem_read mem 0 len) (\<lambda>d.
     bindE (mem_write (buffer b1) (beginWrite b1) d) (\<lambda>v.
       hasWritten len (b1\<lparr>buffer := v\<rparr>))))"

definition append_string :: "byte list \<Rightarrow> xBuffer \<Rightarrow> fault + xBuffer" where
  "append_string str b = append_bytes str (of_nat (length str)) b"

definition appendInt64 :: "64 word \<Rightarrow> xBuffer \<Rightarrow> fault + xBuffer" where
  "appendInt64 x b = append_bytes (mem_bytes (hostToNetwork64 x)) 8 b"

definition appendInt32 :: "32 word \<Rightarrow> xBuffer \<Rightarrow> fault + xBuffer" where
  "appendInt32 x b = append_bytes (mem_bytes (hostToNetwork32 x)) 4 b"

definition appendInt16 :: "16 word \<Rightarrow> xBuffer \<Rightarrow> fault + xBuffer" where
  "appendInt16 x b = append_bytes (mem_bytes (hostToNetwork16 x)) 2 b"

definition appendInt8 :: "8 word \<Rightarrow> xBuffer \<Rightarrow> fault + xBuffer" where
  "appendInt8 x b = append_bytes (mem_bytes x) 1 b"

definition prepend :: "byte list \<Rightarrow> size_t \<Rightarrow> xBuffer \<Rightarrow> fault + xBuffer" where
  "prepend mem len b =
     bindE (assertE (len \<le> discardableBytes b)) (\<lambda>_.
       let b1 = b\<lparr>readerIndex := readerIndex b - len\<rparr> in
       bindE (mem_read mem 0 len) (\<lambda>d.
       bindE (mem_write (buffer b1) (readerIndex b1) d) (\<lambda>v. Inr (b1\<lparr>buffer := v\<rparr>))))"

definition prependInt64 :: "64 word \<Rightarrow> xBuffer \<Rightarrow> fault + xBuffer" where
  "prependInt64 x b = prepend (mem_bytes (hostToNetwork64 x)) 8 b"

definition prependInt32 :: "32 word \<Rightarrow> xBuffer \<Rightarrow> fault + xBuffer" where
  "prependInt32 x b = prepend (mem_bytes (hostToNetwork32 x)) 4 b"

definition prependInt16 :: "16 word \<Rightarrow> xBuffer \<Rightarrow> fault + xBuffer" where
  "prependInt16 x b = prepend (mem_bytes (hostToNetwork16 x)) 2 b"

definition prependInt8 :: "8 word \<Rightarrow> xBuffer \<Rightarrow> fault + xBuffer" where
  "prependInt8 x b = prepend (mem_bytes x) 1 b"

section \<open>Integers\<close>

definition peekInt64 :: "xBuffer \<Rightarrow> fault + 64 word" where
  "peekInt64 b =
     bindE (assertE (8 \<le> readableBytes b)) (\<lambda>_.
     bindE (mem_read (buffer b) (peek b) 8) (\<lambda>d. Inr (networkToHost64 (mem_word d))))"

definition peekInt32 :: "xBuffer \<Rightarrow> fault + 32 word" where
  "peekInt32 b =
     bindE (assertE (4 \<le> readableBytes b)) (\<lambda>_.
     bindE (mem_read (buffer b) (peek b) 4) (\<lambda>d. Inr (networkToHost32 (mem_word d))))"

definition peekInt16 :: "xBuffer \<Rightarrow> fault + 16 word" where
  "peekInt16 b =
     bindE (assertE (2 \<le> readableBytes b)) (\<lambda>_.
     bindE (mem_read (buffer b) (peek b) 2) (\<lambda>d. Inr (networkToHost16 (mem_word d))))"

definition peekInt8 :: "xBuffer \<Rightarrow> fault + 8 word" where
  "peekInt8 b =
     bindE (assertE (1 \<le> readableBytes b)) (\<lambda>_.
     bindE (mem_read (buffer b) (peek b) 1) (\<lambda>d. Inr (mem_word d)))"

definition readInt64 :: "xBuffer \<Rightarrow> fault + 64 word \<times> xBuffer" where
  "readInt64 b = bindE (peekInt64 b) (\<lambda>result. bindE (moveInt64 b) (\<lambda>b'. Inr (result, b')))"

definition readInt32 :: "xBuffer \<Rightarrow> fault + 32 word \<times> xBuffer" where
  "readInt32 b = bindE (peekInt32 b) (\<lambda>result. bindE (moveInt32 b) (\<lambda>b'. Inr (result, b')))"

definition readInt16 :: "xBuffer \<Rightarrow> fault + 16 word \<times> xBuffer" where
  "readInt16 b = bindE (peekInt16 b) (\<lambda>result. bindE (moveInt16 b) (\<lambda>b'. Inr (result, b')))"

definition readInt8 :: "xBuffer \<Rightarrow> fault + 8 word \<times> xBuffer" where
  "readInt8 b = bindE (peekInt8 b) (\<lambda>result. bindE (moveInt8 b) (\<lambda>b'. Inr (result, b')))"

section \<open>Filling from a descriptor\<close>

text \<open>
  \<open>readvFd\<close> is \<^verbatim>\<open>xSockApi::readvFd\<close>, the \<^verbatim>\<open>readv\<close> system call: it
  delivers at most the total length of the vectors, and refuses a total beyond
  \<^verbatim>\<open>SSIZE_MAX\<close>. The first vector is the free part of the buffer, the second 8192 bytes
  on the stack, used only when the buffer has less than that left.
\<close>

definition readvFd :: "rd_res \<Rightarrow> size_t list \<Rightarrow> errno + byte list" where
  "readvFd r iov =
     (let total = sum_list (map unat iov) in
      if total > vec_max then Inl EINVAL
      else case r of RErr e \<Rightarrow> Inl e | RData ds \<Rightarrow> Inr (take total ds))"

definition fillFromFd :: "rd_res \<Rightarrow> xBuffer \<Rightarrow> fault + io_ret \<times> xBuffer" where
  "fillFromFd r b =
     (let writable = sint (writableBytes b);
          iov = (if writable < 8192 then [writableBytes b, 8192] else [writableBytes b])
      in case readvFd r iov of
           Inl e \<Rightarrow> Inr (Failed e, b)
         | Inr ds \<Rightarrow>
             bindE (mem_write (buffer b) (writerIndex b) (take (unat (writableBytes b)) ds)) (\<lambda>v.
             let n = length ds; b1 = b\<lparr>buffer := v\<rparr> in
             if int n \<le> writable then Inr (Bytes n, b1\<lparr>writerIndex := writerIndex b1 + of_nat n\<rparr>)
             else bindE (append_bytes (drop (unat (writableBytes b)) ds) (of_int (int n - writable))
                           (b1\<lparr>writerIndex := vector_size (buffer b1)\<rparr>)) (\<lambda>b2.
                  Inr (Bytes n, b2))))"

end
