(* ===== verification/Buffer_Laws.thy ===== *)
theory Buffer_Laws
  imports Buffer
begin

text \<open>
  What the operations of \<open>Buffer\<close> do to the readable bytes of a well-formed buffer. Each law
  gives the outcome of the operation, its effect on \<open>content\<close> and the preservation of the
  invariant \<open>bwf\<close>.
\<close>

section \<open>The invariant and the abstraction\<close>

definition bwf :: "xBuffer \<Rightarrow> bool" where
  "bwf b \<longleftrightarrow> unat (readerIndex b) \<le> unat (writerIndex b) \<and>
     unat (writerIndex b) \<le> length (buffer b) \<and> 4 \<le> length (buffer b) \<and> length (buffer b) \<le> vec_max"

definition content :: "xBuffer \<Rightarrow> byte list" where
  "content b = seg (buffer b) (unat (readerIndex b)) (unat (writerIndex b) - unat (readerIndex b))"

lemma bwfD:
  assumes "bwf b"
  shows "unat (readerIndex b) \<le> unat (writerIndex b)"
    and "unat (writerIndex b) \<le> length (buffer b)"
    and "4 \<le> length (buffer b)"
    and "length (buffer b) \<le> vec_max"
    and "length (buffer b) < 2 ^ 63"
  using assms by (auto simp: bwf_def vec_max_def)

lemma unat_kDiscardableSize [simp]: "unat kDiscardableSize = 4"
  by (simp add: kDiscardableSize_def)

lemma unat_readableBytes [buf_simps]:
  "bwf b \<Longrightarrow> unat (readableBytes b) = length (content b)"
  by (simp add: readableBytes_def content_def bwf_def unat_sub word_le_nat_alt)

lemma unat_writableBytes [buf_simps]:
  "bwf b \<Longrightarrow> unat (writableBytes b) = length (buffer b) - unat (writerIndex b)"
  by (simp add: writableBytes_def bwf_def unat_sub word_le_nat_alt unat_vector_size)

lemma length_content:
  "bwf b \<Longrightarrow> length (content b) = unat (writerIndex b) - unat (readerIndex b)"
  by (simp add: content_def bwf_def)

lemma content_lengths:
  assumes "bwf b"
  shows "length (content b) + unat (readerIndex b) = unat (writerIndex b)"
    and "length (content b) \<le> vec_max"
  using assms bwfD [OF assms] by (simp_all add: length_content)

lemma readableBytes_of_nat: "bwf b \<Longrightarrow> readableBytes b = of_nat (length (content b))"
  by (simp flip: unat_readableBytes)

lemma readable_le [buf_simps]: "bwf b \<Longrightarrow> n \<le> readableBytes b \<longleftrightarrow> unat n \<le> length (content b)"
  by (simp add: word_le_nat_alt unat_readableBytes)

lemma readable_less [buf_simps]: "bwf b \<Longrightarrow> n < readableBytes b \<longleftrightarrow> unat n < length (content b)"
  by (simp add: word_less_nat_alt unat_readableBytes)

section \<open>Reading and moving\<close>

lemma content_reset [simp]: "content (reset b) = []"
  by (simp add: content_def reset_def)

lemma bwf_reset [simp]: "bwf b \<Longrightarrow> bwf (reset b)"
  by (simp add: bwf_def reset_def)

lemma moveOver_ok:
  assumes "bwf b" and "unat n \<le> length (content b)"
  obtains b' where "moveOver n b = Inr b'" and "bwf b'"
    and "content b' = drop (unat n) (content b)" and "buffer b' = buffer b"
proof (cases "unat n < length (content b)")
  case True
  let ?b = "b\<lparr>readerIndex := readerIndex b + n\<rparr>"
  note D = bwfD [OF assms(1)] and L = length_content [OF assms(1)]
  have u: "unat (readerIndex b + n) = unat (readerIndex b) + unat n"
    by (rule unat_size_add) (use D L True in simp)
  have "moveOver n b = Inr ?b"
    using assms True by (simp add: moveOver_def buf_simps)
  moreover have "bwf ?b"
    using D L True u by (simp add: bwf_def)
  moreover have "content ?b = drop (unat n) (content b)"
    using u by (simp add: content_def drop_seg)
  ultimately show ?thesis by (rule that) simp
next
  case False
  then have "moveOver n b = Inr (reset b)"
    using assms by (simp add: moveOver_def buf_simps)
  moreover have "content (reset b) = drop (unat n) (content b)"
    using False by simp
  ultimately show ?thesis
    using assms(1) by (intro that [of "reset b"]) (simp_all, simp add: reset_def)
qed

lemma moveOver_assert:
  "bwf b \<Longrightarrow> length (content b) < unat n \<Longrightarrow> moveOver n b = Inl AssertFailed"
  by (simp add: moveOver_def assertE_def buf_simps)

lemma mem_read_content:
  assumes "bwf b" and "unat n \<le> length (content b)"
  shows "mem_read (buffer b) (peek b) n = Inr (take (unat n) (content b))"
proof -
  note D = bwfD [OF assms(1)] and L = length_content [OF assms(1)]
  have "unat (readerIndex b) + unat n \<le> length (buffer b)"
    using assms(2) D L by simp
  moreover have "take (unat n) (drop (unat (readerIndex b)) (buffer b)) = take (unat n) (content b)"
    using assms(2) L by (simp add: content_def seg_def min_def)
  ultimately show ?thesis
    by (simp add: mem_read_def peek_def)
qed

lemma toString_ok [buf_simps]: "bwf b \<Longrightarrow> toString b = Inr (content b)"
  by (simp add: toString_def mem_read_content unat_readableBytes)

lemma readStr_ok:
  assumes "bwf b" and "unat n \<le> length (content b)"
  obtains b' where "readStr n b = Inr (take (unat n) (content b), b')" and "bwf b'"
    and "content b' = drop (unat n) (content b)" and "buffer b' = buffer b"
proof -
  obtain b' where "moveOver n b = Inr b'" "bwf b'"
    "content b' = drop (unat n) (content b)" "buffer b' = buffer b"
    using assms by (rule moveOver_ok)
  moreover from this have "readStr n b = Inr (take (unat n) (content b), b')"
    using assms by (simp add: readStr_def mem_read_content buf_simps)
  ultimately show ?thesis using that by blast
qed

lemma readAll_ok:
  assumes "bwf b"
  obtains b' where "readAll b = Inr (content b, b')" and "bwf b'" and "content b' = []"
    and "buffer b' = buffer b"
  using readStr_ok [OF assms, of "readableBytes b"] assms
  by (auto simp: readAll_def buf_simps)

section \<open>Making room\<close>

lemma vector_resize_grow:
  assumes "length v \<le> unat n" and "unat n \<le> vec_max"
  shows "vector_resize n v = Inr (v @ replicate (unat n - length v) 0)"
  using assms by (simp add: vector_resize_def)

lemma makeSpace_ok:
  assumes b: "bwf b" and room: "unat (writableBytes b) < unat n"
    and fits: "unat (writerIndex b) + unat n \<le> vec_max"
  obtains b' where "makeSpace n b = Inr b'" and "bwf b'" and "content b' = content b"
    and "unat n \<le> unat (writableBytes b')"
    and "length (buffer b') =
       (if length (buffer b) < length (content b) + unat n + 4
        then unat (writerIndex b) + unat n else length (buffer b))"
    and "unat (writerIndex b') \<le> unat (writerIndex b)"
proof -
  note D = bwfD [OF b] and L = length_content [OF b] and W = unat_writableBytes [OF b]
  have s1: "unat (writableBytes b + discardableBytes b) =
      length (buffer b) - unat (writerIndex b) + unat (readerIndex b)"
    using D W by (subst unat_size_add) (auto simp: discardableBytes_def)
  have s2: "unat (n + kDiscardableSize) = unat n + 4"
    using fits by (subst unat_size_add) (auto simp: vec_max_def)
  have c: "writableBytes b + discardableBytes b < n + kDiscardableSize \<longleftrightarrow>
      length (buffer b) < length (content b) + unat n + 4"
    using s1 s2 D L by (auto simp: word_less_nat_alt)
  have u: "unat (writerIndex b + n) = unat (writerIndex b) + unat n"
    using fits by (subst unat_size_add) (auto simp: vec_max_def)
  show ?thesis
  proof (cases "length (buffer b) < length (content b) + unat n + 4")
    case True
    let ?b = "b\<lparr>buffer := buffer b @ replicate (unat (writerIndex b) + unat n - length (buffer b)) 0\<rparr>"
    have g: "length (buffer b) \<le> unat (writerIndex b) + unat n"
      using room W by simp
    have "makeSpace n b = Inr ?b"
      using True c u g fits by (simp add: makeSpace_def vector_resize_grow)
    moreover have wf: "bwf ?b"
      using D g fits by (simp add: bwf_def)
    moreover have "content ?b = content b"
      using D by (simp add: content_def seg_def)
    moreover have "unat n \<le> unat (writableBytes ?b)"
      using unat_writableBytes [OF wf] g by simp
    ultimately show ?thesis
      using True g by (intro that [of ?b]) auto
  next
    case False
    have r4: "4 < unat (readerIndex b)"
      using False room W D L by linarith
    have "unat kDiscardableSize + length (content b) \<le> length (buffer b)"
      using r4 D L by simp
    then obtain v where v: "mem_write (buffer b) kDiscardableSize (content b) = Inr v"
      "length v = length (buffer b)" "seg v (unat kDiscardableSize) (length (content b)) = content b"
      "\<And>q n. q + n \<le> unat kDiscardableSize \<Longrightarrow> seg v q n = seg (buffer b) q n"
      "\<And>q n. unat kDiscardableSize + length (content b) \<le> q \<Longrightarrow> seg v q n = seg (buffer b) q n"
      by (rule mem_write_ok) (rule that)
    let ?b = "b\<lparr>buffer := v, readerIndex := kDiscardableSize,
                 writerIndex := kDiscardableSize + readableBytes b\<rparr>"
    have rd: "mem_read (buffer b) (readerIndex b) (readableBytes b) = Inr (content b)"
      using mem_read_content [OF b, of "readableBytes b"] b by (simp add: peek_def buf_simps)
    have uw: "unat (kDiscardableSize + readableBytes b) = 4 + length (content b)"
      using D L b by (subst unat_size_add) (auto simp: buf_simps)
    have "makeSpace n b = Inr ?b"
      using False c r4 rd v(1)
      by (simp add: makeSpace_def word_less_nat_alt Let_def readableBytes_def)
    moreover have wf: "bwf ?b"
      using D L v(2) uw r4 by (auto simp: bwf_def)
    moreover have "content ?b = content b"
      using uw v(3) by (simp add: content_def [of ?b])
    moreover have "unat n \<le> unat (writableBytes ?b)"
      using unat_writableBytes [OF wf] uw v(2) False by simp
    ultimately show ?thesis
      using False v(2) uw r4 content_lengths(1) [OF b] by (intro that [of ?b]) auto
  qed
qed

lemma ensureWritableBytes_ok:
  assumes b: "bwf b" and fits: "unat (writerIndex b) + unat n \<le> vec_max"
  obtains b' where "ensureWritableBytes n b = Inr b'" and "bwf b'" and "content b' = content b"
    and "unat n \<le> length (buffer b') - unat (writerIndex b')"
    and "length (buffer b') = (if length (buffer b) < unat (writerIndex b) + unat n \<and>
          length (buffer b) < length (content b) + unat n + 4
        then unat (writerIndex b) + unat n else length (buffer b))"
    and "unat (writerIndex b') \<le> unat (writerIndex b)"
proof (cases "unat (writableBytes b) < unat n")
  case True
  obtain b' where b': "makeSpace n b = Inr b'" "bwf b'" "content b' = content b"
    "unat n \<le> unat (writableBytes b')"
    "length (buffer b') = (if length (buffer b) < length (content b) + unat n + 4
       then unat (writerIndex b) + unat n else length (buffer b))"
    "unat (writerIndex b') \<le> unat (writerIndex b)"
    using b True fits by (rule makeSpace_ok)
  have "length (buffer b) < unat (writerIndex b) + unat n"
    using True unat_writableBytes [OF b] by simp
  moreover have "ensureWritableBytes n b = Inr b'"
    using True b' by (simp add: ensureWritableBytes_def word_less_nat_alt word_le_nat_alt)
  ultimately show ?thesis
    using b' unat_writableBytes [OF b'(2)] by (intro that [of b']) auto
next
  case False
  then have "\<not> length (buffer b) < unat (writerIndex b) + unat n"
    using unat_writableBytes [OF b] bwfD [OF b] by simp
  moreover have "ensureWritableBytes n b = Inr b"
    using False by (simp add: ensureWritableBytes_def word_less_nat_alt word_le_nat_alt)
  ultimately show ?thesis
    using b False unat_writableBytes [OF b] by (intro that [of b]) auto
qed

section \<open>Appending and prepending\<close>

lemma append_bytes_ok:
  assumes b: "bwf b" and n: "unat n \<le> length mem" and fits: "unat (writerIndex b) + unat n \<le> vec_max"
  obtains b' where "append_bytes mem n b = Inr b'" and "bwf b'"
    and "content b' = content b @ take (unat n) mem"
    and "length (buffer b') = (if length (buffer b) < unat (writerIndex b) + unat n \<and>
          length (buffer b) < length (content b) + unat n + 4
        then unat (writerIndex b) + unat n else length (buffer b))"
    and "unat (writerIndex b') \<le> unat (writerIndex b) + unat n"
proof -
  obtain b1 where b1: "ensureWritableBytes n b = Inr b1" "bwf b1" "content b1 = content b"
    "unat n \<le> length (buffer b1) - unat (writerIndex b1)"
    "length (buffer b1) = (if length (buffer b) < unat (writerIndex b) + unat n \<and>
          length (buffer b) < length (content b) + unat n + 4
        then unat (writerIndex b) + unat n else length (buffer b))"
    "unat (writerIndex b1) \<le> unat (writerIndex b)"
    using b fits by (rule ensureWritableBytes_ok)
  note D = bwfD [OF b1(2)] and L = length_content [OF b1(2)]
  let ?w = "unat (writerIndex b1)" and ?r = "unat (readerIndex b1)" and ?d = "take (unat n) mem"
  have ld: "length ?d = unat n" using n by simp
  have rd: "mem_read mem 0 n = Inr ?d"
    using n by (simp add: mem_read_def)
  have "?w + length ?d \<le> length (buffer b1)"
    using b1(4) D ld by simp
  then obtain v where v: "mem_write (buffer b1) (writerIndex b1) ?d = Inr v"
    "length v = length (buffer b1)" "seg v ?w (length ?d) = ?d"
    "\<And>q n. q + n \<le> ?w \<Longrightarrow> seg v q n = seg (buffer b1) q n"
    "\<And>q n. ?w + length ?d \<le> q \<Longrightarrow> seg v q n = seg (buffer b1) q n"
    by (rule mem_write_ok) (rule that)
  let ?b = "b1\<lparr>buffer := v, writerIndex := writerIndex b1 + n\<rparr>"
  have u: "unat (writerIndex b1 + n) = ?w + unat n"
    using b1(4) D by (subst unat_size_add) auto
  have "hasWritten n (b1\<lparr>buffer := v\<rparr>) = Inr ?b"
  proof -
    have wf: "bwf (b1\<lparr>buffer := v\<rparr>)"
      using D v(2) by (simp add: bwf_def)
    have "n \<le> writableBytes (b1\<lparr>buffer := v\<rparr>)"
      using unat_writableBytes [OF wf] v(2) b1(4) by (simp add: word_le_nat_alt)
    then show ?thesis by (simp add: hasWritten_def)
  qed
  then have "append_bytes mem n b = Inr ?b"
    using b1(1) rd v(1) by (simp add: append_bytes_def beginWrite_def)
  moreover have "bwf ?b"
    using D v(2) u b1(4) by (simp add: bwf_def)
  moreover have "content ?b = content b @ ?d"
  proof -
    have "content ?b = seg v ?r (?w - ?r) @ seg v ?w (unat n)"
      using u D seg_append [of v ?r "?w - ?r" "unat n"] by (simp add: content_def)
    also have "seg v ?w (unat n) = ?d"
      using v(3) by (simp only: ld)
    also have "seg v ?r (?w - ?r) = content b1"
      using v(4) [of ?r "?w - ?r"] D by (simp add: content_def)
    finally show ?thesis using b1(3) by simp
  qed
  moreover have "length (buffer ?b) = (if length (buffer b) < unat (writerIndex b) + unat n \<and>
          length (buffer b) < length (content b) + unat n + 4
        then unat (writerIndex b) + unat n else length (buffer b))"
    using v(2) b1(5) by simp
  moreover have "unat (writerIndex ?b) \<le> unat (writerIndex b) + unat n"
    using u b1(6) by simp
  ultimately show ?thesis by (rule that)
qed

lemma append_string_ok:
  assumes "bwf b" and "unat (writerIndex b) + length str \<le> vec_max"
  obtains b' where "append_string str b = Inr b'" and "bwf b'" and "content b' = content b @ str"
    and "length (buffer b') = (if length (buffer b) < unat (writerIndex b) + length str \<and>
          length (buffer b) < length (content b) + length str + 4
        then unat (writerIndex b) + length str else length (buffer b))"
    and "unat (writerIndex b') \<le> unat (writerIndex b) + length str"
proof -
  let ?n = "of_nat (length str) :: size_t"
  have n: "unat ?n = length str"
    using assms(2) by (intro unat_size_of_nat) (simp add: vec_max_def)
  have "unat ?n \<le> length str" and "unat (writerIndex b) + unat ?n \<le> vec_max"
    using n assms(2) by simp_all
  from append_bytes_ok [OF assms(1) this] obtain b' where b':
    "append_bytes str ?n b = Inr b'" "bwf b'" "content b' = content b @ take (unat ?n) str"
    "length (buffer b') = (if length (buffer b) < unat (writerIndex b) + unat ?n \<and>
          length (buffer b) < length (content b) + unat ?n + 4
        then unat (writerIndex b) + unat ?n else length (buffer b))"
    "unat (writerIndex b') \<le> unat (writerIndex b) + unat ?n"
    by blast
  show ?thesis
  proof (rule that)
    show "append_string str b = Inr b'" using b'(1) by (simp only: append_string_def)
    show "content b' = content b @ str" using b'(3) unfolding n by simp
  qed (use b'(2,4,5) in \<open>simp_all only: n\<close>)
qed

lemma prepend_ok:
  assumes b: "bwf b" and n: "unat n \<le> length mem" and room: "unat n \<le> unat (readerIndex b)"
  obtains b' where "prepend mem n b = Inr b'" and "bwf b'"
    and "content b' = take (unat n) mem @ content b"
    and "unat (readerIndex b') = unat (readerIndex b) - unat n"
    and "length (buffer b') = length (buffer b)"
proof -
  note D = bwfD [OF b] and L = length_content [OF b]
  let ?r = "unat (readerIndex b)" and ?w = "unat (writerIndex b)" and ?d = "take (unat n) mem"
  have u: "unat (readerIndex b - n) = ?r - unat n"
    using room by (simp add: unat_sub word_le_nat_alt)
  have ld: "length ?d = unat n" using n by simp
  let ?p = "?r - unat n"
  have "unat (readerIndex b - n) + length ?d \<le> length (buffer b)"
    using u ld room D by simp
  then obtain v where v: "mem_write (buffer b) (readerIndex b - n) ?d = Inr v"
    "length v = length (buffer b)" "seg v (unat (readerIndex b - n)) (length ?d) = ?d"
    "\<And>q m. q + m \<le> unat (readerIndex b - n) \<Longrightarrow> seg v q m = seg (buffer b) q m"
    "\<And>q m. unat (readerIndex b - n) + length ?d \<le> q \<Longrightarrow> seg v q m = seg (buffer b) q m"
    by (rule mem_write_ok) (rule that)
  let ?b = "b\<lparr>readerIndex := readerIndex b - n, buffer := v\<rparr>"
  have "prepend mem n b = Inr ?b"
    using n room v(1) by (simp add: prepend_def discardableBytes_def word_le_nat_alt mem_read_def Let_def)
  moreover have "bwf ?b"
    using D v(2) u by (simp add: bwf_def)
  moreover have "content ?b = ?d @ content b"
  proof -
    have "?w - ?p = unat n + (?w - ?r)"
      using room D by simp
    then have "content ?b = seg v ?p (unat n) @ seg v ?r (?w - ?r)"
      using u room seg_append [of v ?p "unat n" "?w - ?r"] by (simp add: content_def)
    also have "seg v ?p (unat n) = ?d"
      using v(3) by (simp only: ld u)
    also have "seg v ?r (?w - ?r) = content b"
      using v(5) [of ?r "?w - ?r"] ld u room by (simp add: content_def)
    finally show ?thesis .
  qed
  moreover have "unat (readerIndex ?b) = ?p" and "length (buffer ?b) = length (buffer b)"
    using v(2) u by simp_all
  ultimately show ?thesis by (rule that)
qed

section \<open>Construction\<close>

text \<open>Appending keeps the room in front of the readable bytes.\<close>

lemma append_bytes_front:
  assumes "append_bytes mem n b = Inr b'" and "4 \<le> unat (readerIndex b)"
  shows "4 \<le> unat (readerIndex b')"
proof -
  obtain b1 where b1: "ensureWritableBytes n b = Inr b1" "readerIndex b' = readerIndex b1"
    using assms(1) by (auto simp: append_bytes_def hasWritten_def bindE_eq_Inr bindE_assertE split: if_splits)
  then have "readerIndex b1 = readerIndex b \<or> readerIndex b1 = kDiscardableSize"
    by (auto simp: ensureWritableBytes_def makeSpace_def bindE_eq_Inr bindE_assertE Let_def split: if_splits)
  then show ?thesis using b1(2) assms(2) by (auto simp: kDiscardableSize_def)
qed

lemma xBuffer_new_ok:
  assumes "unat n + 4 \<le> vec_max"
  obtains b where "xBuffer_new n = Inr b" and "bwf b" and "content b = []"
    and "unat (readerIndex b) = 4" and "unat (writerIndex b) = 4" and "length (buffer b) = unat n + 4"
proof -
  let ?v = "replicate (unat n + 4) 0 :: byte list"
  let ?b = "\<lparr>buffer = ?v, readerIndex = kDiscardableSize, writerIndex = kDiscardableSize\<rparr>"
  have u: "unat (kDiscardableSize + n) = unat n + 4"
    using assms by (subst unat_size_add) (auto simp: vec_max_def)
  have wf: "bwf ?b"
    using assms by (simp add: bwf_def)
  have c: "content ?b = []"
    by (simp add: content_def)
  have w: "writableBytes ?b = n"
    using unat_writableBytes [OF wf] by (simp add: word_unat_eq_iff)
  have "xBuffer_new n = Inr ?b"
    using assms u w by (simp add: xBuffer_new_def vector_new_def Let_def readableBytes_def discardableBytes_def)
  then show ?thesis
    using wf c by (rule that) simp_all
qed

end
