(* ===== verification/Buffer_Fifo.thy ===== *)
theory Buffer_Fifo
  imports Buffer_Laws
begin

text \<open>
  The buffer as its clients use it: integers in network order, filling from a descriptor, and
  the contract of a bounded FIFO queue of bytes. The two interfaces (\<open>byte_fifo\<close>,
  \<open>int_codec\<close>) are stated as locales, their consequences proved once, and interpreted on the
  operations of \<open>xBuffer\<close>.
\<close>

section \<open>Integers\<close>

text \<open>The readable bytes, when there are enough of them, decide what a peek returns.\<close>

lemma peek_bytes:
  assumes "bwf b" and "content b = d @ rest" and "unat n = length d"
  shows "n \<le> readableBytes b" and "mem_read (buffer b) (peek b) n = Inr d"
  using assms mem_read_content [of b n] by (simp_all add: buf_simps)

lemma peekInt_ok:
  assumes "bwf b"
  shows "content b = net_bytes x64 @ rest \<Longrightarrow> peekInt64 b = Inr x64"
    and "content b = net_bytes x32 @ rest \<Longrightarrow> peekInt32 b = Inr x32"
    and "content b = net_bytes x16 @ rest \<Longrightarrow> peekInt16 b = Inr x16"
    and "content b = mem_bytes x8 @ rest \<Longrightarrow> peekInt8 b = Inr x8"
  using peek_bytes [OF assms, of _ rest]
  by (simp_all add: peekInt64_def peekInt32_def peekInt16_def peekInt8_def
      networkToHost_net_bytes mem_word_mem_bytes [of 1])

lemma readInt_short:
  assumes "bwf b"
  shows "length (content b) < 8 \<Longrightarrow> readInt64 b = Inl AssertFailed"
    and "length (content b) < 4 \<Longrightarrow> readInt32 b = Inl AssertFailed"
    and "length (content b) < 2 \<Longrightarrow> readInt16 b = Inl AssertFailed"
    and "length (content b) < 1 \<Longrightarrow> readInt8 b = Inl AssertFailed"
  using assms
  by (simp_all add: readInt64_def readInt32_def readInt16_def readInt8_def peekInt64_def
      peekInt32_def peekInt16_def peekInt8_def bindE_assertE buf_simps)

lemma moveOver_prefix:
  assumes "bwf b" and "content b = d @ rest" and "unat n = length d"
  shows "\<exists>b'. moveOver n b = Inr b' \<and> bwf b' \<and> content b' = rest"
  using moveOver_ok [OF assms(1), of n] assms(2,3) by (metis append_eq_conv_conj le_add1 length_append)

lemma append_prefix:
  assumes "bwf b" and "unat n = length d" and "unat (writerIndex b) + length d \<le> vec_max"
  shows "\<exists>b'. append_bytes d n b = Inr b' \<and> bwf b' \<and> content b' = content b @ d \<and>
    unat (writerIndex b') \<le> unat (writerIndex b) + length d"
  using append_bytes_ok [OF assms(1), of n d] assms(2,3)
  by (metis order_refl take_all)

text \<open>A vector that grows stays within twice the bytes it holds.\<close>

lemma append_grows:
  assumes "bwf b" and "unat n = length d" and "unat (writerIndex b) + length d \<le> vec_max"
  shows "\<exists>b'. append_bytes d n b = Inr b' \<and> bwf b' \<and> content b' = content b @ d \<and>
    unat (writerIndex b') \<le> unat (writerIndex b) + length d \<and>
    length (buffer b') \<le> max (length (buffer b)) (2 * length (content b @ d) + 4)"
proof -
  have "unat n \<le> length d" "unat (writerIndex b) + unat n \<le> vec_max" using assms(2,3) by simp_all
  from append_bytes_ok [OF assms(1) this] obtain b' where b': "append_bytes d n b = Inr b'" "bwf b'"
    "content b' = content b @ take (unat n) d"
    "length (buffer b') = (if length (buffer b) < unat (writerIndex b) + unat n \<and> length (buffer b) < length (content b) + unat n + 4
        then unat (writerIndex b) + unat n else length (buffer b))"
    "unat (writerIndex b') \<le> unat (writerIndex b) + unat n"
    by metis
  then show ?thesis
    using assms(2) bwfD(2) [OF assms(1)] by (intro exI [of _ b']) auto
qed

text \<open>
  A codec writes a value behind the readable bytes and reads one from their front; its wire
  form has a fixed width.
\<close>

locale int_codec =
  fixes put :: "'x \<Rightarrow> xBuffer \<Rightarrow> fault + xBuffer"
    and get :: "xBuffer \<Rightarrow> fault + 'x \<times> xBuffer"
    and enc :: "'x \<Rightarrow> byte list"
    and width :: nat
  assumes enc_width: "length (enc x) = width"
    and put_law: "bwf b \<Longrightarrow> unat (writerIndex b) + width \<le> vec_max \<Longrightarrow>
      \<exists>b'. put x b = Inr b' \<and> bwf b' \<and> content b' = content b @ enc x \<and>
           unat (writerIndex b') \<le> unat (writerIndex b) + width"
    and get_law: "bwf b \<Longrightarrow> content b = enc x @ rest \<Longrightarrow>
      \<exists>b'. get b = Inr (x, b') \<and> bwf b' \<and> content b' = rest"
    and get_short: "bwf b \<Longrightarrow> length (content b) < width \<Longrightarrow> get b = Inl AssertFailed"

text \<open>Sequences of values, written and read one after the other.\<close>

fun put_list :: "('x \<Rightarrow> xBuffer \<Rightarrow> fault + xBuffer) \<Rightarrow> 'x list \<Rightarrow> xBuffer \<Rightarrow> fault + xBuffer" where
  "put_list put [] b = Inr b"
| "put_list put (x # xs) b = bindE (put x b) (put_list put xs)"

fun get_list :: "(xBuffer \<Rightarrow> fault + 'x \<times> xBuffer) \<Rightarrow> nat \<Rightarrow> xBuffer \<Rightarrow> fault + 'x list \<times> xBuffer" where
  "get_list get 0 b = Inr ([], b)"
| "get_list get (Suc n) b =
     bindE (get b) (\<lambda>(x, b'). bindE (get_list get n b') (\<lambda>(xs, b''). Inr (x # xs, b'')))"

context int_codec
begin

lemma put_list_law:
  "bwf b \<Longrightarrow> unat (writerIndex b) + width * length xs \<le> vec_max \<Longrightarrow>
    \<exists>b'. put_list put xs b = Inr b' \<and> bwf b' \<and> content b' = content b @ concat (map enc xs)"
proof (induction xs arbitrary: b)
  case Nil
  then show ?case by simp
next
  case (Cons x xs)
  obtain b1 where b1: "put x b = Inr b1" "bwf b1" "content b1 = content b @ enc x"
    "unat (writerIndex b1) \<le> unat (writerIndex b) + width"
    using put_law [of b x] Cons.prems by auto
  have "unat (writerIndex b1) + width * length xs \<le> vec_max"
    using b1(4) Cons.prems(2) by simp
  then show ?case
    using Cons.IH [OF b1(2)] b1(1,3) by auto
qed

lemma get_list_law:
  "bwf b \<Longrightarrow> content b = concat (map enc xs) @ rest \<Longrightarrow>
    \<exists>b'. get_list get (length xs) b = Inr (xs, b') \<and> bwf b' \<and> content b' = rest"
proof (induction xs arbitrary: b)
  case Nil
  then show ?case by simp
next
  case (Cons x xs)
  then obtain b1 where "get b = Inr (x, b1)" "bwf b1" "content b1 = concat (map enc xs) @ rest"
    using get_law [of b x "concat (map enc xs) @ rest"] by auto
  then show ?case
    using Cons.IH by fastforce
qed

lemma put_get_list:
  assumes "bwf b" and "content b = []" and "unat (writerIndex b) + width * length xs \<le> vec_max"
  shows "\<exists>b'. bindE (put_list put xs b) (get_list get (length xs)) = Inr (xs, b') \<and>
    bwf b' \<and> content b' = []"
proof -
  obtain b1 where "put_list put xs b = Inr b1" "bwf b1" "content b1 = concat (map enc xs) @ []"
    using put_list_law [OF assms(1,3)] assms(2) by auto
  then show ?thesis
    using get_list_law [of b1 xs "[]"] by auto
qed

end

interpretation int64: int_codec appendInt64 readInt64 net_bytes 8
proof unfold_locales
  show "bwf b \<Longrightarrow> content b = net_bytes x @ rest \<Longrightarrow>
    \<exists>b'. readInt64 b = Inr (x, b') \<and> bwf b' \<and> content b' = rest" for b x rest
    using moveOver_prefix [of b "net_bytes x" rest 8]
    by (auto simp: readInt64_def moveInt64_def peekInt_ok)
  show "bwf b \<Longrightarrow> unat (writerIndex b) + 8 \<le> vec_max \<Longrightarrow>
    \<exists>b'. appendInt64 x b = Inr b' \<and> bwf b' \<and> content b' = content b @ net_bytes x \<and>
      unat (writerIndex b') \<le> unat (writerIndex b) + 8" for b x
    using append_prefix [of b 8 "net_bytes x"] by (simp add: appendInt64_def mem_bytes_hostToNetwork)
qed (simp_all add: readInt_short)

interpretation int32: int_codec appendInt32 readInt32 net_bytes 4
proof unfold_locales
  show "bwf b \<Longrightarrow> content b = net_bytes x @ rest \<Longrightarrow>
    \<exists>b'. readInt32 b = Inr (x, b') \<and> bwf b' \<and> content b' = rest" for b x rest
    using moveOver_prefix [of b "net_bytes x" rest 4]
    by (auto simp: readInt32_def moveInt32_def peekInt_ok)
  show "bwf b \<Longrightarrow> unat (writerIndex b) + 4 \<le> vec_max \<Longrightarrow>
    \<exists>b'. appendInt32 x b = Inr b' \<and> bwf b' \<and> content b' = content b @ net_bytes x \<and>
      unat (writerIndex b') \<le> unat (writerIndex b) + 4" for b x
    using append_prefix [of b 4 "net_bytes x"] by (simp add: appendInt32_def mem_bytes_hostToNetwork)
qed (simp_all add: readInt_short)

interpretation int16: int_codec appendInt16 readInt16 net_bytes 2
proof unfold_locales
  show "bwf b \<Longrightarrow> content b = net_bytes x @ rest \<Longrightarrow>
    \<exists>b'. readInt16 b = Inr (x, b') \<and> bwf b' \<and> content b' = rest" for b x rest
    using moveOver_prefix [of b "net_bytes x" rest 2]
    by (auto simp: readInt16_def moveInt16_def peekInt_ok)
  show "bwf b \<Longrightarrow> unat (writerIndex b) + 2 \<le> vec_max \<Longrightarrow>
    \<exists>b'. appendInt16 x b = Inr b' \<and> bwf b' \<and> content b' = content b @ net_bytes x \<and>
      unat (writerIndex b') \<le> unat (writerIndex b) + 2" for b x
    using append_prefix [of b 2 "net_bytes x"] by (simp add: appendInt16_def mem_bytes_hostToNetwork)
qed (simp_all add: readInt_short)

interpretation int8: int_codec appendInt8 readInt8 mem_bytes 1
proof unfold_locales
  show "bwf b \<Longrightarrow> content b = mem_bytes x @ rest \<Longrightarrow>
    \<exists>b'. readInt8 b = Inr (x, b') \<and> bwf b' \<and> content b' = rest" for b x rest
    using moveOver_prefix [of b "mem_bytes x" rest 1]
    by (auto simp: readInt8_def moveInt8_def peekInt_ok)
  show "bwf b \<Longrightarrow> unat (writerIndex b) + 1 \<le> vec_max \<Longrightarrow>
    \<exists>b'. appendInt8 x b = Inr b' \<and> bwf b' \<and> content b' = content b @ mem_bytes x \<and>
      unat (writerIndex b') \<le> unat (writerIndex b) + 1" for b x
    using append_prefix [of b 1 "mem_bytes x"] by (simp add: appendInt8_def)
qed (simp_all add: readInt_short)

section \<open>Filling\<close>

lemma sint_writableBytes:
  assumes "bwf b"
  shows "sint (writableBytes b) = int (unat (writableBytes b))"
proof -
  have "unat (writableBytes b) < 9223372036854775808"
    using unat_writableBytes [OF assms] bwfD(5) [OF assms] by simp
  then have u: "uint (writableBytes b) < 9223372036854775808"
    unfolding uint_nat by linarith
  have "sint (writableBytes b) = (uint (writableBytes b) + 2 ^ 63) mod 2 ^ 64 - 2 ^ 63"
    using int_word_sint [of "uint (writableBytes b)", where 'a = 64] by simp
  also have "\<dots> = uint (writableBytes b)"
    using u by simp
  finally show ?thesis by (simp only: uint_nat)
qed

text \<open>What one \<^verbatim>\<open>readv\<close> can deliver: the free part of the buffer and, when that is short, the stack.\<close>

definition fill_room :: "xBuffer \<Rightarrow> nat" where
  "fill_room b = (let w = unat (writableBytes b) in if w < 8192 then w + 8192 else w)"

lemma readvFd_fill:
  assumes "bwf b"
  shows "readvFd r (if sint (writableBytes b) < 8192 then [writableBytes b, 8192] else [writableBytes b]) =
    (case r of RErr e \<Rightarrow> Inl e | RData ds \<Rightarrow> Inr (take (fill_room b) ds))"
  using bwfD(4) [OF assms] unat_writableBytes [OF assms]
  by (auto simp: readvFd_def sint_writableBytes [OF assms] fill_room_def Let_def vec_max_def
      split: rd_res.splits)

text \<open>On a well-formed buffer the signed comparisons of \<open>fillFromFd\<close> are comparisons of lengths.\<close>

lemma of_int_nat_diff: "w \<le> n \<Longrightarrow> of_int (int n - int w) = (of_nat (n - w) :: size_t)"
  by (simp add: of_nat_diff)

lemma xBuffer_fields:
  "writerIndex (b\<lparr>buffer := v\<rparr>) = writerIndex b"
  "buffer (b\<lparr>buffer := v\<rparr>) = v"
  "writerIndex (b\<lparr>buffer := v, writerIndex := w\<rparr>) = w"
  "buffer (b\<lparr>buffer := v, writerIndex := w\<rparr>) = v"
  by simp_all

lemma fillFromFd_data:
  assumes "bwf b"
  shows "fillFromFd (RData ds) b =
    bindE (mem_write (buffer b) (writerIndex b) (take (unat (writableBytes b)) (take (fill_room b) ds))) (\<lambda>v.
      if length (take (fill_room b) ds) \<le> unat (writableBytes b)
      then Inr (Bytes (length (take (fill_room b) ds)),
                b\<lparr>buffer := v, writerIndex := writerIndex b + of_nat (length (take (fill_room b) ds))\<rparr>)
      else bindE (append_bytes (drop (unat (writableBytes b)) (take (fill_room b) ds))
                    (of_nat (length (take (fill_room b) ds) - unat (writableBytes b)))
                    (b\<lparr>buffer := v, writerIndex := vector_size v\<rparr>))
             (\<lambda>b2. Inr (Bytes (length (take (fill_room b) ds)), b2)))"
  unfolding fillFromFd_def Let_def readvFd_fill [OF assms] unfolding sint_writableBytes [OF assms]
  by (simp only: rd_res.case sum.case of_nat_le_iff of_int_nat_diff linorder_not_le less_imp_le
      xBuffer_fields cong: if_cong)

lemma fillFromFd_error: "bwf b \<Longrightarrow> fillFromFd (RErr e) b = Inr (Failed e, b)"
  unfolding fillFromFd_def Let_def by (simp only: readvFd_fill rd_res.case sum.case)

text \<open>The part of the data that lands in the vector itself.\<close>

lemma write_free_part:
  assumes b: "bwf b" and d: "length d \<le> unat (writableBytes b)" and n: "unat n = length d"
  obtains v where "mem_write (buffer b) (writerIndex b) d = Inr v" and "length v = length (buffer b)"
    and "bwf (b\<lparr>buffer := v, writerIndex := writerIndex b + n\<rparr>)"
    and "content (b\<lparr>buffer := v, writerIndex := writerIndex b + n\<rparr>) = content b @ d"
    and "unat (writerIndex b + n) = unat (writerIndex b) + length d"
proof -
  note D = bwfD [OF b]
  let ?w = "unat (writerIndex b)" and ?r = "unat (readerIndex b)"
  have fit: "?w + length d \<le> length (buffer b)"
    using d unat_writableBytes [OF b] D by simp
  then obtain v where v: "mem_write (buffer b) (writerIndex b) d = Inr v"
    "length v = length (buffer b)" "seg v ?w (length d) = d"
    "\<And>q m. q + m \<le> ?w \<Longrightarrow> seg v q m = seg (buffer b) q m"
    "\<And>q m. ?w + length d \<le> q \<Longrightarrow> seg v q m = seg (buffer b) q m"
    by (rule mem_write_ok) (rule that)
  have u: "unat (writerIndex b + n) = ?w + length d"
    using fit D n by (subst unat_size_add) auto
  let ?b = "b\<lparr>buffer := v, writerIndex := writerIndex b + n\<rparr>"
  have "content ?b = seg v ?r (?w - ?r) @ seg v ?w (length d)"
    using u D seg_append [of v ?r "?w - ?r" "length d"] by (simp add: content_def)
  also have "seg v ?r (?w - ?r) = content b"
    using v(4) [of ?r "?w - ?r"] D by (simp add: content_def)
  finally have "content ?b = content b @ d"
    using v(3) by simp
  moreover have "bwf ?b"
    using D v(2) u fit by (simp add: bwf_def)
  ultimately show ?thesis
    using v(1,2) u by (intro that)
qed

lemma fillFromFd_ok:
  assumes b: "bwf b" and fits: "unat (writerIndex b) + length (take (fill_room b) ds) \<le> vec_max"
  obtains b' where "fillFromFd (RData ds) b = Inr (Bytes (length (take (fill_room b) ds)), b')"
    and "bwf b'" and "content b' = content b @ take (fill_room b) ds"
    and "unat (writerIndex b') \<le> unat (writerIndex b) + length (take (fill_room b) ds)"
    and "length (buffer b') \<le> max (length (buffer b)) (2 * length (content b') + 4)"
proof -
  let ?got = "take (fill_room b) ds" and ?W = "unat (writableBytes b)"
  note D = bwfD [OF b] and W = unat_writableBytes [OF b]
  show ?thesis
  proof (cases "length ?got \<le> ?W")
    case True
    have n: "unat (of_nat (length ?got) :: size_t) = length ?got"
      using True W D by (intro unat_size_of_nat) simp
    obtain v where v: "mem_write (buffer b) (writerIndex b) ?got = Inr v"
      "length v = length (buffer b)"
      "bwf (b\<lparr>buffer := v, writerIndex := writerIndex b + of_nat (length ?got)\<rparr>)"
      "content (b\<lparr>buffer := v, writerIndex := writerIndex b + of_nat (length ?got)\<rparr>) = content b @ ?got"
      "unat (writerIndex b + of_nat (length ?got)) = unat (writerIndex b) + length ?got"
      using b True n by (rule write_free_part)
    have "take ?W ?got = ?got" using True by (rule take_all)
    then have "fillFromFd (RData ds) b =
        Inr (Bytes (length ?got), b\<lparr>buffer := v, writerIndex := writerIndex b + of_nat (length ?got)\<rparr>)"
      using True v(1)
      by (simp only: fillFromFd_data [OF b] if_True bindE_simps)
    then show ?thesis
      using v(3,4) by (rule that) (simp_all only: xBuffer_fields v(5) order_refl v(2) max.cobounded1)
  next
    case False
    let ?d = "take ?W ?got" and ?e = "drop ?W ?got" and ?n = "of_nat (length ?got - ?W) :: size_t"
    have ld: "unat (writableBytes b) = length ?d" using False by simp
    obtain v where v: "mem_write (buffer b) (writerIndex b) ?d = Inr v"
      "length v = length (buffer b)"
      "bwf (b\<lparr>buffer := v, writerIndex := writerIndex b + writableBytes b\<rparr>)"
      "content (b\<lparr>buffer := v, writerIndex := writerIndex b + writableBytes b\<rparr>) = content b @ ?d"
      "unat (writerIndex b + writableBytes b) = unat (writerIndex b) + length ?d"
      using b _ ld by (rule write_free_part) simp
    have vs: "vector_size v = writerIndex b + writableBytes b"
      using v(2) by (simp add: writableBytes_def vector_size_def)
    let ?b1 = "b\<lparr>buffer := v, writerIndex := writerIndex b + writableBytes b\<rparr>"
    have le: "length ?e = length ?got - ?W" by (rule length_drop)
    have n: "unat ?n = length ?e"
      unfolding le using fits by (intro unat_size_of_nat) (simp add: vec_max_def)
    have fit1: "unat (writerIndex ?b1) + length ?e \<le> vec_max"
      using v(5) fits ld le False by simp
    obtain b2 where b2: "append_bytes ?e ?n ?b1 = Inr b2" "bwf b2" "content b2 = content ?b1 @ ?e"
      "unat (writerIndex b2) \<le> unat (writerIndex ?b1) + length ?e"
      "length (buffer b2) \<le> max (length (buffer ?b1)) (2 * length (content ?b1 @ ?e) + 4)"
      using append_grows [OF v(3) n fit1] by blast
    have "fillFromFd (RData ds) b = Inr (Bytes (length ?got), b2)"
      using False v(1) b2(1)
      by (simp only: fillFromFd_data [OF b] if_False bindE_simps vs)
    moreover have "content b2 = content b @ ?got"
      using b2(3) v(4) by (simp only: append_assoc append_take_drop_id)
    moreover have "unat (writerIndex b2) \<le> unat (writerIndex b) + length ?got"
      using b2(4) v(5) ld le False by simp
    moreover have "length (buffer b2) \<le> max (length (buffer b)) (2 * length (content b2) + 4)"
      using b2(5) v(2) unfolding b2(3) by simp
    ultimately show ?thesis
      using b2(2) by (intro that)
  qed
qed

section \<open>The contract of a FIFO queue of bytes\<close>

text \<open>
  \<open>app\<close> puts bytes at the end, \<open>del n\<close> drops \<open>n\<close> bytes from the front, \<open>view\<close> is
  the queue. \<open>used\<close> bounds what the representation has consumed of its capacity \<open>cap\<close>.
\<close>

locale byte_fifo =
  fixes app :: "byte list \<Rightarrow> 'b \<Rightarrow> fault + 'b"
    and del :: "size_t \<Rightarrow> 'b \<Rightarrow> fault + 'b"
    and view :: "'b \<Rightarrow> byte list"
    and ok :: "'b \<Rightarrow> bool"
    and used :: "'b \<Rightarrow> nat"
    and cap :: nat
  assumes app_law: "ok b \<Longrightarrow> used b + length d \<le> cap \<Longrightarrow>
      \<exists>b'. app d b = Inr b' \<and> ok b' \<and> view b' = view b @ d \<and> used b' \<le> used b + length d"
    and del_law: "ok b \<Longrightarrow> unat n \<le> length (view b) \<Longrightarrow> used b \<le> cap \<Longrightarrow>
      \<exists>b'. del n b = Inr b' \<and> ok b' \<and> view b' = drop (unat n) (view b) \<and> used b' \<le> max (used b) 4"
    and del_guard: "ok b \<Longrightarrow> length (view b) < unat n \<Longrightarrow> del n b = Inl AssertFailed"

text \<open>A client run: bytes put in and bytes taken out, in any order.\<close>

datatype fifo_op = Put "byte list" | Take size_t

fun fifo_run :: "(byte list \<Rightarrow> 'b \<Rightarrow> fault + 'b) \<Rightarrow> (size_t \<Rightarrow> 'b \<Rightarrow> fault + 'b) \<Rightarrow> fifo_op list \<Rightarrow> 'b \<Rightarrow> fault + 'b" where
  "fifo_run app del [] b = Inr b"
| "fifo_run app del (Put d # es) b = bindE (app d b) (fifo_run app del es)"
| "fifo_run app del (Take n # es) b = bindE (del n b) (fifo_run app del es)"

text \<open>The same run on the abstract queue, a list of bytes.\<close>

fun queue_run :: "fifo_op list \<Rightarrow> byte list \<Rightarrow> fault + byte list" where
  "queue_run [] q = Inr q"
| "queue_run (Put d # es) q = queue_run es (q @ d)"
| "queue_run (Take n # es) q =
     (if unat n \<le> length q then queue_run es (drop (unat n) q) else Inl AssertFailed)"

fun put_bytes :: "fifo_op list \<Rightarrow> byte list" where
  "put_bytes [] = []"
| "put_bytes (Put d # es) = d @ put_bytes es"
| "put_bytes (Take n # es) = put_bytes es"

context byte_fifo
begin

lemma fifo_run_refines:
  "ok b \<Longrightarrow> max (used b) 4 + length (put_bytes es) \<le> cap \<Longrightarrow>
    (case fifo_run app del es b of Inl e \<Rightarrow> queue_run es (view b) = Inl e
     | Inr b' \<Rightarrow> ok b' \<and> queue_run es (view b) = Inr (view b'))"
proof (induction es arbitrary: b)
  case Nil
  then show ?case by simp
next
  case (Cons e es)
  show ?case
  proof (cases e)
    case (Put d)
    with Cons.prems have "used b + length d \<le> cap" by simp
    from app_law [OF Cons.prems(1) this] obtain b1 where b1: "app d b = Inr b1" "ok b1"
      "view b1 = view b @ d" "used b1 \<le> used b + length d"
      by blast
    have "max (used b1) 4 + length (put_bytes es) \<le> cap"
      using b1(4) Cons.prems(2) Put by (simp add: max_def split: if_splits)
    from Cons.IH [OF b1(2) this] show ?thesis
      using Put b1(1,3) by (simp split: sum.splits)
  next
    case (Take n)
    show ?thesis
    proof (cases "unat n \<le> length (view b)")
      case True
      have "used b \<le> cap" using Cons.prems(2) by simp
      from del_law [OF Cons.prems(1) True this] obtain b1 where b1: "del n b = Inr b1" "ok b1"
        "view b1 = drop (unat n) (view b)" "used b1 \<le> max (used b) 4"
        by blast
      have "max (used b1) 4 + length (put_bytes es) \<le> cap"
        using b1(4) Cons.prems(2) Take by (simp add: max_def split: if_splits)
      from Cons.IH [OF b1(2) this] show ?thesis
        using Take True b1(1,3) by (simp split: sum.splits)
    next
      case False
      then show ?thesis
        using del_guard [OF Cons.prems(1), of n] Take by simp
    qed
  qed
qed

end

interpretation xbuf: byte_fifo append_string moveOver content bwf "\<lambda>b. unat (writerIndex b)" vec_max
proof unfold_locales
  show "bwf b \<Longrightarrow> unat (writerIndex b) + length d \<le> vec_max \<Longrightarrow>
    \<exists>b'. append_string d b = Inr b' \<and> bwf b' \<and> content b' = content b @ d \<and>
      unat (writerIndex b') \<le> unat (writerIndex b) + length d" for b d
    by (rule append_string_ok) auto
  show "bwf b \<Longrightarrow> unat n \<le> length (content b) \<Longrightarrow> unat (writerIndex b) \<le> vec_max \<Longrightarrow>
    \<exists>b'. moveOver n b = Inr b' \<and> bwf b' \<and> content b' = drop (unat n) (content b) \<and>
      unat (writerIndex b') \<le> max (unat (writerIndex b)) 4" for b n
    using moveOver_ok [of b n]
    by (force simp: moveOver_def reset_def bindE_assertE split: if_splits)
  show "bwf b \<Longrightarrow> length (content b) < unat n \<Longrightarrow> moveOver n b = Inl AssertFailed" for b n
    by (rule moveOver_assert)
qed

end
