(* ===== verification/FileApi.thy ===== *)
theory FileApi
  imports Prelude
begin

text \<open>
  \<^verbatim>\<open>base/file_api.cpp\<close> and its wrappers in \<^verbatim>\<open>net/sockapi.cpp\<close>: the loops
  around the \<^verbatim>\<open>read\<close> and \<^verbatim>\<open>write\<close> system calls. A loop takes one answer of
  the kernel per call; when the list of answers is used up, the descriptor (they are all
  non-blocking) answers \<^verbatim>\<open>EAGAIN\<close>.
\<close>

section \<open>The loops\<close>

text \<open>
  \<open>read_loop rs n tot buf\<close>: \<open>n\<close> bytes are still wanted, \<open>tot\<close> have been read into
  \<open>buf\<close>.
\<close>

fun read_loop :: "rd_res list \<Rightarrow> nat \<Rightarrow> byte list \<Rightarrow> io_ret \<times> byte list \<times> rd_res list" where
  "read_loop rs 0 buf = (Bytes (length buf), buf, rs)"
| "read_loop [] (Suc n) buf = (Failed EAGAIN, buf, [])"
| "read_loop (RErr e # rs) (Suc n) buf =
     (if e = EINTR then read_loop rs (Suc n) buf else (Failed e, buf, rs))"
| "read_loop (RData ds # rs) (Suc n) buf =
     (let got = take (Suc n) ds in
      if got = [] then (Bytes (length buf), buf, rs)
      else read_loop rs (Suc n - length got) (buf @ got))"

text \<open>
  \<open>write_loop ws mem tot\<close>: \<open>mem\<close> is what is left to write. The result carries the bytes
  the kernel has taken, whatever the return value says.
\<close>

fun write_loop :: "wr_res list \<Rightarrow> byte list \<Rightarrow> nat \<Rightarrow> io_ret \<times> byte list \<times> wr_res list" where
  "write_loop ws [] tot = (Bytes tot, [], ws)"
| "write_loop [] (b # bs) tot = (Failed EAGAIN, [], [])"
| "write_loop (WErr e # ws) (b # bs) tot =
     (if e = EINTR then write_loop ws (b # bs) tot else (Failed e, [], ws))"
| "write_loop (WAccept k # ws) (b # bs) tot =
     (let n = min k (length (b # bs)) in
      if n = 0 then (Bytes tot, [], ws)
      else let (r, acc, ws') = write_loop ws (drop n (b # bs)) (tot + n)
           in (r, take n (b # bs) @ acc, ws'))"

text \<open>
  The functions of the API. \<open>count\<close> is an \<^verbatim>\<open>int\<close>: a negative one becomes a huge
  \<^verbatim>\<open>size_t\<close> and makes the system call touch memory outside of the object.
\<close>

definition readFd :: "rd_res list \<Rightarrow> int \<Rightarrow> fault + io_ret \<times> byte list \<times> rd_res list" where
  "readFd rs count = (if count < 0 then Inl Undefined else Inr (read_loop rs (nat count) []))"

definition writeFd :: "wr_res list \<Rightarrow> byte list \<Rightarrow> int \<Rightarrow> fault + io_ret \<times> byte list \<times> wr_res list" where
  "writeFd ws mem count =
     (if count < 0 \<or> int (length mem) < count then Inl Undefined
      else Inr (write_loop ws (take (nat count) mem) 0))"

section \<open>What the loops do\<close>

lemma write_loop_prefix: "write_loop ws mem tot = (r, acc, ws') \<Longrightarrow> acc = take (length acc) mem"
proof (induction ws mem tot arbitrary: r acc ws' rule: write_loop.induct)
  case (4 k ws b bs tot)
  let ?n = "min k (length (b # bs))"
  show ?case
  proof (cases "?n = 0")
    case True
    with 4 show ?thesis by auto
  next
    case False
    then obtain acc1 where acc1: "write_loop ws (drop ?n (b # bs)) (tot + ?n) = (r, acc1, ws')"
      "acc = take ?n (b # bs) @ acc1"
      using "4.prems" by (auto simp: Let_def split: prod.splits if_splits)
    have "acc1 = take (length acc1) (drop ?n (b # bs))"
      using "4.IH" [OF refl False acc1(1)] .
    moreover have "length (take ?n (b # bs)) = ?n" by simp
    ultimately show ?thesis
      using acc1(2) take_add [of ?n "length acc1" "b # bs"] by (metis length_append)
  qed
qed (auto split: if_splits)

lemma write_loop_count: "write_loop ws mem tot = (Bytes n, acc, ws') \<Longrightarrow> n = tot + length acc"
proof (induction ws mem tot arbitrary: n acc ws' rule: write_loop.induct)
  case (4 k ws b bs tot)
  let ?n = "min k (length (b # bs))"
  show ?case
  proof (cases "?n = 0")
    case True
    with 4 show ?thesis by auto
  next
    case False
    then obtain acc1 where acc1: "write_loop ws (drop ?n (b # bs)) (tot + ?n) = (Bytes n, acc1, ws')"
      "acc = take ?n (b # bs) @ acc1"
      using "4.prems" by (auto simp: Let_def split: prod.splits if_splits)
    then show ?thesis
      using "4.IH" [OF refl False acc1(1)] by simp
  qed
qed (auto split: if_splits)

lemma write_loop_no_eintr: "write_loop ws mem tot = (Failed e, acc, ws') \<Longrightarrow> e \<noteq> EINTR"
  by (induction ws mem tot arbitrary: acc ws' rule: write_loop.induct)
    (auto simp: Let_def split: if_splits prod.splits)

lemma read_loop_bound:
  "read_loop rs n buf = (r, buf', rs') \<Longrightarrow> length buf' \<le> length buf + n \<and> take (length buf) buf' = buf"
proof (induction rs n buf arbitrary: r buf' rs' rule: read_loop.induct)
  case (4 ds rs n buf)
  show ?case
  proof (cases "take (Suc n) ds = []")
    case True
    with "4.prems" show ?thesis by (auto simp: Let_def)
  next
    case False
    with "4.prems" have "read_loop rs (Suc n - length (take (Suc n) ds)) (buf @ take (Suc n) ds) = (r, buf', rs')"
      by (simp add: Let_def)
    from "4.IH" [OF refl False this] show ?thesis
      by (metis (no_types, lifting) add.assoc append_eq_conv_conj append_take_drop_id le_add_diff_inverse
          length_append length_take min.cobounded2 min.commute take_append take_take)
  qed
qed (auto split: if_splits)

text \<open>
  Answers that let a write go on: interrupts, and acceptance of at least a byte. When they cover
  the data, all of it is taken.
\<close>

fun takes :: "wr_res \<Rightarrow> nat" where
  "takes (WAccept k) = k"
| "takes (WErr e) = 0"

definition goes_on :: "wr_res \<Rightarrow> bool" where
  "goes_on w \<longleftrightarrow> w = WErr EINTR \<or> 0 < takes w"

lemma goes_on_simps [simp]:
  "goes_on (WErr e) \<longleftrightarrow> e = EINTR" "goes_on (WAccept k) \<longleftrightarrow> 0 < k"
  by (simp_all add: goes_on_def)

lemma write_loop_all:
  assumes "\<forall>w \<in> set as. goes_on w" and "length mem \<le> sum_list (map takes as)"
  shows "\<exists>ws'. write_loop (as @ ws) mem tot = (Bytes (tot + length mem), mem, ws')"
  using assms
proof (induction as arbitrary: mem tot)
  case Nil
  then show ?case by simp
next
  case (Cons a as)
  show ?case
  proof (cases mem)
    case Nil
    then show ?thesis by simp
  next
    case mem: (Cons b bs)
    show ?thesis
    proof (cases a)
      case (WErr e)
      then show ?thesis using Cons.IH [of "b # bs" tot] Cons.prems mem by simp
    next
      case (WAccept k)
      define n where "n = min k (length mem)"
      have "length (drop n mem) \<le> sum_list (map takes as)" using Cons.prems(2) WAccept by (simp add: n_def)
      then obtain ws' where ws': "write_loop (as @ ws) (drop n mem) (tot + n) = (Bytes (tot + n + length (drop n mem)), drop n mem, ws')"
        using Cons.IH [of "drop n mem" "tot + n"] Cons.prems(1) by auto
      have n: "n \<noteq> 0" "n \<le> length mem" using Cons.prems(1) WAccept mem by (simp_all add: n_def)
      have "write_loop ((a # as) @ ws) mem tot =
          (let (r, acc, ws') = write_loop (as @ ws) (drop n mem) (tot + n) in (r, take n mem @ acc, ws'))"
        using n WAccept mem by (auto simp: n_def Let_def)
      then show ?thesis using ws' n by simp
    qed
  qed
qed

end
