(* ===== verification/Buffer_Props.thy ===== *)
theory Buffer_Props
  imports Buffer_Fifo FileApi
begin

text \<open>
  The properties of the byte buffer and of the read and write loops, each over the operations
  as the code has them. A buffer of 16 free bytes serves as the concrete input of the
  witnesses.
\<close>

definition buf16 :: xBuffer where
  "buf16 = \<lparr>buffer = replicate 20 0, readerIndex = 4, writerIndex = 4\<rparr>"

lemma buf16_ok: "bwf buf16" "content buf16 = []" "unat (writerIndex buf16) = 4" "unat (readerIndex buf16) = 4"
  by (simp_all add: buf16_def bwf_def content_def vec_max_def)

lemma buf16_new: "xBuffer_new 16 = Inr buf16"
  by (simp add: xBuffer_new_def buf16_def vector_new_def vec_max_def kDiscardableSize_def Let_def
      readableBytes_def writableBytes_def vector_size_def discardableBytes_def)

section \<open>The buffer as a queue\<close>

text \<open>
  C7. On any sequence of \<open>append\<close> and \<open>moveOver\<close> calls the buffer behaves as a FIFO queue
  of bytes: it fails with the assertion exactly when the queue would be asked for more bytes
  than it has, and otherwise its readable bytes are the queue. The room needed is the vector's
  maximal size, whatever relocations and growth happen in between.
\<close>

theorem buffer_is_fifo:
  assumes "bwf b" and "max (unat (writerIndex b)) 4 + length (put_bytes es) \<le> vec_max"
  shows "case fifo_run append_string moveOver es b of
           Inl e \<Rightarrow> queue_run es (content b) = Inl e
         | Inr b' \<Rightarrow> bwf b' \<and> queue_run es (content b) = Inr (content b')"
  using assms by (rule xbuf.fifo_run_refines)

lemma buffer_is_fifo_witness:
  "case fifo_run append_string moveOver [Put [1, 2, 3], Take 2, Put [4, 5]] buf16 of
     Inl e \<Rightarrow> False
   | Inr b' \<Rightarrow> content b' = [3, 4, 5]"
  using buffer_is_fifo [of buf16 "[Put [1, 2, 3], Take 2, Put [4, 5]]"]
  by (auto simp: buf16_ok vec_max_def split: sum.splits)

text \<open>
  An append never loses or moves readable bytes and grows the vector only when the free
  bytes behind the writer index do not suffice and the discarded ones in front do not either;
  then the vector grows to exactly what the new bytes need.
\<close>

lemma append_space:
  assumes "bwf b" and "unat (writerIndex b) + length str \<le> vec_max"
  shows "\<exists>b'. append_string str b = Inr b' \<and> bwf b' \<and> content b' = content b @ str \<and>
    length (buffer b') =
      (if unat (writerIndex b) + length str \<le> length (buffer b) \<or>
          4 + length (content b) + length str \<le> length (buffer b)
       then length (buffer b) else unat (writerIndex b) + length str)"
  using append_string_ok [OF assms] by (rule append_string_ok [OF assms]) (auto simp: not_le)

lemma append_space_witness:
  "\<exists>b'. append_string (replicate 30 7) buf16 = Inr b' \<and> content b' = replicate 30 7 \<and> length (buffer b') = 34"
  using append_space [of buf16 "replicate 30 7"]
  by (auto simp: buf16_ok vec_max_def) (simp add: buf16_def)

section \<open>Fields of a message\<close>

text \<open>A message is a sequence of integers of the four widths.\<close>

datatype field = F64 "64 word" | F32 "32 word" | F16 "16 word" | F8 "8 word"

datatype kind = K64 | K32 | K16 | K8

fun kind_of :: "field \<Rightarrow> kind" where
  "kind_of (F64 x) = K64"
| "kind_of (F32 x) = K32"
| "kind_of (F16 x) = K16"
| "kind_of (F8 x) = K8"

fun put_field :: "field \<Rightarrow> xBuffer \<Rightarrow> fault + xBuffer" where
  "put_field (F64 x) b = appendInt64 x b"
| "put_field (F32 x) b = appendInt32 x b"
| "put_field (F16 x) b = appendInt16 x b"
| "put_field (F8 x) b = appendInt8 x b"

fun get_field :: "kind \<Rightarrow> xBuffer \<Rightarrow> fault + field \<times> xBuffer" where
  "get_field K64 b = bindE (readInt64 b) (\<lambda>(x, b'). Inr (F64 x, b'))"
| "get_field K32 b = bindE (readInt32 b) (\<lambda>(x, b'). Inr (F32 x, b'))"
| "get_field K16 b = bindE (readInt16 b) (\<lambda>(x, b'). Inr (F16 x, b'))"
| "get_field K8 b = bindE (readInt8 b) (\<lambda>(x, b'). Inr (F8 x, b'))"

fun field_bytes :: "field \<Rightarrow> byte list" where
  "field_bytes (F64 x) = net_bytes x"
| "field_bytes (F32 x) = net_bytes x"
| "field_bytes (F16 x) = net_bytes x"
| "field_bytes (F8 x) = mem_bytes x"

fun put_fields :: "field list \<Rightarrow> xBuffer \<Rightarrow> fault + xBuffer" where
  "put_fields [] b = Inr b"
| "put_fields (x # xs) b = bindE (put_field x b) (put_fields xs)"

fun get_fields :: "kind list \<Rightarrow> xBuffer \<Rightarrow> fault + field list \<times> xBuffer" where
  "get_fields [] b = Inr ([], b)"
| "get_fields (k # ks) b =
     bindE (get_field k b) (\<lambda>(x, b'). bindE (get_fields ks b') (\<lambda>(xs, b''). Inr (x # xs, b'')))"

definition fields_bytes :: "field list \<Rightarrow> byte list" where
  "fields_bytes xs = concat (map field_bytes xs)"

lemma put_field_law:
  "bwf b \<Longrightarrow> unat (writerIndex b) + length (field_bytes x) \<le> vec_max \<Longrightarrow>
    \<exists>b'. put_field x b = Inr b' \<and> bwf b' \<and> content b' = content b @ field_bytes x \<and>
      unat (writerIndex b') \<le> unat (writerIndex b) + length (field_bytes x)"
  using int64.put_law int32.put_law int16.put_law int8.put_law by (cases x) simp_all

lemma get_field_law:
  "bwf b \<Longrightarrow> content b = field_bytes x @ rest \<Longrightarrow>
    \<exists>b'. get_field (kind_of x) b = Inr (x, b') \<and> bwf b' \<and> content b' = rest"
  using int64.get_law int32.get_law int16.get_law int8.get_law by (cases x) fastforce+

lemma put_fields_law:
  "bwf b \<Longrightarrow> unat (writerIndex b) + length (fields_bytes xs) \<le> vec_max \<Longrightarrow>
    \<exists>b'. put_fields xs b = Inr b' \<and> bwf b' \<and> content b' = content b @ fields_bytes xs"
proof (induction xs arbitrary: b)
  case Nil
  then show ?case by (simp add: fields_bytes_def)
next
  case (Cons x xs)
  have l: "length (fields_bytes (x # xs)) = length (field_bytes x) + length (fields_bytes xs)"
    by (simp add: fields_bytes_def)
  then obtain b1 where b1: "put_field x b = Inr b1" "bwf b1" "content b1 = content b @ field_bytes x"
    "unat (writerIndex b1) \<le> unat (writerIndex b) + length (field_bytes x)"
    using put_field_law [of b x] Cons.prems by auto
  have "unat (writerIndex b1) + length (fields_bytes xs) \<le> vec_max"
    using b1(4) Cons.prems(2) l by simp
  then show ?case
    using Cons.IH [OF b1(2)] b1(1,3) by (auto simp: fields_bytes_def)
qed

lemma get_fields_law:
  "bwf b \<Longrightarrow> content b = fields_bytes xs @ rest \<Longrightarrow>
    \<exists>b'. get_fields (map kind_of xs) b = Inr (xs, b') \<and> bwf b' \<and> content b' = rest"
proof (induction xs arbitrary: b)
  case Nil
  then show ?case by (simp add: fields_bytes_def)
next
  case (Cons x xs)
  then obtain b1 where "get_field (kind_of x) b = Inr (x, b1)" "bwf b1" "content b1 = fields_bytes xs @ rest"
    using get_field_law [of b x "fields_bytes xs @ rest"] by (auto simp: fields_bytes_def)
  then show ?case
    using Cons.IH by fastforce
qed

text \<open>
  C8. A message written field by field with the \<open>appendInt\<close> functions is read back by the
  \<open>readInt\<close> functions of the same widths: same values, same order, nothing left over, in
  network byte order in between.
\<close>

theorem message_roundtrip:
  assumes "bwf b" and "content b = []" and "unat (writerIndex b) + length (fields_bytes xs) \<le> vec_max"
  shows "\<exists>b' b''. put_fields xs b = Inr b' \<and> content b' = fields_bytes xs \<and>
    get_fields (map kind_of xs) b' = Inr (xs, b'') \<and> bwf b'' \<and> content b'' = []"
proof -
  obtain b' where b': "put_fields xs b = Inr b'" "bwf b'" "content b' = fields_bytes xs @ []"
    using put_fields_law [OF assms(1,3)] assms(2) by auto
  then show ?thesis
    using get_fields_law [OF b'(2,3)] by auto
qed

lemma message_roundtrip_witness:
  "\<exists>b' b''. put_fields [F32 258, F8 7, F16 1] buf16 = Inr b' \<and> content b' = [0, 0, 1, 2, 7, 0, 1] \<and>
    get_fields [K32, K8, K16] b' = Inr ([F32 258, F8 7, F16 1], b'')"
proof -
  have "fields_bytes [F32 258, F8 7, F16 1] = [0, 0, 1, 2, 7, 0, 1]"
    by code_simp
  then show ?thesis
    using message_roundtrip [of buf16 "[F32 258, F8 7, F16 1]"]
    by (auto simp: buf16_ok vec_max_def)
qed

text \<open>
  The header that the server puts in front of a message is what the handler reads off
  it: \<open>prependInt32\<close> into the four bytes kept for it, then \<open>readInt32\<close>, give the number
  and the message back unchanged.
\<close>

lemma prepend_read_back:
  assumes "bwf b" and "4 \<le> unat (readerIndex b)"
  shows "\<exists>b' b''. prependInt32 x b = Inr b' \<and> content b' = net_bytes x @ content b \<and>
    length (buffer b') = length (buffer b) \<and>
    readInt32 b' = Inr (x, b'') \<and> bwf b'' \<and> content b'' = content b"
proof -
  have "unat (4 :: size_t) \<le> length (net_bytes x)" and "unat (4 :: size_t) \<le> unat (readerIndex b)"
    using assms(2) by simp_all
  from prepend_ok [OF assms(1) this] obtain b' where b': "prepend (net_bytes x) 4 b = Inr b'" "bwf b'"
    "content b' = net_bytes x @ content b" "length (buffer b') = length (buffer b)"
    by auto
  obtain b'' where "readInt32 b' = Inr (x, b'')" "bwf b''" "content b'' = content b"
    using int32.get_law [OF b'(2,3)] by blast
  then show ?thesis
    using b' by (auto simp: prependInt32_def mem_bytes_hostToNetwork)
qed

lemma prepend_read_back_witness:
  "\<exists>b' b''. prependInt32 9 buf16 = Inr b' \<and> readInt32 b' = Inr (9, b'') \<and> content b'' = []"
  using prepend_read_back [of buf16 9] by (auto simp: buf16_ok)

section \<open>Filling from a descriptor\<close>

text \<open>
  C16. One fill takes from the descriptor what fits into the free part of the vector and, when
  that is short, 8192 bytes more; it appends exactly these bytes, in order, and returns their
  number. An error leaves the buffer as it was.
\<close>

theorem fill_appends:
  assumes "bwf b" and "unat (writerIndex b) + length ds \<le> vec_max"
  shows "(\<exists>b'. fillFromFd (RData ds) b = Inr (Bytes (min (length ds) (fill_room b)), b') \<and> bwf b' \<and>
      content b' = content b @ take (fill_room b) ds) \<and>
    fillFromFd (RErr e) b = Inr (Failed e, b)"
proof -
  have "unat (writerIndex b) + length (take (fill_room b) ds) \<le> vec_max"
    using assms(2) by simp
  from fillFromFd_ok [OF assms(1) this] show ?thesis
    using fillFromFd_error [OF assms(1)] by (auto simp: min.commute)
qed

lemma fill_appends_witness:
  "\<exists>b'. fillFromFd (RData [1, 2, 3]) buf16 = Inr (Bytes 3, b') \<and> content b' = [1, 2, 3]"
proof -
  have r: "3 \<le> fill_room buf16"
    unfolding fill_room_def Let_def unat_writableBytes [OF buf16_ok(1)] by (simp add: buf16_def)
  have t: "take (fill_room buf16) [1, 2, 3] = [1, 2, 3 :: byte]"
    using r by (intro take_all) simp
  have m: "min (length [1, 2, 3 :: byte]) (fill_room buf16) = 3"
    using r by simp
  have room: "unat (writerIndex buf16) + length [1, 2, 3 :: byte] \<le> vec_max"
    by (simp add: buf16_ok vec_max_def)
  show ?thesis
    using fill_appends [OF buf16_ok(1) room, of EAGAIN] unfolding t m buf16_ok(2) append_Nil by blast
qed

section \<open>Construction and the end of the readable bytes\<close>

lemma size_bound: "unat (n::size_t) < 2 ^ 64"
proof -
  have "unat n < 2 ^ LENGTH(64)" by (rule unsigned_less)
  then show ?thesis by simp
qed

lemma size_wrap: "2 ^ 64 \<le> unat (n::size_t) + 4 \<Longrightarrow> unat (kDiscardableSize + n) = unat n + 4 - 2 ^ 64"
  using unat_plus_if' [of kDiscardableSize n] by simp

text \<open>
  Construction for every initial size. Up to the maximal size of a vector the buffer is
  empty with the four spare bytes in front. A larger size throws \<^verbatim>\<open>std::length_error\<close>,
  except the last four values of \<^verbatim>\<open>size_t\<close> (\<^verbatim>\<open>-4\<close> to \<^verbatim>\<open>-1\<close> of an
  \<^verbatim>\<open>int\<close>): they wrap around, pass the three assertions of the constructor and leave
  both indices beyond the end of a vector of at most three bytes.
\<close>

lemma construction:
  "case xBuffer_new n of
     Inr b \<Rightarrow> readerIndex b = 4 \<and> writerIndex b = 4 \<and>
       (if unat n + 4 \<le> vec_max then bwf b \<and> content b = [] \<and> length (buffer b) = unat n + 4
        else 2 ^ 64 \<le> unat n + 4 \<and> length (buffer b) + 2 ^ 64 = unat n + 4 \<and> \<not> bwf b)
   | Inl e \<Rightarrow> e = Thrown LengthError \<and> vec_max < unat n + 4 \<and> unat n + 4 < 2 ^ 64"
proof -
  consider (fits) "unat n + 4 \<le> vec_max" | (large) "vec_max < unat n + 4" "unat n + 4 < 2 ^ 64"
    | (wraps) "2 ^ 64 \<le> unat n + 4"
    by linarith
  then show ?thesis
  proof cases
    case fits
    then obtain b where "xBuffer_new n = Inr b" "bwf b" "content b = []" "unat (readerIndex b) = 4"
      "unat (writerIndex b) = 4" "length (buffer b) = unat n + 4"
      by (rule xBuffer_new_ok)
    moreover from this have "readerIndex b = 4" "writerIndex b = 4"
      by (simp_all add: word_unat_eq_iff)
    ultimately show ?thesis using fits by simp
  next
    case large
    then have "unat (kDiscardableSize + n) = unat n + 4"
      by (subst unat_size_add) simp_all
    then show ?thesis
      using large by (simp add: xBuffer_new_def vector_new_def)
  next
    case wraps
    have lt: "unat n < 2 ^ 64" by (rule size_bound)
    let ?v = "replicate (unat n + 4 - 2 ^ 64) 0 :: byte list"
    let ?b = "\<lparr>buffer = ?v, readerIndex = kDiscardableSize, writerIndex = kDiscardableSize\<rparr>"
    note u = size_wrap [OF wraps]
    have "vector_new (kDiscardableSize + n) = Inr ?v"
      using u lt by (simp add: vector_new_def vec_max_def)
    moreover have "writableBytes ?b = n"
    proof -
      have "vector_size ?v = kDiscardableSize + n"
        unfolding vector_size_def length_replicate u [symmetric] by simp
      then show ?thesis by (simp add: writableBytes_def)
    qed
    ultimately have "xBuffer_new n = Inr ?b"
      by (simp add: xBuffer_new_def Let_def readableBytes_def discardableBytes_def)
    moreover have "\<not> bwf ?b" using lt by (simp add: bwf_def)
    ultimately show ?thesis
      using wraps lt by (simp add: vec_max_def) (simp add: kDiscardableSize_def)
  qed
qed

text \<open>
  \<open>moveTo\<close> with a pointer into the readable bytes drops the bytes before it, and stops at
  an assertion for any other pointer; \<open>unwrite\<close> takes bytes back from the end.
\<close>

lemma moveTo_unwrite:
  assumes "bwf b"
  shows "(case moveTo p b of
            Inr b' \<Rightarrow> readerIndex b \<le> p \<and> p \<le> writerIndex b \<and> bwf b' \<and>
              content b' = drop (unat p - unat (readerIndex b)) (content b)
          | Inl e \<Rightarrow> e = AssertFailed \<and> \<not> (readerIndex b \<le> p \<and> p \<le> writerIndex b)) \<and>
    (case unwrite n b of
            Inr b' \<Rightarrow> unat n \<le> length (content b) \<and> bwf b' \<and>
              content b' = take (length (content b) - unat n) (content b)
          | Inl e \<Rightarrow> e = AssertFailed \<and> length (content b) < unat n)"
proof
  note D = bwfD [OF assms] and L = length_content [OF assms]
  show "case moveTo p b of
            Inr b' \<Rightarrow> readerIndex b \<le> p \<and> p \<le> writerIndex b \<and> bwf b' \<and>
              content b' = drop (unat p - unat (readerIndex b)) (content b)
          | Inl e \<Rightarrow> e = AssertFailed \<and> \<not> (readerIndex b \<le> p \<and> p \<le> writerIndex b)"
  proof (cases "readerIndex b \<le> p \<and> p \<le> writerIndex b")
    case True
    then have u: "unat (p - readerIndex b) = unat p - unat (readerIndex b)"
      by (simp add: unat_size_sub)
    have "unat (p - readerIndex b) \<le> length (content b)"
      unfolding u L using True by (intro diff_le_mono) (simp add: size_le_iff)
    from moveOver_ok [OF assms this] obtain b' where "moveOver (p - readerIndex b) b = Inr b'" "bwf b'"
      "content b' = drop (unat p - unat (readerIndex b)) (content b)"
      using u by auto
    then show ?thesis
      using True by (simp add: moveTo_def peek_def beginWrite_def)
  next
    case False
    then show ?thesis
      by (auto simp: moveTo_def peek_def beginWrite_def bindE_assertE)
  qed
  show "case unwrite n b of
            Inr b' \<Rightarrow> unat n \<le> length (content b) \<and> bwf b' \<and>
              content b' = take (length (content b) - unat n) (content b)
          | Inl e \<Rightarrow> e = AssertFailed \<and> length (content b) < unat n"
  proof (cases "unat n \<le> length (content b)")
    case True
    let ?b = "b\<lparr>writerIndex := writerIndex b - n\<rparr>"
    have u: "unat (writerIndex b - n) = unat (writerIndex b) - unat n"
      using True L D by (simp add: unat_size_sub size_le_iff)
    have "content ?b = take (length (content b) - unat n) (content b)"
      using True u L D by (simp add: content_def take_seg min_def add.commute)
    moreover have "bwf ?b"
      using True u L D by (auto simp: bwf_def)
    ultimately show ?thesis
      using True assms by (simp add: unwrite_def bindE_assertE buf_simps)
  next
    case False
    then show ?thesis
      using assms by (simp add: unwrite_def bindE_assertE buf_simps)
  qed
qed

lemma moveTo_unwrite_witness:
  "moveTo 3 buf16 = Inl AssertFailed \<and> (\<exists>b'. moveTo 4 buf16 = Inr b') \<and> unwrite 1 buf16 = Inl AssertFailed"
  using moveTo_unwrite [of buf16 3 1] moveTo_unwrite [of buf16 4 1]
  by (auto simp: buf16_ok split: sum.splits) (simp_all add: buf16_def)

section \<open>The write loop\<close>

text \<open>
  Whatever the kernel answers, the bytes it has taken are a prefix of the bytes to be
  written; a non-negative result is their number. After an error the result says nothing
  about them.
\<close>

lemma write_accounting:
  "case writeFd ws mem count of
     Inl e \<Rightarrow> e = Undefined \<and> (count < 0 \<or> int (length mem) < count)
   | Inr (r, acc, ws') \<Rightarrow> acc = take (length acc) (take (nat count) mem) \<and>
       (case r of Bytes n \<Rightarrow> n = length acc \<and> int n \<le> count
        | Failed e \<Rightarrow> e \<noteq> EINTR)"
proof (cases "count < 0 \<or> int (length mem) < count")
  case True
  then show ?thesis by (simp add: writeFd_def)
next
  case False
  obtain r acc ws' where w: "write_loop ws (take (nat count) mem) 0 = (r, acc, ws')"
    using prod_cases3 by blast
  note P = write_loop_prefix [OF w]
  have l: "length acc \<le> nat count"
    using P by (metis length_take min.boundedE nle_le)
  show ?thesis
  proof (cases r)
    case (Bytes n)
    have "int (length acc) \<le> count" using l False by linarith
    then show ?thesis
      using Bytes False w P write_loop_count [of ws "take (nat count) mem" 0 n acc ws'] by (simp add: writeFd_def)
  next
    case (Failed e)
    then show ?thesis
      using False w P write_loop_no_eintr [of ws "take (nat count) mem" 0 e acc ws'] by (simp add: writeFd_def)
  qed
qed

text \<open>
  A write that the kernel takes in part and then refuses with \<^verbatim>\<open>EAGAIN\<close> returns
  \<open>-1\<close>: the caller cannot see that the first \<open>k\<close> bytes have gone out.
\<close>

lemma partial_write_is_hidden:
  assumes "0 < k" and "k < length mem"
  shows "writeFd (WAccept k # WErr EAGAIN # ws) mem (int (length mem)) = Inr (Failed EAGAIN, take k mem, ws)"
proof -
  obtain b bs where m: "mem = b # bs" using assms by (cases mem) auto
  obtain c cs where d: "drop k mem = c # cs" using assms(2) by (cases "drop k mem") auto
  show ?thesis
    using assms d unfolding m by (simp add: writeFd_def Let_def min_def)
qed

lemma partial_write_is_hidden_witness:
  "writeFd [WAccept 2, WErr EAGAIN] [1, 2, 3] 3 = Inr (Failed EAGAIN, [1, 2], [])"
  using partial_write_is_hidden [of 2 "[1, 2, 3]" "[]"] by simp

end
