(* ===== verification/Channel.thy ===== *)
theory Channel
  imports Prelude
begin

text \<open>
  \<^verbatim>\<open>base/include/xatomic.h\<close> and \<^verbatim>\<open>base/include/channel.h\<close>: the atomic counter and
  the channel that carries messages from the loop thread to the handler threads. First the
  operations as one thread runs them, then the same operations as the interleaved steps of
  several threads.
\<close>

section \<open>The atomic counter\<close>

text \<open>
  \<^verbatim>\<open>xAtomic<T>\<close> holds a \<open>T\<close>, here its bits. Each operation returns its result and the
  new value; the \<^verbatim>\<open>__sync\<close> builtins make each of them one indivisible step.
\<close>

type_synonym 'w xAtomic = "'w word"

definition atomic_new :: "'w::len xAtomic" where
  "atomic_new = 0"

definition atomic_get :: "'w::len xAtomic \<Rightarrow> 'w word \<times> 'w xAtomic" where
  "atomic_get v = (v, if v = 0 then 0 else v)"

definition getAndAdd :: "'w::len word \<Rightarrow> 'w xAtomic \<Rightarrow> 'w word \<times> 'w xAtomic" where
  "getAndAdd x v = (v, v + x)"

definition addAndGet :: "'w::len word \<Rightarrow> 'w xAtomic \<Rightarrow> 'w word \<times> 'w xAtomic" where
  "addAndGet x v = (case getAndAdd x v of (r, v') \<Rightarrow> (r + x, v'))"

definition incrAndGet :: "'w::len xAtomic \<Rightarrow> 'w word \<times> 'w xAtomic" where
  "incrAndGet v = addAndGet 1 v"

definition decrAndGet :: "'w::len xAtomic \<Rightarrow> 'w word \<times> 'w xAtomic" where
  "decrAndGet v = addAndGet (- 1) v"

definition atomic_add :: "'w::len word \<Rightarrow> 'w xAtomic \<Rightarrow> 'w xAtomic" where
  "atomic_add x v = snd (getAndAdd x v)"

definition atomic_incr :: "'w::len xAtomic \<Rightarrow> 'w xAtomic" where
  "atomic_incr v = snd (incrAndGet v)"

definition atomic_decr :: "'w::len xAtomic \<Rightarrow> 'w xAtomic" where
  "atomic_decr v = snd (decrAndGet v)"

definition getAndSet :: "'w::len word \<Rightarrow> 'w xAtomic \<Rightarrow> 'w word \<times> 'w xAtomic" where
  "getAndSet newValue v = (v, newValue)"

lemma atomic_values [simp]:
  "fst (atomic_get v) = v" "snd (atomic_get v) = v"
  "atomic_incr v = v + 1" "atomic_decr v = v - 1" "atomic_add x v = v + x"
  "fst (incrAndGet v) = v + 1" "snd (incrAndGet v) = v + 1"
  "snd (getAndSet x v) = x"
  by (simp_all add: atomic_get_def atomic_incr_def atomic_decr_def atomic_add_def incrAndGet_def
      decrAndGet_def addAndGet_def getAndAdd_def getAndSet_def)

section \<open>The channel\<close>

record 'a xChan =
  size_cnt :: "32 xAtomic"
  queue :: "'a list"

definition xChan_new :: "'a xChan" where
  "xChan_new = \<lparr>size_cnt = atomic_new, queue = []\<rparr>"

text \<open>\<^verbatim>\<open>size()\<close> widens the signed 32-bit counter to \<^verbatim>\<open>size_t\<close>.\<close>

definition chan_size :: "'a xChan \<Rightarrow> size_t" where
  "chan_size c = scast (fst (atomic_get (size_cnt c)))"

definition chan_empty :: "'a xChan \<Rightarrow> bool" where
  "chan_empty c \<longleftrightarrow> fst (atomic_get (size_cnt c)) = 0"

text \<open>
  A push counts first and only then takes the lock and queues: the two halves are separate
  steps for the other threads.
\<close>

definition push_count :: "'a xChan \<Rightarrow> 'a xChan" where
  "push_count c = c\<lparr>size_cnt := atomic_incr (size_cnt c)\<rparr>"

definition push_back_queue :: "'a \<Rightarrow> 'a xChan \<Rightarrow> 'a xChan" where
  "push_back_queue t c = c\<lparr>queue := queue c @ [t]\<rparr>"

definition push_front_queue :: "'a \<Rightarrow> 'a xChan \<Rightarrow> 'a xChan" where
  "push_front_queue t c = c\<lparr>queue := t # queue c\<rparr>"

definition chan_push_back :: "'a \<Rightarrow> 'a xChan \<Rightarrow> 'a xChan" where
  "chan_push_back t c = push_back_queue t (push_count c)"

definition chan_push_front :: "'a \<Rightarrow> 'a xChan \<Rightarrow> 'a xChan" where
  "chan_push_front t c = push_front_queue t (push_count c)"

text \<open>
  \<open>pop_front\<close>: the guard that decides whether to wait, and the part after it.
  \<open>waited\<close> is what the other threads do to the channel while \<^verbatim>\<open>cond_\<close> has released
  the mutex, for a wait without limit as for a timed one.
\<close>

definition pop_take :: "'a xChan \<Rightarrow> fault + 'a option \<times> 'a xChan" where
  "pop_take c =
     (case queue c of
        [] \<Rightarrow> Inr (None, c)
      | t # ts \<Rightarrow>
          bindE (assertE (0 < sint (fst (atomic_get (size_cnt c))))) (\<lambda>_.
            Inr (Some t, c\<lparr>size_cnt := atomic_decr (size_cnt c), queue := ts\<rparr>)))"

definition chan_pop_front ::
    "size_t \<Rightarrow> ('a xChan \<Rightarrow> 'a xChan) \<Rightarrow> 'a xChan \<Rightarrow> fault + 'a option \<times> 'a xChan" where
  "chan_pop_front millsecond waited c =
     (if chan_size c = 0
      then if millsecond = 0 then Inr (None, c)
           else pop_take (waited c)
      else pop_take c)"

definition chan_clear :: "'a xChan \<Rightarrow> 'a xChan" where
  "chan_clear c = c\<lparr>size_cnt := snd (getAndSet 0 (size_cnt c)), queue := []\<rparr>"

section \<open>One thread at a time\<close>

text \<open>Between complete operations the counter is the length of the queue.\<close>

definition chan_ok :: "'a xChan \<Rightarrow> bool" where
  "chan_ok c \<longleftrightarrow> size_cnt c = of_nat (length (queue c)) \<and> length (queue c) < 2 ^ 31"

lemma sint_of_nat32: "n < 2 ^ 31 \<Longrightarrow> sint (of_nat n :: 32 word) = int n"
proof -
  assume "n < 2 ^ 31"
  then have "int n + 2 ^ 31 < 2 ^ 32" by simp
  then show ?thesis
    using int_word_sint [of "int n", where 'a = 32] by simp
qed

lemma of_nat32_0: "n < 2 ^ 31 \<Longrightarrow> (of_nat n :: 32 word) = 0 \<longleftrightarrow> n = 0"
  using sint_of_nat32 [of n] by fastforce

lemma chan_size_0:
  "chan_size c = 0 \<longleftrightarrow> size_cnt c = 0"
proof -
  have up: "scast (scast (size_cnt c) :: size_t) = size_cnt c"
    by (rule scast_up_scast_id) (simp add: is_up)
  have "size_cnt c = 0" if z: "(scast (size_cnt c) :: size_t) = 0"
    using up unfolding z by simp
  then show ?thesis
    by (auto simp: chan_size_def)
qed

lemma chan_ok_new [simp]: "chan_ok xChan_new"
  by (simp add: chan_ok_def xChan_new_def atomic_new_def)

lemma chan_push_ok:
  assumes "chan_ok c" and "Suc (length (queue c)) < 2 ^ 31"
  shows "chan_ok (chan_push_back t c)" and "queue (chan_push_back t c) = queue c @ [t]"
    and "chan_ok (chan_push_front t c)" and "queue (chan_push_front t c) = t # queue c"
  using assms
  by (simp_all add: chan_ok_def chan_push_back_def chan_push_front_def push_count_def
      push_back_queue_def push_front_queue_def add.commute)

lemma chan_pop_ok:
  assumes "chan_ok c"
  shows "case queue c of
      [] \<Rightarrow> chan_pop_front 0 w c = Inr (None, c)
    | t # ts \<Rightarrow> \<exists>c'. chan_pop_front 0 w c = Inr (Some t, c') \<and> chan_ok c' \<and> queue c' = ts"
proof (cases "queue c")
  case Nil
  with assms show ?thesis
    by (simp add: chan_ok_def chan_pop_front_def chan_size_0)
next
  case (Cons t ts)
  with assms have s: "size_cnt c = of_nat (Suc (length ts))" "Suc (length ts) < 2 ^ 31"
    by (simp_all add: chan_ok_def)
  have "size_cnt c \<noteq> 0"
    using of_nat32_0 [OF s(2)] s(1) by simp
  moreover have "0 < sint (size_cnt c)"
    using sint_of_nat32 [OF s(2)] unfolding s(1) by simp
  ultimately have "chan_pop_front 0 w c =
      Inr (Some t, c\<lparr>size_cnt := atomic_decr (size_cnt c), queue := ts\<rparr>)"
    using Cons by (simp add: chan_pop_front_def chan_size_0 pop_take_def)
  then show ?thesis
    using Cons s by (simp add: chan_ok_def)
qed

lemma chan_clear_ok: "chan_ok (chan_clear c)" "queue (chan_clear c) = []"
  by (simp_all add: chan_ok_def chan_clear_def)

text \<open>
  The contract between the loop thread, which sends, and a handler, which receives.
\<close>

locale message_queue =
  fixes send :: "'m \<Rightarrow> 'q \<Rightarrow> 'q"
    and recv :: "'q \<Rightarrow> fault + 'm option \<times> 'q"
    and msgs :: "'q \<Rightarrow> 'm list"
    and ok :: "'q \<Rightarrow> bool"
    and limit :: nat
  assumes send_law: "ok q \<Longrightarrow> Suc (length (msgs q)) < limit \<Longrightarrow> ok (send m q) \<and> msgs (send m q) = msgs q @ [m]"
    and recv_law: "ok q \<Longrightarrow>
      (case msgs q of [] \<Rightarrow> recv q = Inr (None, q)
       | m # ms \<Rightarrow> \<exists>q'. recv q = Inr (Some m, q') \<and> ok q' \<and> msgs q' = ms)"

context message_queue
begin

lemma recv_step:
  assumes "ok q"
  obtains q' where "recv q = Inr (case msgs q of [] \<Rightarrow> None | m # ms \<Rightarrow> Some m, q')" and "ok q'" and "msgs q' = tl (msgs q)"
  using recv_law [OF assms] assms that by (cases "msgs q") auto

end

text \<open>A channel takes messages at both ends.\<close>

locale message_deque = message_queue send recv msgs ok limit
  for send :: "'m \<Rightarrow> 'q \<Rightarrow> 'q" and recv :: "'q \<Rightarrow> fault + 'm option \<times> 'q" and msgs :: "'q \<Rightarrow> 'm list"
    and ok :: "'q \<Rightarrow> bool" and limit :: nat +
  fixes send_front :: "'m \<Rightarrow> 'q \<Rightarrow> 'q"
  assumes front_law: "ok q \<Longrightarrow> Suc (length (msgs q)) < limit \<Longrightarrow> ok (send_front m q) \<and> msgs (send_front m q) = m # msgs q"

text \<open>A run of sends and receives; the result lists what the receives returned.\<close>

datatype 'm mq_op = Send 'm | SendFront 'm | Recv

fun mq_run :: "('m \<Rightarrow> 'q \<Rightarrow> 'q) \<Rightarrow> ('m \<Rightarrow> 'q \<Rightarrow> 'q) \<Rightarrow> ('q \<Rightarrow> fault + 'm option \<times> 'q) \<Rightarrow> 'm mq_op list \<Rightarrow> 'q \<Rightarrow>
    fault + 'm list \<times> 'q" where
  "mq_run send front recv [] q = Inr ([], q)"
| "mq_run send front recv (Send m # es) q = mq_run send front recv es (send m q)"
| "mq_run send front recv (SendFront m # es) q = mq_run send front recv es (front m q)"
| "mq_run send front recv (Recv # es) q =
     bindE (recv q) (\<lambda>(r, q'). bindE (mq_run send front recv es q') (\<lambda>(out, q'').
       Inr ((case r of None \<Rightarrow> out | Some m \<Rightarrow> m # out), q'')))"

text \<open>The same run on a list.\<close>

fun deque_run :: "'m mq_op list \<Rightarrow> 'm list \<Rightarrow> 'm list \<times> 'm list" where
  "deque_run [] q = ([], q)"
| "deque_run (Send m # es) q = deque_run es (q @ [m])"
| "deque_run (SendFront m # es) q = deque_run es (m # q)"
| "deque_run (Recv # es) q = (let (out, rest) = deque_run es (tl q) in (take 1 q @ out, rest))"

fun sent :: "'m mq_op list \<Rightarrow> 'm list" where
  "sent [] = []"
| "sent (Send m # es) = m # sent es"
| "sent (SendFront m # es) = m # sent es"
| "sent (Recv # es) = sent es"

lemma deque_run_fifo:
  "\<forall>m. SendFront m \<notin> set es \<Longrightarrow> fst (deque_run es q) @ snd (deque_run es q) = q @ sent es"
proof (induction es q rule: deque_run.induct)
  case (4 es q)
  then show ?case by (cases q) (auto simp: Let_def split: prod.splits)
qed auto

context message_deque
begin

lemma mq_run_deque:
  "ok q \<Longrightarrow> length (msgs q) + length (sent es) < limit \<Longrightarrow>
    \<exists>q'. mq_run send send_front recv es q = Inr (fst (deque_run es (msgs q)), q') \<and> ok q' \<and> msgs q' = snd (deque_run es (msgs q))"
proof (induction es arbitrary: q)
  case Nil
  then show ?case by simp
next
  case (Cons e es)
  show ?case
  proof (cases e)
    case (Send m)
    then show ?thesis using Cons.IH [of "send m q"] send_law [OF Cons.prems(1), of m] Cons.prems(2) by simp
  next
    case (SendFront m)
    then show ?thesis using Cons.IH [of "send_front m q"] front_law [OF Cons.prems(1), of m] Cons.prems(2) by simp
  next
    case Recv
    obtain q1 where q1: "recv q = Inr (case msgs q of [] \<Rightarrow> None | m # ms \<Rightarrow> Some m, q1)" "ok q1" "msgs q1 = tl (msgs q)"
      using Cons.prems(1) by (rule recv_step)
    have "length (msgs q1) + length (sent es) < limit" using q1(3) Cons.prems(2) Recv by simp
    then obtain q2 where "mq_run send send_front recv es q1 = Inr (fst (deque_run es (tl (msgs q))), q2)" "ok q2"
      "msgs q2 = snd (deque_run es (tl (msgs q)))"
      using Cons.IH [OF q1(2)] q1(3) by auto
    then show ?thesis using q1(1) Recv by (cases "msgs q") (auto simp: Let_def split: prod.splits)
  qed
qed

end

interpretation chan: message_deque chan_push_back "chan_pop_front 0 w" queue chan_ok "2 ^ 31" chan_push_front for w
  by unfold_locales (simp_all add: chan_push_ok chan_pop_ok)

end
