(* ===== verification/Reach.thy ===== *)
theory Reach
  imports Main
begin

text \<open>
  Runs of a step relation. The systems of the development that move by steps (threads on a channel,
  the loop thread and the threads that schedule, a running server) are a start state and a relation;
  what they reach is the reflexive transitive closure. The locales state what makes a property hold
  in every reachable state, and are interpreted on each of these systems.
\<close>

section \<open>Invariants\<close>

locale invariant =
  fixes start :: 's
    and step :: "'s \<Rightarrow> 's \<Rightarrow> bool"
    and inv :: "'s \<Rightarrow> bool"
  assumes start_law: "inv start"
    and step_law: "inv s \<Longrightarrow> step s t \<Longrightarrow> inv t"

context invariant
begin

lemma holds: "step\<^sup>*\<^sup>* start s \<Longrightarrow> inv s"
  by (induction rule: rtranclp_induct) (auto intro: start_law step_law)

lemma step_reached: "step\<^sup>*\<^sup>* start s \<Longrightarrow> step s t \<Longrightarrow> inv s \<and> inv t"
  using holds step_law by blast

end

text \<open>A guard on the states that a run passes through: only steps from states within it count.\<close>

definition guarded :: "('s \<Rightarrow> bool) \<Rightarrow> ('s \<Rightarrow> 's \<Rightarrow> bool) \<Rightarrow> 's \<Rightarrow> 's \<Rightarrow> bool" where
  "guarded G step s t \<longleftrightarrow> G s \<and> step s t"

lemma guarded_step: "step\<^sup>*\<^sup>* s0 s \<Longrightarrow> step s t \<Longrightarrow> step\<^sup>*\<^sup>* s0 t"
  by (rule rtranclp.rtrancl_into_rtrancl)

locale guarded_invariant =
  fixes start :: 's
    and step :: "'s \<Rightarrow> 's \<Rightarrow> bool"
    and G :: "'s \<Rightarrow> bool"
    and inv :: "'s \<Rightarrow> bool"
  assumes start_law: "inv start"
    and step_law: "inv s \<Longrightarrow> G s \<Longrightarrow> step s t \<Longrightarrow> inv t"

sublocale guarded_invariant \<subseteq> gi: invariant start "guarded G step" inv
  by unfold_locales (auto simp: guarded_def intro: start_law step_law)

text \<open>A system that makes progress where its invariant holds: every input it is given has a step.\<close>

locale live_invariant = invariant start step inv
  for start :: 's and step :: "'s \<Rightarrow> 's \<Rightarrow> bool" and inv :: "'s \<Rightarrow> bool" +
  fixes run :: "'i \<Rightarrow> 's \<Rightarrow> 's option"
    and may :: "'i \<Rightarrow> 's \<Rightarrow> bool"
  assumes run_law: "inv s \<Longrightarrow> may i s \<Longrightarrow> \<exists>t. run i s = Some t"
    and run_step: "may i s \<Longrightarrow> run i s = Some t \<Longrightarrow> step s t"

context live_invariant
begin

lemma progress: "step\<^sup>*\<^sup>* start s \<Longrightarrow> may i s \<Longrightarrow> \<exists>t. run i s = Some t \<and> inv t"
  using holds run_law run_step step_law by blast

end

end
