(* ===== verification/Channel_Conc.thy ===== *)
theory Channel_Conc
  imports Channel Reach
begin

text \<open>
  The channel shared by several threads. A step is one thread moving: a push counts without
  the lock and queues under it, so that other threads run in between; the rest of the
  operations run as a whole under the mutex. A blocked \<open>pop_front\<close> sits in \<open>Waiting\<close> until a
  broadcast or a timeout wakes it and it has the mutex again.
\<close>

section \<open>States and steps\<close>

datatype 'a pc = Idle | PushingBack 'a | PushingFront 'a | Waiting | Failed_assert

record 'a csys =
  chan :: "'a xChan"
  pcs :: "'a pc list"
  delivered :: "'a list"

text \<open>
  What \<open>pop_take\<close> does to the system when thread \<open>i\<close> runs it: deliver, find the queue empty,
  or stop at the assertion.
\<close>

definition finish_pop :: "nat \<Rightarrow> 'a csys \<Rightarrow> 'a csys" where
  "finish_pop i s =
     (case pop_take (chan s) of
        Inl _ \<Rightarrow> s\<lparr>pcs := (pcs s)[i := Failed_assert]\<rparr>
      | Inr (None, c) \<Rightarrow> s\<lparr>chan := c, pcs := (pcs s)[i := Idle]\<rparr>
      | Inr (Some t, c) \<Rightarrow> s\<lparr>chan := c, pcs := (pcs s)[i := Idle], delivered := delivered s @ [t]\<rparr>)"

inductive chan_step :: "'a csys \<Rightarrow> 'a csys \<Rightarrow> bool" where
  count_back: "i < length (pcs s) \<Longrightarrow> pcs s ! i = Idle \<Longrightarrow>
    chan_step s (s\<lparr>chan := push_count (chan s), pcs := (pcs s)[i := PushingBack t]\<rparr>)"
| queue_back: "i < length (pcs s) \<Longrightarrow> pcs s ! i = PushingBack t \<Longrightarrow>
    chan_step s (s\<lparr>chan := push_back_queue t (chan s), pcs := (pcs s)[i := Idle]\<rparr>)"
| count_front: "i < length (pcs s) \<Longrightarrow> pcs s ! i = Idle \<Longrightarrow>
    chan_step s (s\<lparr>chan := push_count (chan s), pcs := (pcs s)[i := PushingFront t]\<rparr>)"
| queue_front: "i < length (pcs s) \<Longrightarrow> pcs s ! i = PushingFront t \<Longrightarrow>
    chan_step s (s\<lparr>chan := push_front_queue t (chan s), pcs := (pcs s)[i := Idle]\<rparr>)"
| pop_none: "i < length (pcs s) \<Longrightarrow> pcs s ! i = Idle \<Longrightarrow> chan_size (chan s) = 0 \<Longrightarrow> chan_step s s"
| pop_block: "i < length (pcs s) \<Longrightarrow> pcs s ! i = Idle \<Longrightarrow> chan_size (chan s) = 0 \<Longrightarrow>
    chan_step s (s\<lparr>pcs := (pcs s)[i := Waiting]\<rparr>)"
| pop_wake: "i < length (pcs s) \<Longrightarrow> pcs s ! i = Waiting \<Longrightarrow> chan_step s (finish_pop i s)"
| pop_now: "i < length (pcs s) \<Longrightarrow> pcs s ! i = Idle \<Longrightarrow> chan_size (chan s) \<noteq> 0 \<Longrightarrow>
    chan_step s (finish_pop i s)"

text \<open>\<open>clear\<close> is a step of its own, so that runs with it and without it can be compared.\<close>

inductive clear_step :: "'a csys \<Rightarrow> 'a csys \<Rightarrow> bool" where
  clear: "i < length (pcs s) \<Longrightarrow> pcs s ! i = Idle \<Longrightarrow> clear_step s (s\<lparr>chan := chan_clear (chan s)\<rparr>)"

definition csys_init :: "nat \<Rightarrow> 'a csys" where
  "csys_init n = \<lparr>chan = xChan_new, pcs = replicate n Idle, delivered = []\<rparr>"

inductive_cases chan_stepE: "chan_step s t"

definition creach_clear :: "nat \<Rightarrow> 'a csys \<Rightarrow> bool" where
  "creach_clear n = (\<lambda>s t. chan_step s t \<or> clear_step s t)\<^sup>*\<^sup>* (csys_init n)"

lemma cc_init: "creach_clear n (csys_init n)"
  by (simp add: creach_clear_def)

lemma cc_step: "creach_clear n s \<Longrightarrow> chan_step s t \<Longrightarrow> creach_clear n t"
  and cc_clear: "creach_clear n s \<Longrightarrow> clear_step s t \<Longrightarrow> creach_clear n t"
  unfolding creach_clear_def by (erule guarded_step, simp)+

section \<open>The invariant\<close>

text \<open>The counter runs ahead of the queue by the pushes that have counted and not yet queued.\<close>

fun pushing :: "'a pc \<Rightarrow> bool" where
  "pushing (PushingBack t) = True"
| "pushing (PushingFront t) = True"
| "pushing _ = False"

definition in_flight :: "'a pc list \<Rightarrow> nat" where
  "in_flight ps = length (filter pushing ps)"

definition chan_inv :: "'a csys \<Rightarrow> bool" where
  "chan_inv s \<longleftrightarrow> size_cnt (chan s) = of_nat (length (queue (chan s)) + in_flight (pcs s))"

text \<open>The counter has 32 bits: the system is in range while its exact value is a positive \<^verbatim>\<open>int\<close>.\<close>

definition in_range :: "'a csys \<Rightarrow> bool" where
  "in_range s \<longleftrightarrow> length (queue (chan s)) + in_flight (pcs s) < 2 ^ 31"

lemma in_flight_update:
  "i < length ps \<Longrightarrow>
    in_flight (ps[i := p]) + (if pushing (ps ! i) then 1 else 0) = in_flight ps + (if pushing p then 1 else 0)"
proof (induction ps arbitrary: i)
  case Nil
  then show ?case by simp
next
  case (Cons x ps)
  then show ?case
    by (cases i) (auto simp: in_flight_def)
qed

lemma in_flight_same:
  "i < length ps \<Longrightarrow> pushing p = pushing (ps ! i) \<Longrightarrow> in_flight (ps[i := p]) = in_flight ps"
  using in_flight_update [of i ps p] by (auto split: if_splits)

lemma in_flight_start:
  "i < length ps \<Longrightarrow> pushing p \<Longrightarrow> \<not> pushing (ps ! i) \<Longrightarrow> in_flight (ps[i := p]) = Suc (in_flight ps)"
  using in_flight_update [of i ps p] by simp

lemma in_flight_end:
  "i < length ps \<Longrightarrow> \<not> pushing p \<Longrightarrow> pushing (ps ! i) \<Longrightarrow> Suc (in_flight (ps[i := p])) = in_flight ps"
  using in_flight_update [of i ps p] by simp

lemma pop_take_cases:
  assumes "size_cnt c = of_nat (length (queue c) + k)" and "length (queue c) + k < 2 ^ 31"
  shows "case queue c of [] \<Rightarrow> pop_take c = Inr (None, c)
    | t # ts \<Rightarrow> pop_take c = Inr (Some t, c\<lparr>size_cnt := size_cnt c - 1, queue := ts\<rparr>)"
  using assms sint_of_nat32 [of "length (queue c) + k"]
  by (auto simp: pop_take_def split: list.splits)

lemma chan_inv_init: "chan_inv (csys_init n)"
  by (simp add: chan_inv_def csys_init_def xChan_new_def in_flight_def atomic_new_def)

lemma finish_pop_inv:
  assumes "chan_inv s" and "in_range s" and i: "i < length (pcs s)" and p: "\<not> pushing (pcs s ! i)"
  shows "chan_inv (finish_pop i s)" and "pcs (finish_pop i s) = (pcs s)[i := Idle]"
    and "delivered (finish_pop i s) @ queue (chan (finish_pop i s)) = delivered s @ queue (chan s)"
proof -
  have c: "size_cnt (chan s) = of_nat (length (queue (chan s)) + in_flight (pcs s))"
    "length (queue (chan s)) + in_flight (pcs s) < 2 ^ 31"
    using assms by (simp_all only: chan_inv_def in_range_def)
  have f: "in_flight ((pcs s)[i := Idle]) = in_flight (pcs s)"
    using i p by (intro in_flight_same) simp_all
  note P = pop_take_cases [OF c]
  show "chan_inv (finish_pop i s)" "pcs (finish_pop i s) = (pcs s)[i := Idle]"
    "delivered (finish_pop i s) @ queue (chan (finish_pop i s)) = delivered s @ queue (chan s)"
    using P c(1) f by (auto simp: finish_pop_def chan_inv_def split: list.splits)
qed

lemma chan_step_inv:
  assumes "chan_step s t" and "chan_inv s" and "in_range s"
  shows "chan_inv t"
  using assms
proof (induction rule: chan_step.induct)
  case (queue_back i s t)
  then have "in_flight (pcs s) = Suc (in_flight ((pcs s)[i := Idle]))"
    using in_flight_end [of i "pcs s" Idle] by simp
  with queue_back show ?case
    by (simp add: chan_inv_def push_back_queue_def)
next
  case (queue_front i s t)
  then have "in_flight (pcs s) = Suc (in_flight ((pcs s)[i := Idle]))"
    using in_flight_end [of i "pcs s" Idle] by simp
  with queue_front show ?case
    by (simp add: chan_inv_def push_front_queue_def)
qed (simp_all add: chan_inv_def [of "_\<lparr>chan := _, pcs := _\<rparr>"] chan_inv_def [of "_\<lparr>pcs := _\<rparr>"]
     push_count_def in_flight_start in_flight_same finish_pop_inv, simp_all add: chan_inv_def)

text \<open>No run without \<open>clear\<close> that stays in range stops at the assertion.\<close>

definition no_failure :: "'a csys \<Rightarrow> bool" where
  "no_failure s \<longleftrightarrow> Failed_assert \<notin> set (pcs s)"

lemma chan_step_no_failure:
  assumes "chan_step s t" and "chan_inv s" and "in_range s" and "no_failure s"
  shows "no_failure t"
  using assms
proof (induction rule: chan_step.induct)
  case (pop_wake i s)
  then show ?case
    using finish_pop_inv(2) [of s i] set_update_subset_insert [of "pcs s" i Idle]
    by (auto simp: no_failure_def)
next
  case (pop_now i s)
  then show ?case
    using finish_pop_inv(2) [of s i] set_update_subset_insert [of "pcs s" i Idle]
    by (auto simp: no_failure_def)
qed (auto simp: no_failure_def dest: set_update_subset_insert [THEN subsetD])

text \<open>
  Reachability along states in range: every state of the run, not only the last one, must
  keep the counter below its maximum.
\<close>

definition creach_in :: "nat \<Rightarrow> 'a csys \<Rightarrow> bool" where
  "creach_in n = (guarded in_range chan_step)\<^sup>*\<^sup>* (csys_init n)"

lemma ci_init: "creach_in n (csys_init n)"
  by (simp add: creach_in_def)

lemma ci_step: "creach_in n s \<Longrightarrow> in_range s \<Longrightarrow> chan_step s t \<Longrightarrow> creach_in n t"
  unfolding creach_in_def by (erule guarded_step) (simp add: guarded_def)

interpretation threads: guarded_invariant "csys_init n" chan_step in_range "\<lambda>s. chan_inv s \<and> no_failure s" for n
proof unfold_locales
  show "chan_inv (csys_init n) \<and> no_failure (csys_init n)"
    by (simp add: chan_inv_init) (simp add: no_failure_def csys_init_def)
qed (use chan_step_inv chan_step_no_failure in blast)

lemma creach_in_inv: "creach_in n s \<Longrightarrow> chan_inv s \<and> no_failure s"
  unfolding creach_in_def by (rule threads.gi.holds)

lemma in_flight_0: "(\<forall>p \<in> set ps. \<not> pushing p) \<Longrightarrow> in_flight ps = 0"
  by (simp add: in_flight_def filter_empty_conv)

end
