(* ===== verification/Channel_Props.thy ===== *)
theory Channel_Props
  imports Channel_Conc "HOL-Library.Multiset"
begin

text \<open>
  The properties of the channel: one thread at a time it is a FIFO queue of messages, and
  under any interleaving its counter accounts for the queue, as long as nobody clears it.
\<close>

lemma deque_run_conserves:
  "mset (fst (deque_run es q)) + mset (snd (deque_run es q)) = mset q + mset (sent es)"
  by (induction es q rule: deque_run.induct) (auto simp: Let_def split: prod.splits; case_tac q; simp)+

text \<open>
  C15. Whatever sequence of pushes at both ends and of receives runs on a channel, it does what the
  same sequence does on a list: the receives return the same messages in the same order, and the same
  messages stay queued. So no message is lost or duplicated, without pushes at the front none is
  reordered, and the assertion of \<open>pop_front\<close> never fails.
\<close>

theorem channel_conserves:
  assumes "chan_ok c" and "length (queue c) + length (sent es) < 2 ^ 31"
  shows "\<exists>out c'. mq_run chan_push_back chan_push_front (chan_pop_front 0 w) es c = Inr (out, c') \<and> chan_ok c' \<and>
    (out, queue c') = deque_run es (queue c) \<and> mset out + mset (queue c') = mset (queue c) + mset (sent es) \<and>
    ((\<forall>m. SendFront m \<notin> set es) \<longrightarrow> out @ queue c' = queue c @ sent es)"
  using chan.mq_run_deque [OF assms, of w] deque_run_conserves [of es "queue c"] deque_run_fifo [of es "queue c"]
  by (metis prod.collapse)

lemma channel_conserves_witness:
  "\<exists>out c'. mq_run chan_push_back chan_push_front (chan_pop_front 0 id) [Send (1::nat), Recv, Recv, Send 2, SendFront 3, Recv] xChan_new =
    Inr (out, c') \<and> out = [1, 3] \<and> queue c' = [2]"
proof -
  have q: "queue (xChan_new :: nat xChan) = []"
    by (simp add: xChan_new_def)
  show ?thesis
    using channel_conserves [OF chan_ok_new, of "[Send (1::nat), Recv, Recv, Send 2, SendFront 3, Recv]" id]
    by (auto simp: q simp del: mq_run.simps)
qed

text \<open>
  C14. In every reachable state of any number of threads that push at both ends, pop and wait,
  the counter is the length of the queue plus the pushes in flight, and no thread has stopped
  at the assertion. The states of the run are those in which that sum fits an \<^verbatim>\<open>int\<close>.
\<close>

theorem channel_concurrent_safe:
  assumes "creach_in n s"
  shows "size_cnt (chan s) = of_nat (length (queue (chan s)) + in_flight (pcs s)) \<and>
    Failed_assert \<notin> set (pcs s)"
  using creach_in_inv [OF assms] by (simp add: chan_inv_def no_failure_def)

lemma csys_init_in_range [simp]: "in_range (csys_init n)"
  by (simp add: in_range_def csys_init_def xChan_new_def in_flight_def)

lemma channel_concurrent_safe_witness:
  "creach_in 2 ((csys_init 2)\<lparr>chan := push_count xChan_new, pcs := [PushingBack (7::nat), Idle]\<rparr>) \<and>
   size_cnt (push_count (xChan_new :: nat xChan)) = of_nat (length (queue (push_count xChan_new :: nat xChan)) +
     in_flight [PushingBack (7::nat), Idle])"
proof -
  let ?t = "(csys_init 2)\<lparr>chan := push_count (xChan_new :: nat xChan), pcs := [PushingBack 7, Idle]\<rparr>"
  have "chan_step (csys_init 2) ?t"
    using chan_step.count_back [of 0 "csys_init 2 :: nat csys" 7]
    by (simp add: csys_init_def numeral_2_eq_2)
  then have r: "creach_in 2 ?t"
    by (rule ci_step [OF ci_init csys_init_in_range])
  then show ?thesis
    using channel_concurrent_safe [OF r] by simp
qed

text \<open>
  With \<open>clear\<close> the assertion can fail: a push that has counted but not yet queued is
  forgotten by the clearing of the counter, its message is queued all the same, and a receiver
  that then waits and times out finds a message in the queue and a counter of zero.
\<close>

lemma clear_race_reaches_assertion:
  "\<exists>s :: nat csys. creach_clear 2 s \<and> Failed_assert \<in> set (pcs s)"
proof -
  let ?s = "\<lambda>n q ps. \<lparr>chan = \<lparr>size_cnt = n, queue = q\<rparr>, pcs = ps, delivered = []\<rparr> :: nat csys"
  have s0: "creach_clear 2 (?s 0 [] [Idle, Idle])"
    using cc_init [of 2] by (simp add: csys_init_def xChan_new_def atomic_new_def numeral_2_eq_2)
  have s1: "creach_clear 2 (?s 1 [] [PushingBack 7, Idle])"
    using cc_step [OF s0 count_back [of 0 _ 7]] by (simp add: push_count_def)
  have s2: "creach_clear 2 (?s 0 [] [PushingBack 7, Idle])"
    using cc_clear [OF s1 clear [of 1]] by (simp add: chan_clear_def)
  have s3: "creach_clear 2 (?s 0 [7] [Idle, Idle])"
    using cc_step [OF s2 queue_back [of 0 _ 7]] by (simp add: push_back_queue_def)
  have s4: "creach_clear 2 (?s 0 [7] [Idle, Waiting])"
    using cc_step [OF s3 pop_block [of 1]] by (simp add: chan_size_0)
  have s5: "creach_clear 2 (?s 0 [7] [Idle, Failed_assert])"
    using cc_step [OF s4 pop_wake [of 1]] by (simp add: finish_pop_def pop_take_def)
  then show ?thesis
    by (intro exI [of _ "?s 0 [7] [Idle, Failed_assert]"]) simp
qed

end
