(* ===== verification/Util.thy ===== *)
theory Util
  imports Prelude
begin

text \<open>
  \<^verbatim>\<open>base/include/util.h\<close> and \<^verbatim>\<open>base/util.cpp\<close>: the conversions between texts and
  numbers, and the time stamp of the log. The functions of the C library that they use,
  \<^verbatim>\<open>snprintf\<close> with a decimal format, \<^verbatim>\<open>atoi\<close> and \<^verbatim>\<open>strtoul\<close>, are
  modelled as documented.
\<close>

section \<open>The C library\<close>

definition digit :: "nat \<Rightarrow> char" where
  "digit d = char_of (48 + d)"

fun dec_nat :: "nat \<Rightarrow> string" where
  "dec_nat n = (if n < 10 then [digit n] else dec_nat (n div 10) @ [digit (n mod 10)])"

declare dec_nat.simps [simp del]

text \<open>The text that \<^verbatim>\<open>%d\<close> gives.\<close>

definition fmt_d :: "int \<Rightarrow> string" where
  "fmt_d i = (if i < 0 then CHR ''-'' # dec_nat (nat (- i)) else dec_nat (nat i))"

text \<open>\<^verbatim>\<open>%0wd\<close>: zeros up to the width, after the sign.\<close>

definition fmt_0d :: "nat \<Rightarrow> int \<Rightarrow> string" where
  "fmt_0d w i =
     (let sign = (if i < 0 then ''-'' else ''''); t = dec_nat (nat \<bar>i\<bar>)
      in sign @ replicate (w - length sign - length t) (CHR ''0'') @ t)"

text \<open>What a buffer of \<open>n\<close> bytes holds after \<^verbatim>\<open>snprintf\<close>, as a C string.\<close>

definition cstr :: "string \<Rightarrow> string" where
  "cstr s = takeWhile (\<lambda>c. c \<noteq> CHR 0x00) s"

definition snprintf_buf :: "nat \<Rightarrow> string \<Rightarrow> string" where
  "snprintf_buf n txt = cstr (take (n - 1) txt)"

definition is_digit :: "char \<Rightarrow> bool" where
  "is_digit c \<longleftrightarrow> 48 \<le> (of_char c :: nat) \<and> (of_char c :: nat) \<le> 57"

definition is_space :: "char \<Rightarrow> bool" where
  "is_space c \<longleftrightarrow> c \<in> {CHR '' '', CHR 0x09, CHR 0x0A, CHR 0x0B, CHR 0x0C, CHR 0x0D}"

fun parse_nat :: "nat \<Rightarrow> string \<Rightarrow> nat" where
  "parse_nat acc [] = acc"
| "parse_nat acc (c # cs) = (if is_digit c then parse_nat (10 * acc + (of_char c - 48)) cs else acc)"

text \<open>The sign and the digits after leading blanks; without digits the number is 0.\<close>

definition parse_num :: "string \<Rightarrow> bool \<times> nat" where
  "parse_num s =
     (case dropWhile is_space (cstr s) of
        [] \<Rightarrow> (False, 0)
      | c # cs \<Rightarrow> if c = CHR ''-'' then (True, parse_nat 0 cs)
                  else if c = CHR ''+'' then (False, parse_nat 0 cs) else (False, parse_nat 0 (c # cs)))"

text \<open>\<^verbatim>\<open>atoi\<close> and its relatives are undefined outside the range of their type, of \<open>w\<close> bits.\<close>

definition ato :: "nat \<Rightarrow> string \<Rightarrow> fault + int" where
  "ato w s =
     (let (neg, n) = parse_num s; i = (if neg then - int n else int n)
      in if - (2 ^ (w - 1)) \<le> i \<and> i < 2 ^ (w - 1) then Inr i else Inl Undefined)"

text \<open>\<^verbatim>\<open>strtoul\<close> to base 10: the largest value when out of range, else negated as an unsigned number.\<close>

definition strtoul :: "string \<Rightarrow> 64 word" where
  "strtoul s =
     (let (neg, n) = parse_num s
      in if n \<ge> 2 ^ 64 then - 1 else if neg then - of_nat n else of_nat n)"

section \<open>Numbers to texts\<close>

definition tostr_bool :: "bool \<Rightarrow> string" where
  "tostr_bool t = cstr [if t then CHR ''1'' else CHR ''0'']"

definition tostr_char :: "char \<Rightarrow> string" where
  "tostr_char t = snprintf_buf 2 [t]"

definition tostr_uchar :: "8 word \<Rightarrow> string" where
  "tostr_uchar t = snprintf_buf 2 [char_of (unat t)]"

definition tostr_short :: "16 word \<Rightarrow> string" where
  "tostr_short t = snprintf_buf 16 (fmt_d (sint t))"

definition tostr_ushort :: "16 word \<Rightarrow> string" where
  "tostr_ushort t = snprintf_buf 16 (fmt_d (uint t))"

definition tostr_int :: "32 word \<Rightarrow> string" where
  "tostr_int t = snprintf_buf 16 (fmt_d (sint t))"

definition tostr_uint :: "32 word \<Rightarrow> string" where
  "tostr_uint t = snprintf_buf 16 (fmt_d (uint t))"

definition tostr_long :: "64 word \<Rightarrow> string" where
  "tostr_long t = snprintf_buf 32 (fmt_d (sint t))"

definition tostr_llong :: "64 word \<Rightarrow> string" where
  "tostr_llong t = snprintf_buf 32 (fmt_d (sint t))"

definition tostr_ulong :: "64 word \<Rightarrow> string" where
  "tostr_ulong t = snprintf_buf 32 (fmt_d (uint t))"

definition tostr_string :: "string \<Rightarrow> string" where
  "tostr_string t = t"

text \<open>A vector: \<open>elem\<close> is the conversion of its elements.\<close>

fun tostr_vector :: "('a \<Rightarrow> string) \<Rightarrow> 'a list \<Rightarrow> string" where
  "tostr_vector elem [] = []"
| "tostr_vector elem (t # ts) = elem t @ '' '' @ tostr_vector elem ts"

text \<open>
  The conversions of floating-point numbers, from the full text \<open>txt\<close> of \<^verbatim>\<open>%.5f\<close> (of
  \<^verbatim>\<open>%Lf\<close> for \<^verbatim>\<open>long double\<close>): the buffer has 32 bytes, then zeros at the end go.
\<close>

function trim_loop :: "string \<Rightarrow> int \<Rightarrow> bool \<Rightarrow> int \<times> bool" where
  "trim_loop s pos bFlag =
     (if pos > 0
      then if s ! nat pos = CHR ''0''
           then if s ! nat (pos - 1) = CHR ''.'' then (pos - 2, True) else trim_loop s (pos - 1) True
           else (pos, bFlag)
      else (pos, bFlag))"
  by pat_completeness auto
termination by (relation "measure (\<lambda>(s, pos, bFlag). nat pos)") auto

declare trim_loop.simps [simp del]

definition trim_zeros :: "string \<Rightarrow> string" where
  "trim_zeros s = (let (pos, bFlag) = trim_loop s (int (length s) - 1) False in if bFlag then take (nat (pos + 1)) s else s)"

definition tostr_float :: "string \<Rightarrow> string" where
  "tostr_float txt = trim_zeros (snprintf_buf 32 txt)"

definition tostr_double :: "string \<Rightarrow> string" where
  "tostr_double txt = trim_zeros (snprintf_buf 32 txt)"

definition tostr_ldouble :: "string \<Rightarrow> string" where
  "tostr_ldouble txt = trim_zeros (snprintf_buf 32 txt)"

section \<open>Texts to numbers\<close>

text \<open>The results are converted to the type asked for. Without a text the number is 0.\<close>

definition strto_char :: "string \<Rightarrow> char" where
  "strto_char s = (case s of [] \<Rightarrow> CHR 0x00 | c # _ \<Rightarrow> c)"

text \<open>
  The template for the types without a reader of their own, at \<^verbatim>\<open>unsigned char\<close>: a stream on the text, or on
  \<open>0\<close> when there is none, skips blanks and reads one character; when none is left, the variable stays
  uninitialised.
\<close>

definition strto_uchar :: "string \<Rightarrow> fault + 8 word" where
  "strto_uchar s =
     (case dropWhile is_space (if s \<noteq> [] then s else ''0'') of
        [] \<Rightarrow> Inl Undefined
      | c # _ \<Rightarrow> Inr (of_nat (of_char c)))"

definition strto_short :: "string \<Rightarrow> fault + 16 word" where
  "strto_short s = (if s \<noteq> [] then bindE (ato 32 s) (\<lambda>i. Inr (of_int i)) else Inr 0)"

definition strto_ushort :: "string \<Rightarrow> 16 word" where
  "strto_ushort s = (if s \<noteq> [] then ucast (strtoul s) else 0)"

definition strto_int :: "string \<Rightarrow> fault + 32 word" where
  "strto_int s = (if s \<noteq> [] then bindE (ato 32 s) (\<lambda>i. Inr (of_int i)) else Inr 0)"

definition strto_uint :: "string \<Rightarrow> 32 word" where
  "strto_uint s = (if s \<noteq> [] then ucast (strtoul s) else 0)"

definition strto_long :: "string \<Rightarrow> fault + 64 word" where
  "strto_long s = (if s \<noteq> [] then bindE (ato 64 s) (\<lambda>i. Inr (of_int i)) else Inr 0)"

definition strto_llong :: "string \<Rightarrow> fault + 64 word" where
  "strto_llong s = (if s \<noteq> [] then bindE (ato 64 s) (\<lambda>i. Inr (of_int i)) else Inr 0)"

definition strto_ulong :: "string \<Rightarrow> 64 word" where
  "strto_ulong s = (if s \<noteq> [] then strtoul s else 0)"

text \<open>\<open>atof\<close> is an argument, to the type asked for; \<open>zero\<close> is its 0.\<close>

definition strto_floating :: "(string \<Rightarrow> 'f) \<Rightarrow> 'f \<Rightarrow> string \<Rightarrow> 'f" where
  "strto_floating atof zero s = (if s \<noteq> [] then atof (cstr s) else zero)"

definition strto_string :: "string \<Rightarrow> string" where
  "strto_string s = s"

text \<open>With a default for the empty text; \<open>conv\<close> is the conversion to the type asked for.\<close>

definition strto_default :: "(string \<Rightarrow> 'a) \<Rightarrow> string \<Rightarrow> string \<Rightarrow> 'a" where
  "strto_default conv sStr sDefault = (let s = (if sStr \<noteq> [] then sStr else sDefault) in conv s)"

section \<open>The time stamp of the log\<close>

record tm =
  tm_year :: int
  tm_mon :: int
  tm_mday :: int
  tm_hour :: int
  tm_min :: int
  tm_sec :: int

text \<open>
  \<open>localtime\<close> is an argument, \<open>tv\<close> what \<^verbatim>\<open>gettimeofday\<close> returns. The text fits the
  buffer for every year of up to 200 digits.
\<close>

definition now2strLog :: "(int \<Rightarrow> tm) \<Rightarrow> int \<times> int \<Rightarrow> string" where
  "now2strLog localtime tv =
     (let t = localtime (fst tv)
      in fmt_0d 4 (tm_year t + 1900) @ ''-'' @ fmt_0d 2 (tm_mon t + 1) @ ''-'' @ fmt_0d 2 (tm_mday t) @ '' '' @
         fmt_0d 2 (tm_hour t) @ '':'' @ fmt_0d 2 (tm_min t) @ '':'' @ fmt_0d 2 (tm_sec t) @ ''.'' @
         fmt_0d 4 (snd tv div 10000))"

text \<open>
  \<open>strftime\<close> is an argument: what the array of 255 bytes holds, as a C string, after the call
  with a broken-down time and a format.
\<close>

definition tm2str :: "(nat \<Rightarrow> string \<Rightarrow> tm \<Rightarrow> string) \<Rightarrow> tm \<Rightarrow> string \<Rightarrow> string" where
  "tm2str strftime stTm sFormat = cstr (strftime 255 (cstr sFormat) stTm)"

definition tm2str_time ::
    "(int \<Rightarrow> tm) \<Rightarrow> (nat \<Rightarrow> string \<Rightarrow> tm \<Rightarrow> string) \<Rightarrow> int \<Rightarrow> string \<Rightarrow> string" where
  "tm2str_time localtime strftime t sFormat = tm2str strftime (localtime t) sFormat"

definition now2str ::
    "(int \<Rightarrow> tm) \<Rightarrow> (nat \<Rightarrow> string \<Rightarrow> tm \<Rightarrow> string) \<Rightarrow> int \<Rightarrow> string \<Rightarrow> string" where
  "now2str localtime strftime t sFormat = tm2str_time localtime strftime t (cstr sFormat)"

section \<open>Facts\<close>

lemma of_char_digit [simp]: "d < 10 \<Longrightarrow> (of_char (digit d) :: nat) = 48 + d"
  by (simp add: digit_def)

lemma is_digit_digit [simp]: "d < 10 \<Longrightarrow> is_digit (digit d)"
  by (simp add: is_digit_def)

lemma dec_nat_digits: "\<forall>c \<in> set (dec_nat n). is_digit c"
  by (induction n rule: dec_nat.induct) (subst dec_nat.simps, auto)

lemma dec_nat_nonempty [simp]: "dec_nat n \<noteq> []"
  by (subst dec_nat.simps) simp

lemma dec_nat_length: "n < 10 ^ k \<Longrightarrow> 0 < k \<Longrightarrow> length (dec_nat n) \<le> k"
proof (induction n arbitrary: k rule: dec_nat.induct)
  case (1 n)
  show ?case
  proof (cases "n < 10")
    case True
    then show ?thesis using "1.prems" by (subst dec_nat.simps) simp
  next
    case False
    obtain m where k: "k = Suc m" using "1.prems"(2) by (cases k) auto
    have "0 < m" using "1.prems"(1) False k by (cases m) auto
    moreover have "n div 10 < 10 ^ m"
      using "1.prems"(1) k by (simp add: less_mult_imp_div_less mult.commute)
    ultimately have "length (dec_nat (n div 10)) \<le> m"
      using "1.IH" False by blast
    then show ?thesis using False k by (subst dec_nat.simps) simp
  qed
qed

lemma parse_nat_append: "\<forall>c \<in> set s. is_digit c \<Longrightarrow> parse_nat acc (s @ t) = parse_nat (parse_nat acc s) t"
  by (induction s arbitrary: acc) auto

lemma parse_dec_nat: "parse_nat 0 (dec_nat n) = n"
proof (induction n rule: dec_nat.induct)
  case (1 n)
  show ?case
  proof (cases "n < 10")
    case True
    then show ?thesis by (subst dec_nat.simps) simp
  next
    case False
    have "parse_nat 0 (dec_nat n) = parse_nat (parse_nat 0 (dec_nat (n div 10))) [digit (n mod 10)]"
      using False by (subst dec_nat.simps) (simp add: parse_nat_append dec_nat_digits)
    also have "\<dots> = 10 * (n div 10) + n mod 10"
      using "1.IH" False by simp
    finally show ?thesis by simp
  qed
qed

lemma digit_not: "is_digit c \<Longrightarrow> c \<noteq> CHR 0x00 \<and> \<not> is_space c \<and> c \<noteq> CHR ''-'' \<and> c \<noteq> CHR ''+'' \<and> c \<noteq> CHR ''.''"
  by (auto simp: is_digit_def is_space_def)

lemma cstr_id: "CHR 0x00 \<notin> set s \<Longrightarrow> cstr s = s"
  unfolding cstr_def by (rule takeWhile_eq_all_conv [THEN iffD2]) auto

lemma fmt_d_no_nul: "CHR 0x00 \<notin> set (fmt_d i)"
proof -
  have "CHR 0x00 \<notin> set (dec_nat n)" for n
    using dec_nat_digits [of n] digit_not [of "CHR 0x00"] by blast
  then show ?thesis by (simp add: fmt_d_def)
qed

lemma fmt_d_length: "nat \<bar>i\<bar> < 10 ^ k \<Longrightarrow> 0 < k \<Longrightarrow> length (fmt_d i) \<le> Suc k"
proof -
  assume "nat \<bar>i\<bar> < 10 ^ k" "0 < k"
  then have "length (dec_nat (nat \<bar>i\<bar>)) \<le> k" by (rule dec_nat_length)
  then show ?thesis by (cases "i < 0") (simp_all add: fmt_d_def)
qed

lemma snprintf_fmt_d: "nat \<bar>i\<bar> < 10 ^ k \<Longrightarrow> 0 < k \<Longrightarrow> Suc k < n \<Longrightarrow> snprintf_buf n (fmt_d i) = fmt_d i"
  using fmt_d_length [of i k] by (simp add: snprintf_buf_def cstr_id fmt_d_no_nul)

lemma parse_fmt_d: "parse_num (fmt_d i) = (i < 0, nat \<bar>i\<bar>)"
proof -
  have c: "cstr (fmt_d i) = fmt_d i" by (rule cstr_id) (rule fmt_d_no_nul)
  show ?thesis
  proof (cases "i < 0")
    case True
    then show ?thesis
      using c by (simp add: parse_num_def fmt_d_def is_space_def parse_dec_nat)
  next
    case False
    obtain d ds where d: "dec_nat (nat i) = d # ds" by (cases "dec_nat (nat i)") auto
    then have "is_digit d" using dec_nat_digits [of "nat i"] by simp
    then show ?thesis
      using c False d digit_not [of d] parse_dec_nat [of "nat i"]
      by (simp add: parse_num_def fmt_d_def del: parse_nat.simps)
  qed
qed

lemma ato_fmt_d: "- (2 ^ (w - 1)) \<le> i \<Longrightarrow> i < 2 ^ (w - 1) \<Longrightarrow> ato w (fmt_d i) = Inr i"
  by (simp add: ato_def parse_fmt_d)

lemma strtoul_fmt_d: "0 \<le> i \<Longrightarrow> i < 2 ^ 64 \<Longrightarrow> strtoul (fmt_d i) = of_int i"
proof -
  assume "0 \<le> i" "i < 2 ^ 64"
  then have "\<not> 2 ^ 64 \<le> nat i" by (simp add: le_nat_iff)
  then show ?thesis using \<open>0 \<le> i\<close> by (simp add: strtoul_def parse_fmt_d Let_def)
qed

lemma fmt_d_nonempty [simp]: "fmt_d i \<noteq> []"
  by (simp add: fmt_d_def)

end
