(* ===== verification/Timer.thy ===== *)
theory Timer
  imports Channel Util
begin

text \<open>
  \<^verbatim>\<open>base/include/xtimer.h\<close> and \<^verbatim>\<open>base/xtimer_queue.cpp\<close>: timers and the
  queue that fires them. Timers live in a heap, indexed by their address; the queue is the
  iteration order of the \<^verbatim>\<open>std::set\<close> of their owning pointers. An expiration is an
  integer number of milliseconds (the 64 bits of the code do not overflow on a clock).
\<close>

section \<open>State\<close>

type_synonym ptr = nat

record 'cl xTimer =
  repeat :: int
  interval :: int
  expiration :: int
  timerSerial :: int
  timer_cb :: 'cl

text \<open>
  \<open>clock\<close> lists what the next reads of \<^verbatim>\<open>TNOWMS\<close> return; when it is used up, time
  stands still at \<open>last_now\<close>. \<open>nextSerial\<close> is the static counter
  \<^verbatim>\<open>xTimer::s_nextSerial_\<close>.
\<close>

record 'cl timer_state =
  theap :: "ptr \<Rightarrow> 'cl xTimer option"
  timers :: "ptr list"
  nextSerial :: "64 xAtomic"
  clock :: "int list"
  last_now :: int

definition TNOWMS :: "('cl, 'z) timer_state_scheme \<Rightarrow> int \<times> ('cl, 'z) timer_state_scheme" where
  "TNOWMS s = (case clock s of [] \<Rightarrow> (last_now s, s) | t # ts \<Rightarrow> (t, s\<lparr>clock := ts, last_now := t\<rparr>))"

section \<open>Timers\<close>

text \<open>\<^verbatim>\<open>xTimer::Cmp\<close>: by expiration, then by serial number.\<close>

definition timer_cmp :: "'cl xTimer \<Rightarrow> 'cl xTimer \<Rightarrow> bool" where
  "timer_cmp lth rth =
     (if expiration lth \<noteq> expiration rth then expiration lth < expiration rth
      else timerSerial lth < timerSerial rth)"

text \<open>
  The two constructors. \<open>p\<close> is the address that \<^verbatim>\<open>new\<close> returns.
\<close>

definition new_timer_at :: "ptr \<Rightarrow> int \<Rightarrow> 'cl \<Rightarrow> ('cl, 'z) timer_state_scheme \<Rightarrow> ('cl, 'z) timer_state_scheme" where
  "new_timer_at p expire c s =
     (let (serial, n) = incrAndGet (nextSerial s)
      in s\<lparr>nextSerial := n,
           theap := (theap s)(p \<mapsto> \<lparr>repeat = 1, interval = 0, expiration = expire,
                                       timerSerial = sint serial, timer_cb = c\<rparr>)\<rparr>)"

definition new_timer_repeat ::
    "ptr \<Rightarrow> int \<Rightarrow> int \<Rightarrow> 'cl \<Rightarrow> ('cl, 'z) timer_state_scheme \<Rightarrow> ('cl, 'z) timer_state_scheme" where
  "new_timer_repeat p rep ival c s =
     (let (now, s1) = TNOWMS s; (serial, n) = incrAndGet (nextSerial s1)
      in s1\<lparr>nextSerial := n,
            theap := (theap s1)(p \<mapsto> \<lparr>repeat = rep, interval = ival, expiration = now + ival,
                                        timerSerial = sint serial, timer_cb = c\<rparr>)\<rparr>)"

definition hasNextTime :: "'cl xTimer \<Rightarrow> bool" where
  "hasNextTime t \<longleftrightarrow> repeat t > 1 \<or> repeat t = -1"

definition isForever :: "'cl xTimer \<Rightarrow> bool" where
  "isForever t \<longleftrightarrow> repeat t = -1"

definition timer_toString :: "'cl xTimer \<Rightarrow> string" where
  "timer_toString t =
     ''timerSerial:'' @ fmt_d (timerSerial t) @ '',expiration:'' @ fmt_d (expiration t) @
     '',interval:'' @ fmt_d (interval t) @ '','' @ fmt_d (repeat t)"

text \<open>\<^verbatim>\<open>nextRepeat\<close> reads the clock once, and a second time when the timer is late.\<close>

definition nextRepeat :: "ptr \<Rightarrow> ('cl, 'z) timer_state_scheme \<Rightarrow> (unit, ('cl, 'z) timer_state_scheme) outcome" where
  "nextRepeat p s =
     (case theap s p of
        None \<Rightarrow> Crash Undefined
      | Some t \<Rightarrow>
          bindS (assertS (repeat t > 0 \<or> repeat t = -1) s) (\<lambda>_ s.
            let t1 = (if repeat t > 0 then t\<lparr>repeat := repeat t - 1\<rparr> else t);
                t2 = t1\<lparr>expiration := expiration t1 + interval t1\<rparr>;
                (now1, s1) = TNOWMS s
            in if expiration t2 < now1
               then let (now2, s2) = TNOWMS s1
                    in Done () (s2\<lparr>theap := (theap s2)(p \<mapsto> t2\<lparr>expiration := now2 + interval t2\<rparr>)\<rparr>)
               else Done () (s1\<lparr>theap := (theap s1)(p \<mapsto> t2)\<rparr>)))"

text \<open>\<^verbatim>\<open>doCallBack\<close> swallows the exceptions of the callback.\<close>

definition doCallBack :: "('cl \<Rightarrow> 'w \<Rightarrow> (unit, 'w) outcome) \<Rightarrow> 'cl \<Rightarrow> 'w \<Rightarrow> (unit, 'w) outcome" where
  "doCallBack call c s = catchS (call c s) (\<lambda>e s'. Done () s')"

section \<open>The queue\<close>

text \<open>
  \<^verbatim>\<open>std::set\<close> looks an element up with \<^verbatim>\<open>Cmp\<close>, and its results are only
  defined while the elements are in the order of \<^verbatim>\<open>Cmp\<close>. \<open>tq_ordered\<close> is that
  requirement; a lookup without it is \<open>Undefined\<close>.
\<close>

definition tlive :: "('cl, 'z) timer_state_scheme \<Rightarrow> bool" where
  "tlive s \<longleftrightarrow> (\<forall>p \<in> set (timers s). theap s p \<noteq> None)"

definition tq_ordered :: "('cl, 'z) timer_state_scheme \<Rightarrow> bool" where
  "tq_ordered s \<longleftrightarrow> sorted_wrt (\<lambda>p q. timer_cmp (the (theap s p)) (the (theap s q))) (timers s)"

fun set_insert :: "(ptr \<Rightarrow> bool) \<Rightarrow> ptr \<Rightarrow> ptr list \<Rightarrow> ptr list" where
  "set_insert below p [] = [p]"
| "set_insert below p (q # qs) = (if below q then q # set_insert below p qs else p # q # qs)"

definition set_equiv :: "('cl, 'z) timer_state_scheme \<Rightarrow> 'cl xTimer \<Rightarrow> ptr \<Rightarrow> bool" where
  "set_equiv s t q \<longleftrightarrow> \<not> timer_cmp (the (theap s q)) t \<and> \<not> timer_cmp t (the (theap s q))"

text \<open>
  \<^verbatim>\<open>AddTimer\<close>: an element equivalent to one of the set is not inserted, and then the
  \<^verbatim>\<open>unique_ptr\<close> that was to be inserted deletes the new timer.
\<close>

definition AddTimer :: "ptr \<Rightarrow> ('cl, 'z) timer_state_scheme \<Rightarrow> (ptr, ('cl, 'z) timer_state_scheme) outcome" where
  "AddTimer p s =
     (case theap s p of
        None \<Rightarrow> Crash Undefined
      | Some t \<Rightarrow>
          if \<not> (tlive s \<and> tq_ordered s) then Crash Undefined
          else if \<exists>q \<in> set (timers s). set_equiv s t q then Done p (s\<lparr>theap := (theap s)(p := None)\<rparr>)
          else Done p (s\<lparr>timers := set_insert (\<lambda>q. timer_cmp (the (theap s q)) t) p (timers s)\<rparr>))"

text \<open>
  \<^verbatim>\<open>RemoveTime\<close> looks the timer up through the pointer in its id: an id whose timer is
  gone is dereferenced all the same.
\<close>

definition RemoveTime :: "ptr \<Rightarrow> ('cl, 'z) timer_state_scheme \<Rightarrow> (unit, ('cl, 'z) timer_state_scheme) outcome" where
  "RemoveTime p s =
     (case theap s p of
        None \<Rightarrow> Crash Undefined
      | Some t \<Rightarrow>
          if \<not> (tlive s \<and> tq_ordered s) then Crash Undefined
          else case find (set_equiv s t) (timers s) of
                 None \<Rightarrow> Done () s
               | Some q \<Rightarrow> Done () (s\<lparr>timers := removeAll q (timers s), theap := (theap s)(q := None)\<rparr>))"

text \<open>The element after \<open>p\<close> in the set; \<open>None\<close> is \<^verbatim>\<open>end()\<close>.\<close>

fun succ_of :: "ptr \<Rightarrow> ptr list \<Rightarrow> ptr option" where
  "succ_of p [] = None"
| "succ_of p (q # qs) = (if q = p then (case qs of [] \<Rightarrow> None | r # _ \<Rightarrow> Some r) else succ_of p qs)"

definition first_of :: "ptr list \<Rightarrow> ptr option" where
  "first_of qs = (case qs of [] \<Rightarrow> None | q # _ \<Rightarrow> Some q)"

text \<open>
  The loop of \<^verbatim>\<open>triggerTimer\<close>. The iterator \<open>it\<close> is dereferenced before and after the
  callback, which may have erased it. Callbacks can add timers that are due at once, so the
  loop has fuel.
\<close>

fun trigger_loop ::
    "('cl \<Rightarrow> ('cl, 'z) timer_state_scheme \<Rightarrow> (unit, ('cl, 'z) timer_state_scheme) outcome) \<Rightarrow>
     nat \<Rightarrow> int \<Rightarrow> ptr option \<Rightarrow> ('cl, 'z) timer_state_scheme \<Rightarrow>
     (unit, ('cl, 'z) timer_state_scheme) outcome" where
  "trigger_loop call 0 timeNow it s = Diverge"
| "trigger_loop call (Suc fuel) timeNow None s = Done () s"
| "trigger_loop call (Suc fuel) timeNow (Some p) s =
     (case theap s p of
        None \<Rightarrow> Crash Undefined
      | Some t \<Rightarrow>
          if expiration t > timeNow then Done () s
          else bindS (doCallBack call (timer_cb t) s) (\<lambda>_ s1.
            if p \<notin> set (timers s1) then Crash Undefined
            else case theap s1 p of
              None \<Rightarrow> Crash Undefined
            | Some t1 \<Rightarrow>
                if hasNextTime t1
                then bindS (nextRepeat p s1) (\<lambda>_ s2.
                       trigger_loop call fuel timeNow (succ_of p (timers s2)) s2)
                else trigger_loop call fuel timeNow (succ_of p (timers s1))
                       (s1\<lparr>timers := removeAll p (timers s1), theap := (theap s1)(p := None)\<rparr>)))"

definition triggerTimer ::
    "('cl \<Rightarrow> ('cl, 'z) timer_state_scheme \<Rightarrow> (unit, ('cl, 'z) timer_state_scheme) outcome) \<Rightarrow>
     nat \<Rightarrow> ('cl, 'z) timer_state_scheme \<Rightarrow> (unit, ('cl, 'z) timer_state_scheme) outcome" where
  "triggerTimer call fuel s =
     (let (timeNow, s1) = TNOWMS s in trigger_loop call fuel timeNow (first_of (timers s1)) s1)"

section \<open>The order of the set\<close>

text \<open>\<^verbatim>\<open>Cmp\<close> is a linear order on what it compares, the key of a timer.\<close>

datatype timer_key = Key (key_time: int) (key_serial: int)

definition key_of :: "'cl xTimer \<Rightarrow> timer_key" where
  "key_of t = Key (expiration t) (timerSerial t)"

instantiation timer_key :: linorder
begin

definition less_timer_key :: "timer_key \<Rightarrow> timer_key \<Rightarrow> bool" where
  "less_timer_key k l \<longleftrightarrow> key_time k < key_time l \<or> key_time k = key_time l \<and> key_serial k < key_serial l"

definition less_eq_timer_key :: "timer_key \<Rightarrow> timer_key \<Rightarrow> bool" where
  "less_eq_timer_key k l \<longleftrightarrow> key_time k < key_time l \<or> key_time k = key_time l \<and> key_serial k \<le> key_serial l"

instance
  by standard (auto simp: less_timer_key_def less_eq_timer_key_def timer_key.expand)

end

lemma timer_cmp_key: "timer_cmp a b \<longleftrightarrow> key_of a < key_of b"
  by (auto simp: timer_cmp_def key_of_def less_timer_key_def)

lemma timer_cmp_trans: "timer_cmp a b \<Longrightarrow> timer_cmp b c \<Longrightarrow> timer_cmp a c"
  by (simp add: timer_cmp_key)

lemma timer_cmp_total:
  "\<not> timer_cmp a b \<Longrightarrow> \<not> timer_cmp b a \<Longrightarrow> expiration a = expiration b \<and> timerSerial a = timerSerial b"
  using antisym [of "key_of a" "key_of b"] by (auto simp: timer_cmp_key not_less) (auto simp: key_of_def)

lemma timer_cmp_irrefl [simp]: "\<not> timer_cmp a a"
  by (simp add: timer_cmp_key)

lemma timer_cmp_expiration: "timer_cmp a b \<Longrightarrow> expiration a \<le> expiration b"
  by (auto simp: timer_cmp_key key_of_def less_timer_key_def)

lemma tq_ordered_keys: "tq_ordered s \<longleftrightarrow> sorted_wrt (<) (map (\<lambda>p. key_of (the (theap s p))) (timers s))"
  by (simp add: tq_ordered_def timer_cmp_key sorted_wrt_map)

lemma set_set_insert [simp]: "set (set_insert f p qs) = insert p (set qs)"
  by (induction qs) auto

lemma sorted_set_insert:
  assumes "sorted_wrt r qs" and "\<And>q. q \<in> set qs \<Longrightarrow> f q \<Longrightarrow> r q p"
    and "\<And>q. q \<in> set qs \<Longrightarrow> \<not> f q \<Longrightarrow> r p q"
    and "\<And>x y z. r x y \<Longrightarrow> r y z \<Longrightarrow> r x z"
  shows "sorted_wrt r (set_insert f p qs)"
  using assms
proof (induction qs)
  case Nil
  then show ?case by simp
next
  case (Cons q qs)
  show ?case
  proof (cases "f q")
    case True
    then show ?thesis using Cons by auto
  next
    case False
    then have "r p q" using Cons.prems(3) by simp
    then have "\<forall>x \<in> set qs. r p x"
      using Cons.prems(1) Cons.prems(4) by auto
    with False \<open>r p q\<close> show ?thesis
      using Cons.prems(1) by simp
  qed
qed

lemma tq_ordered_distinct: "tq_ordered s \<Longrightarrow> distinct (timers s)"
  unfolding tq_ordered_keys strict_sorted_iff by (simp add: distinct_map)

text \<open>Serial numbers tell the timers of the heap apart, so that no two are equivalent.\<close>

definition serials_distinct :: "('cl, 'z) timer_state_scheme \<Rightarrow> bool" where
  "serials_distinct s \<longleftrightarrow> (\<forall>p q t u. theap s p = Some t \<longrightarrow> theap s q = Some u \<longrightarrow>
     timerSerial t = timerSerial u \<longrightarrow> p = q)"

definition tq_inv :: "('cl, 'z) timer_state_scheme \<Rightarrow> bool" where
  "tq_inv s \<longleftrightarrow> tlive s \<and> tq_ordered s \<and> serials_distinct s"

lemma set_equiv_same:
  assumes "tq_inv s" and "theap s p = Some t" and "q \<in> set (timers s)" and "set_equiv s t q"
  shows "q = p"
proof -
  obtain u where u: "theap s q = Some u"
    using assms(1,3) by (auto simp: tq_inv_def tlive_def)
  then have "timerSerial u = timerSerial t"
    using assms(4) timer_cmp_total [of u t] by (simp add: set_equiv_def)
  then show ?thesis
    using assms(1,2) u by (auto simp: tq_inv_def serials_distinct_def)
qed

lemma set_insert_split: "\<exists>xs ys. qs = xs @ ys \<and> set_insert below p qs = xs @ p # ys"
proof (induction qs)
  case Nil
  then show ?case by simp
next
  case (Cons q qs)
  then obtain xs ys where e: "qs = xs @ ys" "set_insert below p qs = xs @ p # ys" by blast
  show ?case
  proof (cases "below q")
    case True
    then show ?thesis using e by (intro exI [of _ "q # xs"] exI [of _ ys]) simp
  next
    case False
    then show ?thesis by (intro exI [of _ "[]"] exI [of _ "q # qs"]) simp
  qed
qed

lemma AddTimer_ok:
  assumes inv: "tq_inv s" and t: "theap s p = Some t" and new: "p \<notin> set (timers s)"
  obtains s' where "AddTimer p s = Done p s'" and "tq_inv s'"
    and "set (timers s') = insert p (set (timers s))" and "theap s' = theap s" and "s' = s\<lparr>timers := timers s'\<rparr>"
    and "\<exists>xs ys. timers s = xs @ ys \<and> timers s' = xs @ p # ys"
proof -
  let ?below = "\<lambda>q. timer_cmp (the (theap s q)) t"
  let ?s = "s\<lparr>timers := set_insert ?below p (timers s)\<rparr>"
  have ne: "\<not> (\<exists>q \<in> set (timers s). set_equiv s t q)"
    using set_equiv_same [OF inv t] new by blast
  then have "AddTimer p s = Done p ?s"
    using inv t by (auto simp: AddTimer_def tq_inv_def)
  moreover have "sorted_wrt (\<lambda>p q. timer_cmp (the (theap s p)) (the (theap s q)))
      (set_insert ?below p (timers s))"
  proof (rule sorted_set_insert)
    show "sorted_wrt (\<lambda>p q. timer_cmp (the (theap s p)) (the (theap s q))) (timers s)"
      using inv by (simp add: tq_inv_def tq_ordered_def)
  next
    fix q assume "q \<in> set (timers s)" "\<not> timer_cmp (the (theap s q)) t"
    then show "timer_cmp (the (theap s p)) (the (theap s q))"
      using ne t by (auto simp: set_equiv_def)
  qed (use t timer_cmp_trans in \<open>auto\<close>)
  then have "tq_inv ?s"
    using inv t by (simp add: tq_inv_def tlive_def tq_ordered_def serials_distinct_def)
  ultimately show ?thesis
    using set_insert_split [of "timers s" ?below p] by (intro that [of ?s]) simp_all
qed

lemma RemoveTime_ok:
  assumes inv: "tq_inv s" and t: "theap s p = Some t" and "p \<in> set (timers s)"
  shows "RemoveTime p s = Done () (s\<lparr>timers := removeAll p (timers s), theap := (theap s)(p := None)\<rparr>)"
    and "tq_inv (s\<lparr>timers := removeAll p (timers s), theap := (theap s)(p := None)\<rparr>)"
proof -
  have "set_equiv s t p"
    using t by (simp add: set_equiv_def)
  then have "find (set_equiv s t) (timers s) \<noteq> None"
    using assms(3) by (auto simp: find_None_iff)
  then obtain q where q: "find (set_equiv s t) (timers s) = Some q"
    by blast
  then have "q \<in> set (timers s)" "set_equiv s t q"
    by (auto simp: find_Some_iff)
  then have "q = p"
    using set_equiv_same [OF inv t] by blast
  then show "RemoveTime p s = Done () (s\<lparr>timers := removeAll p (timers s), theap := (theap s)(p := None)\<rparr>)"
    using inv t q by (simp add: RemoveTime_def tq_inv_def)
  have "sorted_wrt (\<lambda>x y. timer_cmp (the (theap s x)) (the (theap s y))) (removeAll p (timers s))"
    using inv by (simp add: tq_inv_def tq_ordered_def removeAll_filter_not_eq sorted_wrt_filter)
  then have "sorted_wrt (\<lambda>x y. timer_cmp (the (((theap s)(p := None)) x)) (the (((theap s)(p := None)) y)))
      (removeAll p (timers s))"
    by (rule sorted_wrt_mono_rel [rotated]) auto
  then show "tq_inv (s\<lparr>timers := removeAll p (timers s), theap := (theap s)(p := None)\<rparr>)"
    using inv by (auto simp: tq_inv_def tlive_def tq_ordered_def serials_distinct_def)
qed

lemma RemoveTime_absent:
  assumes inv: "tq_inv s" and t: "theap s q = Some t" and "q \<notin> set (timers s)"
  shows "RemoveTime q s = Done () s"
proof -
  have "find (set_equiv s t) (timers s) = None"
    using set_equiv_same [OF inv t] assms(3) by (auto simp: find_None_iff)
  then show ?thesis using t inv by (simp add: RemoveTime_def tq_inv_def)
qed

end
