(* ===== verification/Timer_Fire.thy ===== *)
theory Timer_Fire
  imports Timer
begin

text \<open>
  What \<open>triggerTimer\<close> fires. The callbacks here act on the rest of the program
  (\<open>outside f\<close> changes only the part of the state behind the timer fields); a callback that
  adds or removes timers goes through the operations of \<open>Timer\<close>.
\<close>

section \<open>Callbacks that leave the queue alone\<close>

definition outside ::
    "('cl \<Rightarrow> 'z \<Rightarrow> 'z) \<Rightarrow> 'cl \<Rightarrow> ('cl, 'z) timer_state_scheme \<Rightarrow> (unit, ('cl, 'z) timer_state_scheme) outcome" where
  "outside f c s = Done () (timer_state.more_update (f c) s)"

lemma doCallBack_outside [simp]:
  "doCallBack (outside f) c s = Done () (timer_state.more_update (f c) s)"
  by (simp add: doCallBack_def outside_def)

lemma TNOWMS_fields [simp]:
  "timers (snd (TNOWMS s)) = timers s" "theap (snd (TNOWMS s)) = theap s"
  "timer_state.more (snd (TNOWMS s)) = timer_state.more s"
  "nextSerial (snd (TNOWMS s)) = nextSerial s"
  by (simp_all add: TNOWMS_def split: list.split)

lemma first_of_simps [simp]: "first_of [] = None" "first_of (q # qs) = Some q"
  by (simp_all add: first_of_def)

lemma succ_of_head [simp]: "succ_of p (p # qs) = first_of qs"
  by (simp add: first_of_def split: list.split)

declare succ_of.simps(2) [simp del]

lemma succ_of_other [simp]: "q \<noteq> p \<Longrightarrow> succ_of p (q # qs) = succ_of p qs"
  by (simp add: succ_of.simps)

section \<open>One-shot timers\<close>

definition due :: "int \<Rightarrow> ('cl, 'z) timer_state_scheme \<Rightarrow> ptr \<Rightarrow> bool" where
  "due now s p \<longleftrightarrow> expiration (the (theap s p)) \<le> now"

definition cb_of :: "('cl, 'z) timer_state_scheme \<Rightarrow> ptr \<Rightarrow> 'cl" where
  "cb_of s p = timer_cb (the (theap s p))"

definition one_shot :: "('cl, 'z) timer_state_scheme \<Rightarrow> ptr \<Rightarrow> bool" where
  "one_shot s p \<longleftrightarrow> (\<exists>t. theap s p = Some t \<and> \<not> hasNextTime t)"

lemma takeWhile_cong_set: "(\<And>x. x \<in> set xs \<Longrightarrow> P x = Q x) \<Longrightarrow> takeWhile P xs = takeWhile Q xs"
  by (rule takeWhile_cong) auto

lemma trigger_loop_one_shot:
  assumes "distinct (timers s)" and "\<forall>p \<in> set (timers s). one_shot s p" and "length (timers s) < fuel"
  shows "\<exists>s'. trigger_loop (outside f) fuel now (first_of (timers s)) s = Done () s' \<and>
    timers s' = dropWhile (due now s) (timers s) \<and>
    theap s' = (\<lambda>p. if p \<in> set (takeWhile (due now s) (timers s)) then None else theap s p) \<and>
    timer_state.more s' = fold f (map (cb_of s) (takeWhile (due now s) (timers s))) (timer_state.more s)"
  using assms
proof (induction "timers s" arbitrary: s fuel)
  case Nil
  then obtain k where "fuel = Suc k" by (cases fuel) auto
  then show ?case using Nil.hyps by simp
next
  case (Cons p qs)
  obtain k where k: "fuel = Suc k" using Cons.prems(3) by (cases fuel) auto
  obtain t where t: "theap s p = Some t" "\<not> hasNextTime t"
    using Cons.prems(2) Cons.hyps(2) by (metis list.set_intros(1) one_shot_def)
  note T = Cons.hyps(2) [symmetric]
  show ?case
  proof (cases "expiration t > now")
    case True
    then show ?thesis using T t k by (simp add: due_def)
  next
    case False
    let ?s1 = "timer_state.more_update (f (timer_cb t)) s"
    let ?s2 = "?s1\<lparr>timers := qs, theap := (theap s)(p := None)\<rparr>"
    have notin: "p \<notin> set qs" using Cons.prems(1) T by simp
    have step: "trigger_loop (outside f) fuel now (first_of (timers s)) s =
        trigger_loop (outside f) k now (first_of (timers ?s2)) ?s2"
      using False T t k notin by simp
    have same: "\<forall>q \<in> set qs. due now ?s2 q = due now s q \<and> cb_of ?s2 q = cb_of s q"
      using notin by (auto simp: due_def cb_of_def)
    then have tw: "takeWhile (due now ?s2) qs = takeWhile (due now s) qs"
      and dw: "dropWhile (due now ?s2) qs = dropWhile (due now s) qs"
      by (auto intro: takeWhile_cong_set dropWhile_cong)
    have mp: "map (cb_of ?s2) (takeWhile (due now s) qs) = map (cb_of s) (takeWhile (due now s) qs)"
      using same by (auto dest: set_takeWhileD)
    have "\<forall>q \<in> set (timers ?s2). one_shot ?s2 q"
      using Cons.prems(2) T notin by (auto simp: one_shot_def)
    moreover have "distinct (timers ?s2)" "length (timers ?s2) < k"
      using Cons.prems(1,3) T k by simp_all
    ultimately obtain s' where s': "trigger_loop (outside f) k now (first_of (timers ?s2)) ?s2 = Done () s'"
      "timers s' = dropWhile (due now ?s2) (timers ?s2)"
      "theap s' = (\<lambda>q. if q \<in> set (takeWhile (due now ?s2) (timers ?s2)) then None else theap ?s2 q)"
      "timer_state.more s' = fold f (map (cb_of ?s2) (takeWhile (due now ?s2) (timers ?s2))) (timer_state.more ?s2)"
      using Cons.hyps(1) [of ?s2 k] by auto
    have d: "due now s p" using False t by (simp add: due_def)
    show ?thesis
    proof (intro exI conjI)
      show "trigger_loop (outside f) fuel now (first_of (timers s)) s = Done () s'"
        using step s'(1) by simp
      show "timers s' = dropWhile (due now s) (timers s)"
        using s'(2) dw d T by simp
      show "theap s' = (\<lambda>q. if q \<in> set (takeWhile (due now s) (timers s)) then None else theap s q)"
        using s'(3) tw d T by auto
      show "timer_state.more s' = fold f (map (cb_of s) (takeWhile (due now s) (timers s))) (timer_state.more s)"
        using s'(4) tw mp d T t by (simp add: cb_of_def)
    qed
  qed
qed

lemma due_prefix:
  assumes "tq_ordered s"
  shows "set (takeWhile (due now s) (timers s)) = {p \<in> set (timers s). due now s p}"
proof -
  have "sorted_wrt (\<lambda>p q. expiration (the (theap s p)) \<le> expiration (the (theap s q))) (timers s)"
    using assms unfolding tq_ordered_def
    by (rule sorted_wrt_mono_rel [rotated]) (rule timer_cmp_expiration)
  then show ?thesis
  proof (induction "timers s" arbitrary: s)
    case Nil
    from Nil.hyps show ?case by simp
  next
    case (Cons p qs)
    let ?s = "s\<lparr>timers := qs\<rparr>"
    note T = Cons.hyps(2) [symmetric]
    have D: "due now ?s = due now s" by (simp add: due_def fun_eq_iff)
    have IH: "set (takeWhile (due now s) qs) = {q \<in> set qs. due now s q}"
      using Cons.hyps(1) [of ?s] Cons.prems T by (simp add: D)
    show ?case
    proof (cases "due now s p")
      case True
      then show ?thesis using IH T by auto
    next
      case False
      then have "\<forall>q \<in> set qs. \<not> due now s q"
        using Cons.prems T by (auto simp: due_def)
      with False show ?thesis using T by auto
    qed
  qed
qed

section \<open>Repeating timers\<close>

text \<open>
  One trigger of a queue that holds one timer, with the time standing still at \<open>x\<close>.
\<close>

definition set_clock :: "int \<Rightarrow> ('cl, 'z) timer_state_scheme \<Rightarrow> ('cl, 'z) timer_state_scheme" where
  "set_clock x s = s\<lparr>clock := [], last_now := x\<rparr>"

lemma set_clock_fields [simp]:
  "timers (set_clock x s) = timers s" "theap (set_clock x s) = theap s"
  "timer_state.more (set_clock x s) = timer_state.more s"
  by (simp_all add: set_clock_def)

lemma TNOWMS_set_clock: "TNOWMS (set_clock x s) = (x, set_clock x s)"
  by (simp add: TNOWMS_def set_clock_def)

lemma TNOWMS_still: "clock s = [] \<Longrightarrow> TNOWMS s = (last_now s, s)"
  by (simp add: TNOWMS_def)

text \<open>Triggers at the times \<open>xs\<close>, one after the other.\<close>

fun trigger_at ::
    "('cl \<Rightarrow> ('cl, 'z) timer_state_scheme \<Rightarrow> (unit, ('cl, 'z) timer_state_scheme) outcome) \<Rightarrow>
     nat \<Rightarrow> int list \<Rightarrow> ('cl, 'z) timer_state_scheme \<Rightarrow> (unit, ('cl, 'z) timer_state_scheme) outcome" where
  "trigger_at call fuel [] s = Done () s"
| "trigger_at call fuel (x # xs) s =
     bindS (triggerTimer call fuel (set_clock x s)) (\<lambda>_ s'. trigger_at call fuel xs s')"

text \<open>Each time is at least one interval after the one before.\<close>

fun spaced :: "int \<Rightarrow> int list \<Rightarrow> bool" where
  "spaced i [] = True"
| "spaced i [x] = True"
| "spaced i (x # y # ys) = (x + i \<le> y \<and> spaced i (y # ys))"

lemma trigger_last:
  assumes "timers s = [p]" and "theap s p = Some t" and "repeat t = 1" and "expiration t \<le> x" and "2 \<le> fuel"
  shows "\<exists>s'. triggerTimer (outside f) fuel (set_clock x s) = Done () s' \<and> timers s' = [] \<and>
    theap s' p = None \<and> timer_state.more s' = f (timer_cb t) (timer_state.more s)"
proof -
  obtain k where "fuel = Suc (Suc k)" using assms(5) by (metis Suc_le_D numeral_2_eq_2 Suc_le_mono)
  then show ?thesis
    using assms(1-4) by (simp add: triggerTimer_def TNOWMS_set_clock hasNextTime_def)
qed

lemma trigger_again:
  assumes "timers s = [p]" and "theap s p = Some t" and "hasNextTime t" and "expiration t \<le> x" and "2 \<le> fuel"
  obtains s' t' where "triggerTimer (outside f) fuel (set_clock x s) = Done () s'" and "timers s' = [p]"
    and "theap s' p = Some t'" and "timer_state.more s' = f (timer_cb t) (timer_state.more s)"
    and "repeat t' = (if repeat t = -1 then -1 else repeat t - 1)" and "timer_cb t' = timer_cb t"
    and "interval t' = interval t" and "expiration t' \<le> x + interval t" and "expiration t' \<ge> min x (x + interval t)"
proof -
  obtain k where k: "fuel = Suc (Suc k)" using assms(5) by (metis Suc_le_D numeral_2_eq_2 Suc_le_mono)
  let ?t1 = "if repeat t > 0 then t\<lparr>repeat := repeat t - 1\<rparr> else t"
  let ?t' = "?t1\<lparr>expiration := (if expiration t + interval t < x then x + interval t else expiration t + interval t)\<rparr>"
  let ?s1 = "timer_state.more_update (f (timer_cb t)) (set_clock x s)"
  let ?s' = "?s1\<lparr>theap := (theap s)(p \<mapsto> ?t')\<rparr>"
  have rep: "repeat t > 0 \<or> repeat t = -1"
    using assms(3) by (auto simp: hasNextTime_def)
  have now: "TNOWMS ?s1 = (x, ?s1)"
    by (simp add: TNOWMS_def set_clock_def)
  have "nextRepeat p ?s1 = Done () ?s'"
    using assms(2) rep by (simp add: nextRepeat_def now Let_def)
  then have "triggerTimer (outside f) fuel (set_clock x s) = Done () ?s'"
    using k assms(1-4) by (simp add: triggerTimer_def TNOWMS_set_clock)
  then show ?thesis
    using assms rep by (intro that [of ?s' ?t']) (auto simp: hasNextTime_def)
qed

lemma trigger_at_repeat:
  assumes "timers s = [p]" and "theap s p = Some t" and "repeat t = int n" and "0 < n"
    and "0 \<le> interval t" and "2 \<le> fuel" and "spaced (interval t) xs"
    and "xs \<noteq> [] \<Longrightarrow> expiration t \<le> hd xs" and "length xs \<le> n"
  shows "\<exists>s'. trigger_at (outside f) fuel xs s = Done () s' \<and>
    timer_state.more s' = ((f (timer_cb t)) ^^ length xs) (timer_state.more s) \<and>
    (timers s' = (if length xs = n then [] else [p]))"
  using assms
proof (induction xs arbitrary: s t n)
  case Nil
  then show ?case by simp
next
  case (Cons x xs)
  show ?case
  proof (cases "n = 1")
    case True
    with Cons.prems have "xs = []" by simp
    moreover obtain s' where "triggerTimer (outside f) fuel (set_clock x s) = Done () s'" "timers s' = []"
      "timer_state.more s' = f (timer_cb t) (timer_state.more s)"
      using trigger_last [OF Cons.prems(1,2), of x fuel f] Cons.prems True by auto
    ultimately show ?thesis using True by simp
  next
    case False
    then have h: "hasNextTime t" and e: "expiration t \<le> x"
      using Cons.prems(3,4,8) by (auto simp: hasNextTime_def)
    obtain s' t' where s': "triggerTimer (outside f) fuel (set_clock x s) = Done () s'" "timers s' = [p]"
      "theap s' p = Some t'" "timer_state.more s' = f (timer_cb t) (timer_state.more s)"
      "repeat t' = (if repeat t = -1 then -1 else repeat t - 1)" "timer_cb t' = timer_cb t"
      "interval t' = interval t" "expiration t' \<le> x + interval t" "expiration t' \<ge> min x (x + interval t)"
      using Cons.prems(1,2) h e Cons.prems(6) by (rule trigger_again)
    have r: "repeat t' = int (n - 1)" "0 < n - 1"
      using s'(5) Cons.prems(3,4) False by auto
    have sp: "spaced (interval t') xs"
      using Cons.prems(7) s'(7) by (cases xs) auto
    have hd: "xs \<noteq> [] \<Longrightarrow> expiration t' \<le> hd xs"
      using Cons.prems(7) s'(8) by (cases xs) auto
    have len: "length xs \<le> n - 1"
      using Cons.prems(9) by simp
    have iv: "0 \<le> interval t'"
      using s'(7) Cons.prems(5) by simp
    obtain s'' where "trigger_at (outside f) fuel xs s' = Done () s''"
      "timer_state.more s'' = ((f (timer_cb t')) ^^ length xs) (timer_state.more s')"
      "timers s'' = (if length xs = n - 1 then [] else [p])"
      using Cons.IH [OF s'(2,3) r iv Cons.prems(6) sp hd len] by blast
    moreover have "length xs = n - 1 \<longleftrightarrow> length (x # xs) = n"
      using Cons.prems(4) by auto
    ultimately show ?thesis
      using s'(1,4,6) by (simp add: funpow_swap1)
  qed
qed

section \<open>A timer moved in place\<close>

text \<open>
  \<open>nextRepeat\<close> changes the expiration of a timer that stays where it is in the set. With a
  timer \<open>b\<close> behind it, the order of the set is lost and the loop stops at \<open>a\<close> before it
  reaches \<open>b\<close>.
\<close>

lemma trigger_moves_in_place:
  assumes q: "timers s = [a, b]" and ab: "a \<noteq> b" and ta: "theap s a = Some ta" and tb: "theap s b = Some tb"
    and rep: "repeat ta = -1" and ea: "expiration ta \<le> x" and xb: "x < expiration tb"
    and late: "x \<le> expiration ta + interval ta" and over: "expiration tb < expiration ta + interval ta"
    and fuel: "3 \<le> fuel"
  shows "\<exists>s'. triggerTimer (outside f) fuel (set_clock x s) = Done () s' \<and> timers s' = [a, b] \<and>
    theap s' = (theap s)(a \<mapsto> ta\<lparr>expiration := expiration ta + interval ta\<rparr>) \<and>
    timer_state.more s' = f (timer_cb ta) (timer_state.more s) \<and> \<not> tq_ordered s'"
proof -
  obtain k where k: "fuel = Suc (Suc (Suc k))" using fuel by (metis Suc_le_D numeral_3_eq_3 Suc_le_mono)
  let ?s1 = "timer_state.more_update (f (timer_cb ta)) (set_clock x s)"
  let ?s' = "?s1\<lparr>theap := (theap s)(a \<mapsto> ta\<lparr>expiration := expiration ta + interval ta\<rparr>)\<rparr>"
  have now: "TNOWMS ?s1 = (x, ?s1)"
    by (simp add: TNOWMS_def set_clock_def)
  have h: "hasNextTime ta" using rep by (simp add: hasNextTime_def)
  have "nextRepeat a ?s1 = Done () ?s'"
    using ta rep late by (simp add: nextRepeat_def now Let_def)
  then have "triggerTimer (outside f) fuel (set_clock x s) = Done () ?s'"
    using k q ab ta tb ea xb h by (simp add: triggerTimer_def TNOWMS_set_clock)
  moreover have "\<not> tq_ordered ?s'"
    using q ab tb over by (simp add: tq_ordered_def timer_cmp_def)
  ultimately show ?thesis using q by simp
qed

lemma trigger_stops_at_head:
  assumes "timers s = a # qs" and "theap s a = Some ta" and "x < expiration ta" and "0 < fuel"
  shows "triggerTimer call fuel (set_clock x s) = Done () (set_clock x s)"
proof -
  obtain k where "fuel = Suc k" using assms(4) by (cases fuel) auto
  then show ?thesis using assms by (simp add: triggerTimer_def TNOWMS_set_clock)
qed

end
