(* ===== verification/Timer_Props.thy ===== *)
theory Timer_Props
  imports Timer_Fire
begin

text \<open>The properties of the timers and of the queue that fires them.\<close>

section \<open>A queue for the witnesses\<close>

definition one_timer :: "int \<Rightarrow> int \<Rightarrow> nat xTimer" where
  "one_timer e n = \<lparr>repeat = 1, interval = 0, expiration = e, timerSerial = n, timer_cb = nat n\<rparr>"

text \<open>Three one-shot timers that expire at 10, 20 and 30; the log behind the timer fields lists what fires.\<close>

definition three_timers :: "(nat, nat list) timer_state_scheme" where
  "three_timers = \<lparr>theap = [1 \<mapsto> one_timer 10 1, 2 \<mapsto> one_timer 20 2, 3 \<mapsto> one_timer 30 3],
     timers = [1, 2, 3], nextSerial = 3, clock = [], last_now = 20, \<dots> = []\<rparr>"

lemma three_timers_inv: "tq_inv three_timers"
  by (auto simp: tq_inv_def tlive_def tq_ordered_def serials_distinct_def three_timers_def one_timer_def
      timer_cmp_def split: if_splits)

section \<open>One-shot timers\<close>

text \<open>
  C10. One pass of \<open>triggerTimer\<close> over one-shot timers runs the callbacks of exactly those
  that have expired, each once, in the order of the queue (by expiration, then by creation),
  removes and frees them, and leaves the others as they were. The pass ends: fuel for one step
  more than there are timers is enough.
\<close>

theorem one_shot_timers_fire:
  assumes "tq_inv s" and "\<forall>p \<in> set (timers s). one_shot s p" and "length (timers s) < fuel" and "TNOWMS s = (now, s0)"
  shows "\<exists>s' fired. triggerTimer (outside f) fuel s = Done () s' \<and>
    timers s = fired @ timers s' \<and> set fired = {p \<in> set (timers s). expiration (the (theap s p)) \<le> now} \<and>
    theap s' = (\<lambda>p. if p \<in> set fired then None else theap s p) \<and>
    timer_state.more s' = fold f (map (cb_of s) fired) (timer_state.more s)"
proof -
  have s0: "timers s0 = timers s" "theap s0 = theap s" "timer_state.more s0 = timer_state.more s"
    using TNOWMS_fields [of s] assms(4) by simp_all
  have d: "due now s0 = due now s" "cb_of s0 = cb_of s" "one_shot s0 = one_shot s"
    by (simp_all add: fun_eq_iff due_def cb_of_def one_shot_def s0)
  have "distinct (timers s0)" "\<forall>p \<in> set (timers s0). one_shot s0 p" "length (timers s0) < fuel"
    using assms tq_ordered_distinct [of s] by (simp_all add: s0 d tq_inv_def)
  from trigger_loop_one_shot [OF this, of f now] obtain s' where
    "trigger_loop (outside f) fuel now (first_of (timers s0)) s0 = Done () s'"
    "timers s' = dropWhile (due now s0) (timers s0)"
    "theap s' = (\<lambda>p. if p \<in> set (takeWhile (due now s0) (timers s0)) then None else theap s0 p)"
    "timer_state.more s' = fold f (map (cb_of s0) (takeWhile (due now s0) (timers s0))) (timer_state.more s0)"
    by blast
  note R = this [unfolded s0 d]
  have "triggerTimer (outside f) fuel s = Done () s'"
    using R(1) assms(4) by (simp add: triggerTimer_def s0)
  moreover have "set (takeWhile (due now s) (timers s)) = {p \<in> set (timers s). expiration (the (theap s p)) \<le> now}"
    using assms(1) due_prefix [of s now] by (simp add: tq_inv_def due_def)
  moreover have "timers s = takeWhile (due now s) (timers s) @ timers s'"
    using R(2) by simp
  ultimately show ?thesis
    using R(3,4) by blast
qed

lemma one_shot_timers_fire_witness:
  "\<exists>s' fired. triggerTimer (outside (\<lambda>c l. l @ [c])) 4 three_timers = Done () s' \<and>
    [1, 2, 3] = fired @ timers s' \<and> set fired = {p \<in> {1, 2, 3}. expiration (the (theap three_timers p)) \<le> 20}"
  using one_shot_timers_fire [of three_timers 4 20 three_timers "\<lambda>c l. l @ [c]", OF three_timers_inv]
  by (auto simp: three_timers_def one_timer_def one_shot_def hasNextTime_def TNOWMS_def)

section \<open>The queue\<close>

text \<open>
  C17. The queue, empty or not, stays ordered by expiration and serial number, with live timers of distinct
  serials. Adding a live timer that is not in the queue inserts it somewhere between the others, which keep
  their order, and changes nothing else. Removing a queued timer takes out and frees exactly that one;
  the other timers, their order and the rest of the state stay. Removing one that is live but not in the queue
  does nothing.
\<close>

theorem queue_operations_keep_order:
  assumes "tq_inv s"
  shows "(\<forall>p. p \<notin> set (timers s) \<and> theap s p \<noteq> None \<longrightarrow> (\<exists>s' xs ys. AddTimer p s = Done p s' \<and> tq_inv s' \<and>
      timers s = xs @ ys \<and> timers s' = xs @ p # ys \<and> s' = s\<lparr>timers := timers s'\<rparr>)) \<and>
    (\<forall>q \<in> set (timers s). \<exists>s'. RemoveTime q s = Done () s' \<and> tq_inv s' \<and>
      s' = s\<lparr>timers := removeAll q (timers s), theap := (theap s)(q := None)\<rparr>) \<and>
    (\<forall>q. q \<notin> set (timers s) \<and> theap s q \<noteq> None \<longrightarrow> RemoveTime q s = Done () s)"
proof (intro conjI allI ballI impI)
  show "\<exists>s' xs ys. AddTimer p s = Done p s' \<and> tq_inv s' \<and> timers s = xs @ ys \<and> timers s' = xs @ p # ys \<and> s' = s\<lparr>timers := timers s'\<rparr>"
    if "p \<notin> set (timers s) \<and> theap s p \<noteq> None" for p
    using AddTimer_ok [OF assms, of p] that by (metis not_None_eq)
  show "\<exists>s'. RemoveTime q s = Done () s' \<and> tq_inv s' \<and> s' = s\<lparr>timers := removeAll q (timers s), theap := (theap s)(q := None)\<rparr>"
    if q: "q \<in> set (timers s)" for q
  proof -
    obtain u where "theap s q = Some u" using assms q by (auto simp: tq_inv_def tlive_def)
    then show ?thesis using RemoveTime_ok [OF assms _ q] by simp
  qed
  show "RemoveTime q s = Done () s" if "q \<notin> set (timers s) \<and> theap s q \<noteq> None" for q
    using RemoveTime_absent [OF assms, of q] that by auto
qed

lemma queue_operations_keep_order_witness:
  "(\<exists>s'. AddTimer 4 (three_timers\<lparr>theap := (theap three_timers)(4 \<mapsto> one_timer 15 4)\<rparr>) = Done 4 s' \<and> set (timers s') = {1, 2, 3, 4}) \<and>
    (\<exists>s'. AddTimer 1 (three_timers\<lparr>timers := []\<rparr>) = Done 1 s' \<and> timers s' = [1]) \<and>
    (\<exists>s'. RemoveTime 2 three_timers = Done () s' \<and> timers s' = [1, 3])"
proof (intro conjI)
  let ?s = "three_timers\<lparr>theap := (theap three_timers)(4 \<mapsto> one_timer 15 4)\<rparr>" and ?e = "three_timers\<lparr>timers := []\<rparr>"
  have inv: "tq_inv ?s" "tq_inv ?e"
    by (auto simp: tq_inv_def tlive_def tq_ordered_def serials_distinct_def three_timers_def one_timer_def
      timer_cmp_def split: if_splits)
  have f: "4 \<notin> set (timers ?s) \<and> theap ?s 4 \<noteq> None" "1 \<notin> set (timers ?e) \<and> theap ?e 1 \<noteq> None" "2 \<in> set (timers three_timers)"
    "timers ?s = [1, 2, 3]" "timers ?e = []" "timers three_timers = [1, 2, 3]"
    by (simp_all add: three_timers_def)
  obtain s' xs ys where "AddTimer 4 ?s = Done 4 s'" "timers ?s = xs @ ys" "timers s' = xs @ 4 # ys"
    using queue_operations_keep_order [OF inv(1)] f(1) by blast
  moreover from this have "set (timers s') = insert 4 (set (timers ?s))" by simp
  then have "set (timers s') = {1, 2, 3, 4}" unfolding f(4) by auto
  ultimately show "\<exists>s'. AddTimer 4 ?s = Done 4 s' \<and> set (timers s') = {1, 2, 3, 4}" by blast
  obtain s' xs ys where "AddTimer 1 ?e = Done 1 s'" "timers ?e = xs @ ys" "timers s' = xs @ 1 # ys"
    using queue_operations_keep_order [OF inv(2)] f(2) by blast
  then show "\<exists>s'. AddTimer 1 ?e = Done 1 s' \<and> timers s' = [1]" using f(5) by simp
  obtain s' where "RemoveTime 2 three_timers = Done () s'"
    "s' = three_timers\<lparr>timers := removeAll 2 (timers three_timers), theap := (theap three_timers)(2 := None)\<rparr>"
    using queue_operations_keep_order [OF three_timers_inv] f(3) by blast
  then show "\<exists>s'. RemoveTime 2 three_timers = Done () s' \<and> timers s' = [1, 3]" using f(6) by simp
qed

section \<open>Repeating timers\<close>

text \<open>
  C18. A timer of \<open>runRepeat\<close> with count \<open>n\<close> that is alone in the queue, triggered at times at least one interval apart
  from its expiration on, runs its callback once at each of the first \<open>n\<close> times and is gone
  after the last one. (Beside other timers it may be held back, as C20 shows.)
\<close>

theorem repeat_fires_n_times:
  assumes "timers s = [p]" and "theap s p = Some t" and "repeat t = int n" and "0 < n"
    and "0 \<le> interval t" and "2 \<le> fuel" and "spaced (interval t) xs"
    and "xs \<noteq> [] \<longrightarrow> expiration t \<le> hd xs" and "length xs \<le> n"
  shows "\<exists>s'. trigger_at (outside f) fuel xs s = Done () s' \<and>
    timer_state.more s' = ((f (timer_cb t)) ^^ length xs) (timer_state.more s) \<and>
    timers s' = (if length xs = n then [] else [p])"
  using trigger_at_repeat [OF assms(1-7) _ assms(9)] assms(8) by blast

definition repeat_three :: "(nat, nat list) timer_state_scheme" where
  "repeat_three = \<lparr>theap = [1 \<mapsto> \<lparr>repeat = 3, interval = 10, expiration = 10, timerSerial = 1, timer_cb = 7\<rparr>],
     timers = [1], nextSerial = 1, clock = [], last_now = 0, \<dots> = []\<rparr>"

lemma repeat_fires_n_times_witness:
  "\<exists>s'. trigger_at (outside (\<lambda>c l. l @ [c])) 2 [10, 20, 35] repeat_three = Done () s' \<and>
    timer_state.more s' = [7, 7, 7] \<and> timers s' = []"
  using repeat_fires_n_times [of repeat_three 1 "\<lparr>repeat = 3, interval = 10, expiration = 10, timerSerial = 1, timer_cb = 7\<rparr>"
      3 2 "[10, 20, 35]" "\<lambda>c l. l @ [c]"]
  by (simp add: repeat_three_def numeral_3_eq_3)

text \<open>
  C20. A repeating timer is given its next expiration while it stays in its place of the set.
  With a second timer that expires in between, the set is then out of order, and the second
  timer does not fire when it is due: the pass at time \<open>y\<close> stops at the first one.
\<close>

theorem moved_timer_starves_the_next:
  assumes "timers s = [a, b]" and "a \<noteq> b" and "theap s a = Some ta" and "theap s b = Some tb"
    and "repeat ta = -1" and "expiration ta \<le> x" and "x < expiration tb" and "x \<le> expiration ta + interval ta"
    and "expiration tb \<le> y" and "y < expiration ta + interval ta" and "3 \<le> fuel"
  shows "\<exists>s'. triggerTimer (outside f) fuel (set_clock x s) = Done () s' \<and> \<not> tq_ordered s' \<and>
    b \<in> set (timers s') \<and> due y s' b \<and>
    triggerTimer (outside f) fuel (set_clock y s') = Done () (set_clock y s')"
proof -
  have "expiration tb < expiration ta + interval ta" using assms(9,10) by simp
  from trigger_moves_in_place [OF assms(1-8) this assms(11), of f] obtain s' where s':
    "triggerTimer (outside f) fuel (set_clock x s) = Done () s'" "timers s' = [a, b]"
    "theap s' = (theap s)(a \<mapsto> ta\<lparr>expiration := expiration ta + interval ta\<rparr>)" "\<not> tq_ordered s'"
    by blast
  have "triggerTimer (outside f) fuel (set_clock y s') = Done () (set_clock y s')"
    by (rule trigger_stops_at_head [OF s'(2)]) (use s' assms(10,11) in auto)
  then show ?thesis
    using s' assms(2,4,9) by (auto simp: due_def)
qed

definition every_and_once :: "(nat, nat list) timer_state_scheme" where
  "every_and_once = \<lparr>theap = [1 \<mapsto> \<lparr>repeat = -1, interval = 100, expiration = 100, timerSerial = 1, timer_cb = 1\<rparr>,
      2 \<mapsto> one_timer 150 2], timers = [1, 2], nextSerial = 2, clock = [], last_now = 0, \<dots> = []\<rparr>"

lemma moved_timer_starves_the_next_witness:
  "\<exists>s'. triggerTimer (outside (\<lambda>c l. l @ [c])) 3 (set_clock 100 every_and_once) = Done () s' \<and> due 180 s' 2 \<and>
    triggerTimer (outside (\<lambda>c l. l @ [c])) 3 (set_clock 180 s') = Done () (set_clock 180 s')"
  using moved_timer_starves_the_next [of every_and_once 1 2
      "\<lparr>repeat = -1, interval = 100, expiration = 100, timerSerial = 1, timer_cb = 1\<rparr>" "one_timer 150 2"
      100 180 3 "\<lambda>c l. l @ [c]"]
  by (auto simp: every_and_once_def one_timer_def)

end
