(* ===== verification/Closures.thy ===== *)
theory Closures
  imports Prelude
begin

text \<open>
  The function objects of the program. Every \<^verbatim>\<open>std::bind\<close> expression of
  \<^verbatim>\<open>base/\<close> and \<^verbatim>\<open>net/\<close> is a constructor that carries what it binds; a
  connection, a connector or a listener is named by the number of its object, and \<open>UserFn\<close>
  stands for a function object that the user of the library supplies. A handler that calls a
  function object takes an interpreter of closures as an argument.
\<close>

datatype closure =
    LoopWakeUp
  | ConnHandleEvent nat
  | ConnSendMsgToBuffer nat "byte list"
  | ConnCloseConn nat
  | ConnCloseConnection nat
  | ConnMakeConnected nat
  | ConnSetClosed nat
  | ConnSetCloseCb nat closure
  | ConnectorBeforeConnect nat
  | ConnectorOnEvent nat
  | ConnectorOnReConnect nat
  | ListenerAddEvents
  | ListenerHandleEvent
  | ServerAcceptNew
  | ServerDecode
  | ServerMessage
  | ServerSentBytes
  | ServerClosed
  | ServerFinished
  | ServerDoClose nat
  | ServerDoSend int "byte list"
  | GroupHandleConnected
  | ClientConnected
  | ClientDecode
  | ClientMessage
  | ClientSentBytes
  | ClientClosed
  | ClientFinished
  | ClientDoClose nat
  | ClientCloseConnection "nat option"
  | UserFn nat

text \<open>\<^verbatim>\<open>xFunctor\<close>, what the loop thread is asked to run: a timer operation or another closure.\<close>

datatype xFunctor = FAddTimer nat | FRemoveTimer nat | FCall closure

end
