(* ===== verification/Epoller.thy ===== *)
theory Epoller
  imports Timer Closures
begin

unbundle bit_operations_syntax

text \<open>
  \<^verbatim>\<open>base/include/epoller.h\<close> and \<^verbatim>\<open>base/epoller.cpp\<close>: the wrapper of
  \<^verbatim>\<open>epoll\<close>. \<^verbatim>\<open>epoll_ctl\<close> is an argument \<open>ctl\<close> that acts on a state \<open>kern\<close> of
  the kernel; the answers of \<^verbatim>\<open>epoll_wait\<close> are an input. The \<^verbatim>\<open>fireTime\<close> of an
  event is written at construction and never read, and is left out.
\<close>

section \<open>Events and masks\<close>

definition XE_NONE :: int32 where "XE_NONE = 0"
definition XE_READABLE :: int32 where "XE_READABLE = 1"
definition XE_WRITABLE :: int32 where "XE_WRITABLE = 2"
definition XE_BARRIER :: int32 where "XE_BARRIER = 4"
definition XE_ERROR :: int32 where "XE_ERROR = 8"
definition XE_HUP :: int32 where "XE_HUP = 16"

text \<open>The constants of \<^verbatim>\<open>sys/epoll.h\<close> that the code uses.\<close>

definition EPOLLIN :: int32 where "EPOLLIN = 1"
definition EPOLLPRI :: int32 where "EPOLLPRI = 2"
definition EPOLLOUT :: int32 where "EPOLLOUT = 4"
definition EPOLLERR :: int32 where "EPOLLERR = 8"
definition EPOLLHUP :: int32 where "EPOLLHUP = 16"
definition EPOLLRDHUP :: int32 where "EPOLLRDHUP = 8192"

lemmas mask_defs = XE_NONE_def XE_READABLE_def XE_WRITABLE_def XE_BARRIER_def XE_ERROR_def XE_HUP_def
  EPOLLIN_def EPOLLPRI_def EPOLLOUT_def EPOLLERR_def EPOLLHUP_def EPOLLRDHUP_def

definition has :: "int32 \<Rightarrow> int32 \<Rightarrow> bool" where
  "has msk flag \<longleftrightarrow> msk AND flag \<noteq> 0"

record xEvent =
  efd :: int
  emask :: int32
  edata :: int

text \<open>
  \<^verbatim>\<open>struct epoll_event\<close>: its \<^verbatim>\<open>data\<close> is a union, here the 64 bits; \<^verbatim>\<open>fd\<close> is
  the lower half.
\<close>

record epoll_event =
  ev_events :: int32
  ev_data :: "64 word"

definition data_of_fd :: "int \<Rightarrow> 64 word" where
  "data_of_fd fd = ucast (of_int fd :: 32 word)"

definition fd_of_data :: "64 word \<Rightarrow> int" where
  "fd_of_data d = sint (ucast d :: 32 word)"

definition mask_of_events :: "int32 \<Rightarrow> int32" where
  "mask_of_events events =
     (let m0 = 0;
          m1 = (if has events EPOLLIN then m0 OR XE_READABLE else m0);
          m2 = (if has events EPOLLOUT then m1 OR XE_WRITABLE else m1);
          m3 = (if has events EPOLLERR then m2 OR XE_ERROR else m2)
      in if has events EPOLLHUP then m3 OR XE_HUP else m3)"

definition events_of_mask :: "int32 \<Rightarrow> int32" where
  "events_of_mask emsk =
     (let m1 = (if has emsk XE_READABLE then 0 OR EPOLLIN else 0)
      in if has emsk XE_WRITABLE then m1 OR EPOLLOUT else m1)"

definition xEvent_of_epoll :: "epoll_event \<Rightarrow> xEvent" where
  "xEvent_of_epoll e =
     \<lparr>efd = fd_of_data (ev_data e), emask = mask_of_events (ev_events e), edata = sint (ev_data e)\<rparr>"

section \<open>The poller\<close>

record xEpoller =
  ep_fd :: int
  max_connections :: int
  ep_events :: "nat option"

datatype ctl_op = EPOLL_CTL_ADD | EPOLL_CTL_MOD | EPOLL_CTL_DEL

type_synonym 'k epoll_ctl = "int \<Rightarrow> ctl_op \<Rightarrow> int \<Rightarrow> epoll_event \<Rightarrow> 'k \<Rightarrow> int \<times> 'k"

record 'k poll_state = "closure timer_state" +
  kern :: 'k
  poller :: xEpoller
  epoll_answers :: "epoll_event list list"

definition xEpoller_init :: xEpoller where
  "xEpoller_init = \<lparr>ep_fd = -1, max_connections = 0, ep_events = None\<rparr>"

text \<open>
  The array of events comes from \<^verbatim>\<open>new[]\<close> and goes with a plain \<^verbatim>\<open>delete\<close>, which the
  language leaves undefined. \<open>created\<close> is what \<^verbatim>\<open>epoll_create\<close> returns; the array of events is
  its length. The destructor forgets the descriptor without closing it.
\<close>

definition delete_events :: "xEpoller \<Rightarrow> fault + unit" where
  "delete_events p = (if ep_events p \<noteq> None then Inl Undefined else Inr ())"

definition poller_Create :: "int \<Rightarrow> int \<Rightarrow> xEpoller \<Rightarrow> fault + int \<times> xEpoller" where
  "poller_Create created max_conn p =
     bindE (assertE (created > 0)) (\<lambda>_.
     bindE (delete_events p) (\<lambda>_.
       Inr (0, p\<lparr>max_connections := max_conn, ep_fd := created, ep_events := Some (nat (max_conn + 1))\<rparr>)))"

definition poller_destroy :: "xEpoller \<Rightarrow> fault + xEpoller" where
  "poller_destroy p =
     bindE (delete_events p) (\<lambda>_.
       Inr (p\<lparr>ep_events := None, ep_fd := (if ep_fd p > 0 then -1 else ep_fd p), max_connections := 0\<rparr>))"

lemma created_poller_destroy: "poller_Create created n xEpoller_init = Inr (r, p) \<Longrightarrow> poller_destroy p = Inl Undefined"
  by (auto simp: poller_Create_def poller_destroy_def delete_events_def xEpoller_init_def assertE_def split: if_splits)

text \<open>\<open>data\<close> is not used: the event carries the descriptor in its union.\<close>

definition poller_ctrl ::
    "'k epoll_ctl \<Rightarrow> int \<Rightarrow> int \<Rightarrow> int32 \<Rightarrow> ctl_op \<Rightarrow> ('k, 'z) poll_state_scheme \<Rightarrow>
     (unit, ('k, 'z) poll_state_scheme) outcome" where
  "poller_ctrl ctl fd data msk op s =
     (let ev = \<lparr>ev_events = msk, ev_data = data_of_fd fd\<rparr>;
          (rc, k) = ctl (ep_fd (poller s)) op fd ev (kern s)
      in assertS (rc = 0) (s\<lparr>kern := k\<rparr>))"

definition poller_Add ::
    "'k epoll_ctl \<Rightarrow> xEvent \<Rightarrow> ('k, 'z) poll_state_scheme \<Rightarrow> (unit, ('k, 'z) poll_state_scheme) outcome" where
  "poller_Add ctl xe s = poller_ctrl ctl (efd xe) (edata xe) (events_of_mask (emask xe)) EPOLL_CTL_ADD s"

definition poller_Modify ::
    "'k epoll_ctl \<Rightarrow> xEvent \<Rightarrow> ('k, 'z) poll_state_scheme \<Rightarrow> (unit, ('k, 'z) poll_state_scheme) outcome" where
  "poller_Modify ctl xe s = poller_ctrl ctl (efd xe) (edata xe) (events_of_mask (emask xe)) EPOLL_CTL_MOD s"

definition poller_Delete ::
    "'k epoll_ctl \<Rightarrow> xEvent \<Rightarrow> ('k, 'z) poll_state_scheme \<Rightarrow> (unit, ('k, 'z) poll_state_scheme) outcome" where
  "poller_Delete ctl xe s = poller_ctrl ctl (efd xe) (edata xe) 0 EPOLL_CTL_DEL s"

text \<open>
  \<^verbatim>\<open>Wait\<close>: the kernel fills at most \<open>max_connections + 1\<close> entries; no entry stands for a
  timeout as for an error, which the code treats alike.
\<close>

definition poller_Wait :: "('k, 'z) poll_state_scheme \<Rightarrow> xEvent list \<Rightarrow> nat \<times> xEvent list \<times> ('k, 'z) poll_state_scheme" where
  "poller_Wait s lxe =
     (let (answer, s1) =
            (case epoll_answers s of [] \<Rightarrow> ([], s) | a # rest \<Rightarrow> (a, s\<lparr>epoll_answers := rest\<rparr>));
          evs = take (nat (max_connections (poller s) + 1)) answer
      in (length evs, lxe @ map xEvent_of_epoll evs, s1))"

text \<open>\<^verbatim>\<open>eventToStr\<close>; the decimal form of the descriptor is an argument.\<close>

definition eventToStr :: "(int \<Rightarrow> string) \<Rightarrow> int \<Rightarrow> int32 \<Rightarrow> string" where
  "eventToStr dec fd msk =
     dec fd @ '': '' @
     (if has msk EPOLLIN then ''POLLIN '' else []) @
     (if has msk EPOLLPRI then ''POLLPRI '' else []) @
     (if has msk EPOLLOUT then ''POLLOUT '' else []) @
     (if has msk EPOLLHUP then ''POLLHUP '' else []) @
     (if has msk EPOLLRDHUP then ''POLLRDHUP '' else []) @
     (if has msk EPOLLERR then ''POLLERR '' else [])"

section \<open>What the kernel promises\<close>

text \<open>
  \<open>epoll_ctl(2)\<close>: the interest list of a kernel state is a map from descriptors to events
  (\<open>view\<close>). Adding succeeds for a usable descriptor that is not in it, modifying and deleting
  for one that is; a call that fails returns \<open>-1\<close> and changes nothing.
\<close>

definition epoll_ctl_spec :: "'k epoll_ctl \<Rightarrow> ('k \<Rightarrow> int \<Rightarrow> int32 option) \<Rightarrow> (int \<Rightarrow> bool) \<Rightarrow> bool" where
  "epoll_ctl_spec ctl view usable \<longleftrightarrow>
     (\<forall>ep op fd ev k.
        let (rc, k') = ctl ep op fd ev k;
            possible = (case op of EPOLL_CTL_ADD \<Rightarrow> usable fd \<and> view k fd = None
                                 | _ \<Rightarrow> view k fd \<noteq> None)
        in rc = (if possible then 0 else -1) \<and>
           view k' = (if possible
                      then (view k)(fd := (case op of EPOLL_CTL_DEL \<Rightarrow> None | _ \<Rightarrow> Some (ev_events ev)))
                      else view k))"

text \<open>A kernel that is its interest list, for concrete runs.\<close>

fun map_ctl :: "(int \<Rightarrow> int32 option) epoll_ctl" where
  "map_ctl ep EPOLL_CTL_ADD fd ev m = (if m fd = None then (0, m(fd \<mapsto> ev_events ev)) else (-1, m))"
| "map_ctl ep EPOLL_CTL_MOD fd ev m = (if m fd = None then (-1, m) else (0, m(fd \<mapsto> ev_events ev)))"
| "map_ctl ep EPOLL_CTL_DEL fd ev m = (if m fd = None then (-1, m) else (0, m(fd := None)))"

lemma map_ctl_spec: "epoll_ctl_spec map_ctl (\<lambda>m. m) (\<lambda>_. True)"
  unfolding epoll_ctl_spec_def
proof (intro allI)
  fix ep op fd ev k
  show "let (rc, k') = map_ctl ep op fd ev k;
            possible = (case op of EPOLL_CTL_ADD \<Rightarrow> True \<and> k fd = None | _ \<Rightarrow> k fd \<noteq> None)
        in rc = (if possible then 0 else -1) \<and>
           k' = (if possible
                      then k(fd := (case op of EPOLL_CTL_DEL \<Rightarrow> None | _ \<Rightarrow> Some (ev_events ev)))
                      else k)"
    by (cases op) simp_all
qed

lemma poller_ctrl_Done:
  assumes "epoll_ctl_spec ctl view usable"
    and "case op of EPOLL_CTL_ADD \<Rightarrow> usable fd \<and> view (kern s) fd = None | _ \<Rightarrow> view (kern s) fd \<noteq> None"
  obtains k where "poller_ctrl ctl fd data msk op s = Done () (s\<lparr>kern := k\<rparr>)"
    and "view k = (view (kern s))(fd := (case op of EPOLL_CTL_DEL \<Rightarrow> None | _ \<Rightarrow> Some msk))"
proof -
  let ?ev = "\<lparr>ev_events = msk, ev_data = data_of_fd fd\<rparr>"
  obtain rc k where k: "ctl (ep_fd (poller s)) op fd ?ev (kern s) = (rc, k)"
    by (cases "ctl (ep_fd (poller s)) op fd ?ev (kern s)")
  then have "rc = 0 \<and> view k = (view (kern s))(fd := (case op of EPOLL_CTL_DEL \<Rightarrow> None | _ \<Rightarrow> Some msk))"
    using assms(1) [unfolded epoll_ctl_spec_def, rule_format, of "ep_fd (poller s)" op fd ?ev "kern s"] assms(2)
    by (cases op) (simp_all add: Let_def)
  then show ?thesis
    using k by (intro that [of k]) (simp_all add: poller_ctrl_def)
qed

lemma has_zero [simp]: "\<not> has 0 f" "\<not> has m 0"
  by (simp_all add: has_def)

lemma has_or: "has (a OR b) f \<longleftrightarrow> has a f \<or> has b f"
  by (simp add: has_def bit.conj_disj_distrib2 or_eq_0_iff)

end
