(* ===== verification/Loop.thy ===== *)
theory Loop
  imports Epoller FileApi Endian
begin

text \<open>
  \<^verbatim>\<open>base/include/xloop.h\<close> and \<^verbatim>\<open>base/xloop.cpp\<close>: the event loop. It keeps the
  callbacks of the registered descriptors, the fired events of the current round, the
  functors that other threads have queued, and the timers. \<open>current\<close> is the thread that
  executes.
\<close>

section \<open>State\<close>

record xEventState =
  es_mask :: int32
  es_data :: int
  es_callback :: closure

definition setData :: "int32 \<Rightarrow> int \<Rightarrow> closure \<Rightarrow> xEventState \<Rightarrow> xEventState" where
  "setData m d c st = st\<lparr>es_mask := m, es_data := d, es_callback := c\<rparr>"

text \<open>
  Besides the members of \<^verbatim>\<open>xLoop\<close> the state has, per descriptor, the answers that the
  kernel will give to reads (\<open>rx\<close>) and writes (\<open>tx\<close>), and the bytes it has taken (\<open>wire\<close>).
\<close>

record 'k loop_state = "'k poll_state" +
  stop :: bool
  wakeupFd :: int
  threadId :: nat
  current :: nat
  register :: "int \<Rightarrow> xEventState option"
  fired :: "xEvent list"
  extraEvents :: "xFunctor list"
  rx :: "int \<Rightarrow> rd_res list"
  tx :: "int \<Rightarrow> wr_res list"
  wire :: "int \<Rightarrow> byte list"

definition isLoopThread :: "('k, 'z) loop_state_scheme \<Rightarrow> bool" where
  "isLoopThread s \<longleftrightarrow> current s = threadId s"

definition loop_stop :: "('k, 'z) loop_state_scheme \<Rightarrow> ('k, 'z) loop_state_scheme" where
  "loop_stop s = s\<lparr>stop := True\<rparr>"

section \<open>Descriptors through the file API\<close>

definition sys_write :: "int \<Rightarrow> byte list \<Rightarrow> int \<Rightarrow> ('k, 'z) loop_state_scheme \<Rightarrow> (io_ret, ('k, 'z) loop_state_scheme) outcome" where
  "sys_write fd mem count s =
     (case writeFd (tx s fd) mem count of
        Inl f \<Rightarrow> Crash f
      | Inr (r, acc, ws) \<Rightarrow> Done r (s\<lparr>tx := (tx s)(fd := ws), wire := (wire s)(fd := wire s fd @ acc)\<rparr>))"

definition sys_read :: "int \<Rightarrow> int \<Rightarrow> ('k, 'z) loop_state_scheme \<Rightarrow> (io_ret \<times> byte list, ('k, 'z) loop_state_scheme) outcome" where
  "sys_read fd count s =
     (case readFd (rx s fd) count of
        Inl f \<Rightarrow> Crash f
      | Inr (r, got, rs) \<Rightarrow> Done (r, got) (s\<lparr>rx := (rx s)(fd := rs)\<rparr>))"

definition notify :: "('k, 'z) loop_state_scheme \<Rightarrow> (unit, ('k, 'z) loop_state_scheme) outcome" where
  "notify s = bindS (sys_write (wakeupFd s) (mem_bytes (1 :: 64 word)) 8 s) (\<lambda>_ s'. Done () s')"

definition wakeUpCallBack :: "xEvent \<Rightarrow> ('k, 'z) loop_state_scheme \<Rightarrow> (unit, ('k, 'z) loop_state_scheme) outcome" where
  "wakeUpCallBack xe s = bindS (sys_read (wakeupFd s) 8 s) (\<lambda>_ s'. Done () s')"

section \<open>Registration\<close>

definition loop_reg ::
    "'k epoll_ctl \<Rightarrow> int \<Rightarrow> int \<Rightarrow> int32 \<Rightarrow> closure \<Rightarrow> ('k, 'z) loop_state_scheme \<Rightarrow>
     (int, ('k, 'z) loop_state_scheme) outcome" where
  "loop_reg ctl fd data msk callback s =
     bindS (assertS (isLoopThread s) s) (\<lambda>_ s.
       let modi = (register s fd \<noteq> None);
           xes = (case register s fd of
                    Some st \<Rightarrow> setData msk data callback st
                  | None \<Rightarrow> \<lparr>es_mask = msk, es_data = data, es_callback = callback\<rparr>);
           s1 = s\<lparr>register := (register s)(fd \<mapsto> xes)\<rparr>;
           xe = \<lparr>efd = fd, emask = msk, edata = data\<rparr>
       in bindS (if modi then poller_Modify ctl xe s1 else poller_Add ctl xe s1) (\<lambda>_ s2. Done 0 s2))"

definition loop_remove ::
    "'k epoll_ctl \<Rightarrow> int \<Rightarrow> ('k, 'z) loop_state_scheme \<Rightarrow> (int, ('k, 'z) loop_state_scheme) outcome" where
  "loop_remove ctl fd s =
     bindS (assertS (isLoopThread s) s) (\<lambda>_ s.
       case register s fd of
         None \<Rightarrow> Done 0 s
       | Some xes \<Rightarrow>
           bindS (poller_Delete ctl \<lparr>efd = fd, emask = XE_NONE, edata = es_data xes\<rparr> s) (\<lambda>_ s1.
             Done 0 (s1\<lparr>register := (register s1)(fd := None)\<rparr>)))"

definition loop_addEvent ::
    "'k epoll_ctl \<Rightarrow> int \<Rightarrow> int32 \<Rightarrow> ('k, 'z) loop_state_scheme \<Rightarrow> (int, ('k, 'z) loop_state_scheme) outcome" where
  "loop_addEvent ctl fd msk s =
     bindS (assertS (isLoopThread s) s) (\<lambda>_ s.
       case register s fd of
         None \<Rightarrow> Done 0 s
       | Some xes \<Rightarrow>
           if es_mask xes AND msk \<noteq> 0 then Done 0 s
           else
             let xes1 = xes\<lparr>es_mask := es_mask xes OR msk\<rparr>;
                 s1 = s\<lparr>register := (register s)(fd \<mapsto> xes1)\<rparr>
             in bindS (poller_Modify ctl \<lparr>efd = fd, emask = es_mask xes1, edata = es_data xes1\<rparr> s1)
                  (\<lambda>_ s2. Done 0 s2))"

text \<open>The complement of the mask is or-ed into the registered mask, as the source has it.\<close>

definition loop_removeEvent ::
    "'k epoll_ctl \<Rightarrow> int \<Rightarrow> int32 \<Rightarrow> ('k, 'z) loop_state_scheme \<Rightarrow> (int, ('k, 'z) loop_state_scheme) outcome" where
  "loop_removeEvent ctl fd msk s =
     bindS (assertS (isLoopThread s) s) (\<lambda>_ s.
       case register s fd of
         None \<Rightarrow> Done 0 s
       | Some xes \<Rightarrow>
           if es_mask xes AND msk = 0 then Done 0 s
           else
             let xes1 = xes\<lparr>es_mask := es_mask xes OR (NOT msk)\<rparr>;
                 s1 = s\<lparr>register := (register s)(fd \<mapsto> xes1)\<rparr>
             in if es_mask xes1 = XE_NONE then loop_remove ctl fd s1
                else bindS (poller_Modify ctl \<lparr>efd = fd, emask = es_mask xes1, edata = es_data xes1\<rparr> s1)
                       (\<lambda>_ s2. Done 0 s2))"

section \<open>Functors and timers from other threads\<close>

definition run_functor ::
    "(closure \<Rightarrow> ('k, 'z) loop_state_scheme \<Rightarrow> (unit, ('k, 'z) loop_state_scheme) outcome) \<Rightarrow>
     xFunctor \<Rightarrow> ('k, 'z) loop_state_scheme \<Rightarrow> (unit, ('k, 'z) loop_state_scheme) outcome" where
  "run_functor call f s =
     (case f of
        FAddTimer p \<Rightarrow> bindS (AddTimer p s) (\<lambda>_ s'. Done () s')
      | FRemoveTimer p \<Rightarrow> RemoveTime p s
      | FCall c \<Rightarrow> call c s)"

definition scheduleToLoopThread ::
    "(closure \<Rightarrow> ('k, 'z) loop_state_scheme \<Rightarrow> (unit, ('k, 'z) loop_state_scheme) outcome) \<Rightarrow>
     xFunctor \<Rightarrow> ('k, 'z) loop_state_scheme \<Rightarrow> (unit, ('k, 'z) loop_state_scheme) outcome" where
  "scheduleToLoopThread call handle s =
     (if isLoopThread s then run_functor call handle s
      else notify (s\<lparr>extraEvents := extraEvents s @ [handle]\<rparr>))"

text \<open>
  The timer functions return the id, the address \<open>p\<close> that the allocation gives. The
  expiration of \<open>runAt\<close> is a 32-bit \<^verbatim>\<open>int\<close>.
\<close>

definition runAfter ::
    "(closure \<Rightarrow> ('k, 'z) loop_state_scheme \<Rightarrow> (unit, ('k, 'z) loop_state_scheme) outcome) \<Rightarrow>
     ptr \<Rightarrow> int32 \<Rightarrow> closure \<Rightarrow> ('k, 'z) loop_state_scheme \<Rightarrow> (ptr, ('k, 'z) loop_state_scheme) outcome" where
  "runAfter call p ival cb s =
     (let (now, s1) = TNOWMS s; s2 = new_timer_at p (now + sint ival) cb s1
      in bindS (scheduleToLoopThread call (FAddTimer p) s2) (\<lambda>_ s3. Done p s3))"

definition runAt ::
    "(closure \<Rightarrow> ('k, 'z) loop_state_scheme \<Rightarrow> (unit, ('k, 'z) loop_state_scheme) outcome) \<Rightarrow>
     ptr \<Rightarrow> int32 \<Rightarrow> closure \<Rightarrow> ('k, 'z) loop_state_scheme \<Rightarrow> (ptr, ('k, 'z) loop_state_scheme) outcome" where
  "runAt call p expire cb s =
     (let s1 = new_timer_at p (sint expire) cb s
      in bindS (scheduleToLoopThread call (FAddTimer p) s1) (\<lambda>_ s2. Done p s2))"

definition runEvery ::
    "(closure \<Rightarrow> ('k, 'z) loop_state_scheme \<Rightarrow> (unit, ('k, 'z) loop_state_scheme) outcome) \<Rightarrow>
     ptr \<Rightarrow> int32 \<Rightarrow> closure \<Rightarrow> ('k, 'z) loop_state_scheme \<Rightarrow> (ptr, ('k, 'z) loop_state_scheme) outcome" where
  "runEvery call p ival cb s =
     (let s1 = new_timer_repeat p (-1) (sint ival) cb s
      in bindS (scheduleToLoopThread call (FAddTimer p) s1) (\<lambda>_ s2. Done p s2))"

definition runRepeat ::
    "(closure \<Rightarrow> ('k, 'z) loop_state_scheme \<Rightarrow> (unit, ('k, 'z) loop_state_scheme) outcome) \<Rightarrow>
     ptr \<Rightarrow> int32 \<Rightarrow> int32 \<Rightarrow> closure \<Rightarrow> ('k, 'z) loop_state_scheme \<Rightarrow> (ptr, ('k, 'z) loop_state_scheme) outcome" where
  "runRepeat call p rep ival cb s =
     bindS (assertS (sint rep > 0) s) (\<lambda>_ s.
       let s1 = new_timer_repeat p (sint rep) (sint ival) cb s
       in bindS (scheduleToLoopThread call (FAddTimer p) s1) (\<lambda>_ s2. Done p s2))"

definition removeTimer ::
    "(closure \<Rightarrow> ('k, 'z) loop_state_scheme \<Rightarrow> (unit, ('k, 'z) loop_state_scheme) outcome) \<Rightarrow>
     ptr \<Rightarrow> ('k, 'z) loop_state_scheme \<Rightarrow> (unit, ('k, 'z) loop_state_scheme) outcome" where
  "removeTimer call p s = scheduleToLoopThread call (FRemoveTimer p) s"

section \<open>A round of the loop\<close>

text \<open>
  The fired events are handled from the front; the event stays in the list until its callback
  has returned. The fuel is the length of the list, which no callback changes.
\<close>

definition dispatch_front ::
    "(closure \<Rightarrow> xEvent \<Rightarrow> ('k, 'z) loop_state_scheme \<Rightarrow> (unit, ('k, 'z) loop_state_scheme) outcome) \<Rightarrow>
     ('k, 'z) loop_state_scheme \<Rightarrow> (unit, ('k, 'z) loop_state_scheme) outcome" where
  "dispatch_front on_event s =
     (let xe = hd (fired s) in
      bindS (case register s (efd xe) of
               Some st \<Rightarrow> on_event (es_callback st) xe s
             | None \<Rightarrow> Done () s)
        (\<lambda>_ s1. Done () (s1\<lparr>fired := tl (fired s1)\<rparr>)))"

fun dispatch_loop ::
    "(closure \<Rightarrow> xEvent \<Rightarrow> ('k, 'z) loop_state_scheme \<Rightarrow> (unit, ('k, 'z) loop_state_scheme) outcome) \<Rightarrow>
     nat \<Rightarrow> ('k, 'z) loop_state_scheme \<Rightarrow> (unit, ('k, 'z) loop_state_scheme) outcome" where
  "dispatch_loop on_event 0 s = (if fired s = [] then Done () s else Diverge)"
| "dispatch_loop on_event (Suc n) s =
     (if fired s = [] then Done () s
      else bindS (dispatch_front on_event s) (\<lambda>_ s1. dispatch_loop on_event n s1))"

fun run_functors ::
    "(closure \<Rightarrow> ('k, 'z) loop_state_scheme \<Rightarrow> (unit, ('k, 'z) loop_state_scheme) outcome) \<Rightarrow>
     xFunctor list \<Rightarrow> ('k, 'z) loop_state_scheme \<Rightarrow> (unit, ('k, 'z) loop_state_scheme) outcome" where
  "run_functors call [] s = Done () s"
| "run_functors call (f # fs) s = bindS (run_functor call f s) (\<lambda>_ s1. run_functors call fs s1)"

definition process ::
    "(closure \<Rightarrow> xEvent \<Rightarrow> ('k, 'z) loop_state_scheme \<Rightarrow> (unit, ('k, 'z) loop_state_scheme) outcome) \<Rightarrow>
     (closure \<Rightarrow> ('k, 'z) loop_state_scheme \<Rightarrow> (unit, ('k, 'z) loop_state_scheme) outcome) \<Rightarrow>
     nat \<Rightarrow> ('k, 'z) loop_state_scheme \<Rightarrow> (unit, ('k, 'z) loop_state_scheme) outcome" where
  "process on_event call fuel s =
     (let (eventnum, lxe, s0) = poller_Wait s (fired s); s1 = s0\<lparr>fired := lxe\<rparr> in
      bindS (dispatch_loop on_event (length (fired s1)) s1) (\<lambda>_ s2.
      bindS (run_functors call (extraEvents s2) s2) (\<lambda>_ s3.
        triggerTimer call fuel (s3\<lparr>extraEvents := []\<rparr>))))"

fun loop_start ::
    "(closure \<Rightarrow> xEvent \<Rightarrow> ('k, 'z) loop_state_scheme \<Rightarrow> (unit, ('k, 'z) loop_state_scheme) outcome) \<Rightarrow>
     (closure \<Rightarrow> ('k, 'z) loop_state_scheme \<Rightarrow> (unit, ('k, 'z) loop_state_scheme) outcome) \<Rightarrow>
     nat \<Rightarrow> nat \<Rightarrow> ('k, 'z) loop_state_scheme \<Rightarrow> (unit, ('k, 'z) loop_state_scheme) outcome" where
  "loop_start on_event call fuel 0 s = (if stop s then Done () s else Diverge)"
| "loop_start on_event call fuel (Suc n) s =
     (if stop s then Done () s
      else bindS (process on_event call fuel s) (\<lambda>_ s1. loop_start on_event call fuel n s1))"

text \<open>
  The constructor, on a state whose kernel part is given: \<open>evtfd\<close> and \<open>epfd\<close> are what
  \<^verbatim>\<open>eventfd\<close> and \<^verbatim>\<open>epoll_create\<close> return.
\<close>

definition createEventfd :: "int \<Rightarrow> ('k, 'z) loop_state_scheme \<Rightarrow> (int, ('k, 'z) loop_state_scheme) outcome" where
  "createEventfd evtfd s = (if evtfd < 0 then Crash Exited else Done evtfd s)"

definition xLoop_new ::
    "'k epoll_ctl \<Rightarrow> int \<Rightarrow> int \<Rightarrow> ('k, 'z) loop_state_scheme \<Rightarrow> (unit, ('k, 'z) loop_state_scheme) outcome" where
  "xLoop_new ctl evtfd epfd s =
     bindS (createEventfd evtfd s) (\<lambda>evtfd s.
        let s1 = s\<lparr>stop := False, wakeupFd := evtfd, threadId := current s, timers := [],
                   register := Map.empty, fired := [], extraEvents := []\<rparr>
        in bindS (liftS (poller_Create epfd 1023 xEpoller_init) s1) (\<lambda>(_, p) s2.
           bindS (loop_reg ctl evtfd 0 XE_READABLE LoopWakeUp (s2\<lparr>poller := p\<rparr>)) (\<lambda>_ s3. Done () s3)))"

section \<open>The registered masks and the kernel\<close>

text \<open>
  The kernel's interest list is the register, with each mask translated to the events of
  \<^verbatim>\<open>epoll\<close>.
\<close>

definition mirror :: "('k \<Rightarrow> int \<Rightarrow> int32 option) \<Rightarrow> ('k, 'z) loop_state_scheme \<Rightarrow> bool" where
  "mirror view s \<longleftrightarrow> view (kern s) = (\<lambda>fd. map_option (\<lambda>st. events_of_mask (es_mask st)) (register s fd))"

lemma mirror_view: "mirror view s \<Longrightarrow> view (kern s) fd = map_option (\<lambda>st. events_of_mask (es_mask st)) (register s fd)"
  by (simp add: mirror_def)

lemma loop_reg_ok:
  assumes "epoll_ctl_spec ctl view usable" and "mirror view s" and "isLoopThread s" and "usable fd"
  obtains k where "loop_reg ctl fd data msk cb s =
      Done 0 (s\<lparr>register := (register s)(fd \<mapsto> \<lparr>es_mask = msk, es_data = data, es_callback = cb\<rparr>), kern := k\<rparr>)"
    and "mirror view (s\<lparr>register := (register s)(fd \<mapsto> \<lparr>es_mask = msk, es_data = data, es_callback = cb\<rparr>), kern := k\<rparr>)"
proof -
  let ?st = "\<lparr>es_mask = msk, es_data = data, es_callback = cb\<rparr>"
  let ?s1 = "s\<lparr>register := (register s)(fd \<mapsto> ?st)\<rparr>"
  let ?op = "if register s fd \<noteq> None then EPOLL_CTL_MOD else EPOLL_CTL_ADD"
  have x: "(case register s fd of Some st \<Rightarrow> setData msk data cb st | None \<Rightarrow> ?st) = ?st"
    by (simp add: setData_def split: option.split)
  have possible: "case ?op of EPOLL_CTL_ADD \<Rightarrow> usable fd \<and> view (kern ?s1) fd = None | _ \<Rightarrow> view (kern ?s1) fd \<noteq> None"
    using assms(2,4) by (auto simp: mirror_view)
  obtain k where k: "poller_ctrl ctl fd data (events_of_mask msk) ?op ?s1 = Done () (?s1\<lparr>kern := k\<rparr>)"
    "view k = (view (kern ?s1))(fd := (case ?op of EPOLL_CTL_DEL \<Rightarrow> None | _ \<Rightarrow> Some (events_of_mask msk)))"
    using assms(1) possible by (rule poller_ctrl_Done)
  have "loop_reg ctl fd data msk cb s = Done 0 (?s1\<lparr>kern := k\<rparr>)"
    using assms(3) k(1) by (simp add: loop_reg_def x Let_def poller_Modify_def poller_Add_def split: if_splits)
  moreover have "mirror view (?s1\<lparr>kern := k\<rparr>)"
    using assms(2) k(2) by (auto simp: mirror_def)
  ultimately show ?thesis by (rule that)
qed

lemma loop_remove_ok:
  assumes "epoll_ctl_spec ctl view usable" and "mirror view s" and "isLoopThread s"
  obtains k where "loop_remove ctl fd s = Done 0 (s\<lparr>register := (register s)(fd := None), kern := k\<rparr>)"
    and "mirror view (s\<lparr>register := (register s)(fd := None), kern := k\<rparr>)"
proof (cases "register s fd")
  case None
  then have "loop_remove ctl fd s = Done 0 (s\<lparr>register := (register s)(fd := None), kern := kern s\<rparr>)"
    using assms(3) by (simp add: loop_remove_def fun_upd_idem)
  moreover have "mirror view (s\<lparr>register := (register s)(fd := None), kern := kern s\<rparr>)"
    using assms(2) None by (simp add: mirror_def fun_upd_idem)
  ultimately show ?thesis by (rule that)
next
  case (Some st)
  have possible: "case EPOLL_CTL_DEL of EPOLL_CTL_ADD \<Rightarrow> usable fd \<and> view (kern s) fd = None | _ \<Rightarrow> view (kern s) fd \<noteq> None"
    using assms(2) Some by (auto simp: mirror_view)
  obtain k where k: "poller_ctrl ctl fd (es_data st) 0 EPOLL_CTL_DEL s = Done () (s\<lparr>kern := k\<rparr>)"
    "view k = (view (kern s))(fd := (case EPOLL_CTL_DEL of EPOLL_CTL_DEL \<Rightarrow> None | _ \<Rightarrow> Some 0))"
    using assms(1) possible by (rule poller_ctrl_Done)
  have "loop_remove ctl fd s = Done 0 (s\<lparr>register := (register s)(fd := None), kern := k\<rparr>)"
    using assms(3) Some k(1) by (simp add: loop_remove_def poller_Delete_def)
  moreover have "mirror view (s\<lparr>register := (register s)(fd := None), kern := k\<rparr>)"
    using assms(2) k(2) by (auto simp: mirror_def)
  ultimately show ?thesis by (rule that)
qed

text \<open>Both changes of a registered mask go through the same modification.\<close>

lemma modify_registered:
  assumes "epoll_ctl_spec ctl view usable" and "mirror view s" and "register s fd = Some st"
    and "s1 = s\<lparr>register := (register s)(fd \<mapsto> st\<lparr>es_mask := m\<rparr>)\<rparr>"
  obtains k where "poller_Modify ctl \<lparr>efd = fd, emask = m, edata = d\<rparr> s1 = Done () (s1\<lparr>kern := k\<rparr>)"
    and "mirror view (s1\<lparr>kern := k\<rparr>)"
proof -
  have possible: "case EPOLL_CTL_MOD of EPOLL_CTL_ADD \<Rightarrow> usable fd \<and> view (kern s1) fd = None | _ \<Rightarrow> view (kern s1) fd \<noteq> None"
    using assms(2-4) by (auto simp: mirror_view)
  obtain k where k: "poller_ctrl ctl fd d (events_of_mask m) EPOLL_CTL_MOD s1 = Done () (s1\<lparr>kern := k\<rparr>)"
    "view k = (view (kern s1))(fd := (case EPOLL_CTL_MOD of EPOLL_CTL_DEL \<Rightarrow> None | _ \<Rightarrow> Some (events_of_mask m)))"
    using assms(1) possible by (rule poller_ctrl_Done)
  have "mirror view (s1\<lparr>kern := k\<rparr>)"
    using assms(2-4) k(2) by (auto simp: mirror_def)
  then show ?thesis
    using k(1) by (intro that [of k]) (simp_all add: poller_Modify_def)
qed

lemma loop_addEvent_ok:
  assumes "epoll_ctl_spec ctl view usable" and "mirror view s" and "isLoopThread s"
  obtains k where "loop_addEvent ctl fd m s = Done 0 (s\<lparr>register := (case register s fd of None \<Rightarrow> register s
        | Some st \<Rightarrow> if es_mask st AND m \<noteq> 0 then register s
                     else (register s)(fd \<mapsto> st\<lparr>es_mask := es_mask st OR m\<rparr>)), kern := k\<rparr>)"
    and "mirror view (s\<lparr>register := (case register s fd of None \<Rightarrow> register s
        | Some st \<Rightarrow> if es_mask st AND m \<noteq> 0 then register s
                     else (register s)(fd \<mapsto> st\<lparr>es_mask := es_mask st OR m\<rparr>)), kern := k\<rparr>)"
proof (cases "register s fd")
  case None
  then show ?thesis
    using assms by (intro that [of "kern s"]) (simp_all add: loop_addEvent_def)
next
  case (Some st)
  show ?thesis
  proof (cases "es_mask st AND m = 0")
    case False
    then show ?thesis
      using assms Some by (intro that [of "kern s"]) (simp_all add: loop_addEvent_def)
  next
    case True
    obtain k where "poller_Modify ctl \<lparr>efd = fd, emask = es_mask st OR m, edata = es_data st\<rparr>
        (s\<lparr>register := (register s)(fd \<mapsto> st\<lparr>es_mask := es_mask st OR m\<rparr>)\<rparr>) =
        Done () (s\<lparr>register := (register s)(fd \<mapsto> st\<lparr>es_mask := es_mask st OR m\<rparr>)\<rparr>\<lparr>kern := k\<rparr>)"
      "mirror view (s\<lparr>register := (register s)(fd \<mapsto> st\<lparr>es_mask := es_mask st OR m\<rparr>)\<rparr>\<lparr>kern := k\<rparr>)"
      using assms(1,2) Some refl by (rule modify_registered)
    then show ?thesis
      using assms(3) Some True by (intro that [of k]) (simp_all add: loop_addEvent_def Let_def)
  qed
qed

text \<open>
  \<open>removeEvent\<close>: or-ing with a complement clears no bit, so the new mask is never empty and
  the whole-descriptor removal is not reached.
\<close>

lemma or_not_ne_0: "(a AND m) \<noteq> 0 \<Longrightarrow> (a OR NOT m) \<noteq> (0::int32)"
  by (auto simp: or_eq_0_iff)

lemma or_not_and: "(a OR NOT m) AND m = (a AND m :: int32)"
  by (simp add: bit_eq_iff bit_simps) blast

lemma loop_removeEvent_ok:
  assumes "epoll_ctl_spec ctl view usable" and "mirror view s" and "isLoopThread s"
  obtains k where "loop_removeEvent ctl fd m s = Done 0 (s\<lparr>register := (case register s fd of None \<Rightarrow> register s
        | Some st \<Rightarrow> if es_mask st AND m = 0 then register s
                     else (register s)(fd \<mapsto> st\<lparr>es_mask := es_mask st OR NOT m\<rparr>)), kern := k\<rparr>)"
    and "mirror view (s\<lparr>register := (case register s fd of None \<Rightarrow> register s
        | Some st \<Rightarrow> if es_mask st AND m = 0 then register s
                     else (register s)(fd \<mapsto> st\<lparr>es_mask := es_mask st OR NOT m\<rparr>)), kern := k\<rparr>)"
proof (cases "register s fd")
  case None
  then show ?thesis
    using assms by (intro that [of "kern s"]) (simp_all add: loop_removeEvent_def)
next
  case (Some st)
  show ?thesis
  proof (cases "es_mask st AND m = 0")
    case True
    then show ?thesis
      using assms Some by (intro that [of "kern s"]) (simp_all add: loop_removeEvent_def)
  next
    case False
    let ?m = "es_mask st OR NOT m"
    obtain k where "poller_Modify ctl \<lparr>efd = fd, emask = ?m, edata = es_data st\<rparr>
        (s\<lparr>register := (register s)(fd \<mapsto> st\<lparr>es_mask := ?m\<rparr>)\<rparr>) =
        Done () (s\<lparr>register := (register s)(fd \<mapsto> st\<lparr>es_mask := ?m\<rparr>)\<rparr>\<lparr>kern := k\<rparr>)"
      "mirror view (s\<lparr>register := (register s)(fd \<mapsto> st\<lparr>es_mask := ?m\<rparr>)\<rparr>\<lparr>kern := k\<rparr>)"
      using assms(1,2) Some refl by (rule modify_registered)
    then show ?thesis
      using assms(3) Some False or_not_ne_0 [OF False]
      by (intro that [of k]) (simp_all add: loop_removeEvent_def Let_def XE_NONE_def)
  qed
qed

end
