(* ===== verification/Loop_Laws.thy ===== *)
theory Loop_Laws
  imports Loop
begin

text \<open>
  The four operations on registrations under one name (\<open>reg_do\<close>), next to what they do to the
  map of registrations alone (\<open>reg_spec\<close>). The loop thread can always run them, and the kernel
  follows.
\<close>

datatype reg_op = Reg int int int32 closure | Unreg int | AddEv int int32 | RemoveEv int int32

fun reg_do :: "'k epoll_ctl \<Rightarrow> reg_op \<Rightarrow> ('k, 'z) loop_state_scheme \<Rightarrow> (int, ('k, 'z) loop_state_scheme) outcome" where
  "reg_do ctl (Reg fd d m cb) s = loop_reg ctl fd d m cb s"
| "reg_do ctl (Unreg fd) s = loop_remove ctl fd s"
| "reg_do ctl (AddEv fd m) s = loop_addEvent ctl fd m s"
| "reg_do ctl (RemoveEv fd m) s = loop_removeEvent ctl fd m s"

fun reg_run :: "'k epoll_ctl \<Rightarrow> reg_op list \<Rightarrow> ('k, 'z) loop_state_scheme \<Rightarrow> (unit, ('k, 'z) loop_state_scheme) outcome" where
  "reg_run ctl [] s = Done () s"
| "reg_run ctl (e # es) s = bindS (reg_do ctl e s) (\<lambda>_. reg_run ctl es)"

text \<open>The same operations on the map of registrations alone.\<close>

fun reg_spec :: "reg_op \<Rightarrow> (int \<Rightarrow> xEventState option) \<Rightarrow> int \<Rightarrow> xEventState option" where
  "reg_spec (Reg fd d m cb) r = r(fd \<mapsto> \<lparr>es_mask = m, es_data = d, es_callback = cb\<rparr>)"
| "reg_spec (Unreg fd) r = r(fd := None)"
| "reg_spec (AddEv fd m) r =
     (case r fd of None \<Rightarrow> r
      | Some st \<Rightarrow> if es_mask st AND m \<noteq> 0 then r else r(fd \<mapsto> st\<lparr>es_mask := es_mask st OR m\<rparr>))"
| "reg_spec (RemoveEv fd m) r =
     (case r fd of None \<Rightarrow> r
      | Some st \<Rightarrow> if es_mask st AND m = 0 then r else r(fd \<mapsto> st\<lparr>es_mask := es_mask st OR NOT m\<rparr>))"

fun op_fd :: "reg_op \<Rightarrow> int" where
  "op_fd (Reg fd _ _ _) = fd"
| "op_fd (Unreg fd) = fd"
| "op_fd (AddEv fd _) = fd"
| "op_fd (RemoveEv fd _) = fd"

lemma reg_do_ok:
  assumes "epoll_ctl_spec ctl view usable" and "mirror view s" and "isLoopThread s" and "usable (op_fd e)"
  obtains k where "reg_do ctl e s = Done 0 (s\<lparr>register := reg_spec e (register s), kern := k\<rparr>)"
    and "mirror view (s\<lparr>register := reg_spec e (register s), kern := k\<rparr>)"
proof (cases e)
  case (Reg fd d m cb)
  then show ?thesis
    using loop_reg_ok [OF assms(1-3), of fd d m cb] assms(4) that by auto
next
  case (Unreg fd)
  then show ?thesis
    using loop_remove_ok [OF assms(1-3), of fd] that by auto
next
  case (AddEv fd m)
  then show ?thesis
    using loop_addEvent_ok [OF assms(1-3), of fd m] that by auto
next
  case (RemoveEv fd m)
  then show ?thesis
    using loop_removeEvent_ok [OF assms(1-3), of fd m] that by auto
qed

text \<open>A registered descriptor reports when it is writable.\<close>

definition writable_if_registered :: "int \<Rightarrow> (int \<Rightarrow> xEventState option) \<Rightarrow> bool" where
  "writable_if_registered fd r \<longleftrightarrow> (\<forall>st. r fd = Some st \<longrightarrow> has (es_mask st) XE_WRITABLE)"

lemma add_writable: "writable_if_registered fd (reg_spec (AddEv fd XE_WRITABLE) r)"
proof -
  have "has XE_WRITABLE XE_WRITABLE"
    by (simp add: has_def mask_defs)
  then show ?thesis
    by (auto simp: writable_if_registered_def has_or has_def [of "es_mask _"] split: option.splits)
qed

text \<open>Waking the loop up never fails and writes to the wake-up descriptor only.\<close>

lemma notify_wire:
  obtains t w where "notify s = Done () (s\<lparr>tx := t, wire := w\<rparr>)"
    and "\<And>fd. fd \<noteq> wakeupFd s \<Longrightarrow> t fd = tx s fd \<and> w fd = wire s fd"
    and "tx s (wakeupFd s) = [] \<Longrightarrow> w = wire s"
proof -
  obtain r acc ws where w: "write_loop (tx s (wakeupFd s)) (mem_bytes (1 :: 64 word)) 0 = (r, acc, ws)"
    using prod_cases3 by blast
  let ?t = "(tx s)(wakeupFd s := ws)" and ?w = "(wire s)(wakeupFd s := wire s (wakeupFd s) @ acc)"
  have "notify s = Done () (s\<lparr>tx := ?t, wire := ?w\<rparr>)"
    using w by (simp add: notify_def sys_write_def writeFd_def)
  moreover have "?w = wire s" if "tx s (wakeupFd s) = []"
    using w that by (cases "mem_bytes (1 :: 64 word)") auto
  ultimately show ?thesis by (intro that [of ?w ?t]) auto
qed

section \<open>A new loop\<close>

text \<open>On a kernel without registrations, the wake-up descriptor is the only one that is registered.\<close>

lemma xLoop_new_ok:
  assumes ctl: "epoll_ctl_spec ctl view usable" and k: "view (kern s) = Map.empty" and e: "usable evtfd" "0 \<le> evtfd" "0 < epfd"
  obtains k p where "xLoop_new ctl evtfd epfd s = Done () (s\<lparr>stop := False, wakeupFd := evtfd, threadId := current s, timers := [],
      register := [evtfd \<mapsto> \<lparr>es_mask = XE_READABLE, es_data = 0, es_callback = LoopWakeUp\<rparr>], fired := [], extraEvents := [],
      poller := p, kern := k\<rparr>)"
    and "view k = [evtfd \<mapsto> events_of_mask XE_READABLE]"
proof -
  let ?p = "xEpoller_init\<lparr>max_connections := 1023, ep_fd := epfd, ep_events := Some 1024\<rparr>"
  let ?s = "s\<lparr>stop := False, wakeupFd := evtfd, threadId := current s, timers := [],
      register := Map.empty, fired := [], extraEvents := [], poller := ?p\<rparr>"
  let ?r = "[evtfd \<mapsto> \<lparr>es_mask = XE_READABLE, es_data = 0, es_callback = LoopWakeUp\<rparr>]"
  have p: "poller_Create epfd 1023 xEpoller_init = Inr (0, ?p)"
    using e(3) by (simp add: poller_Create_def delete_events_def) (simp add: xEpoller_init_def)
  have "mirror view ?s" "isLoopThread ?s" using k by (simp_all add: mirror_def isLoopThread_def)
  then obtain k' where k': "loop_reg ctl evtfd 0 XE_READABLE LoopWakeUp ?s = Done 0 (?s\<lparr>register := (register ?s)(evtfd \<mapsto>
      \<lparr>es_mask = XE_READABLE, es_data = 0, es_callback = LoopWakeUp\<rparr>), kern := k'\<rparr>)"
    "mirror view (?s\<lparr>register := (register ?s)(evtfd \<mapsto> \<lparr>es_mask = XE_READABLE, es_data = 0, es_callback = LoopWakeUp\<rparr>), kern := k'\<rparr>)"
    using loop_reg_ok [OF ctl _ _ e(1)] by metis
  have "xLoop_new ctl evtfd epfd s = Done () (?s\<lparr>register := ?r, kern := k'\<rparr>)"
    using e(2) p k'(1) by (simp add: xLoop_new_def createEventfd_def Let_def)
  moreover have "view k' = [evtfd \<mapsto> events_of_mask XE_READABLE]"
    using k'(2) by (auto simp: mirror_def)
  ultimately show ?thesis by (intro that [of k' ?p]) simp_all
qed

end
