(* ===== verification/Loop_Race.thy ===== *)
theory Loop_Race
  imports Reach
begin

text \<open>
  The list \<^verbatim>\<open>extraEvents_\<close> between the loop thread (\<^verbatim>\<open>xLoop::process\<close>) and the
  threads that schedule (\<^verbatim>\<open>xLoop::scheduleToLoopThread\<close>). The scheduling threads hold
  \<^verbatim>\<open>extraMutex_\<close>; the loop thread walks the list and clears it without the mutex. Each
  list operation is taken as one indivisible step, the kindest reading of the code.
\<close>

datatype phase = Polling | Iterating nat | AtEnd

record 'f extra_state =
  ph :: phase
  extra :: "'f list"
  ran :: "'f list"
  scheduled :: "'f list"

definition extra_init :: "'f extra_state" where
  "extra_init = \<lparr>ph = Polling, extra = [], ran = [], scheduled = []\<rparr>"

text \<open>
  \<open>Iterating i\<close>: the iterator of the range-for has passed \<open>i\<close> elements. At the end of the list
  the loop is left (\<open>AtEnd\<close>), and the list is cleared. \<open>late\<close> says whether another thread may
  schedule between those two points.
\<close>

inductive extra_step :: "bool \<Rightarrow> 'f extra_state \<Rightarrow> 'f extra_state \<Rightarrow> bool" for late where
  round: "ph s = Polling \<Longrightarrow> extra_step late s (s\<lparr>ph := Iterating 0\<rparr>)"
| run_one: "ph s = Iterating i \<Longrightarrow> i < length (extra s) \<Longrightarrow>
    extra_step late s (s\<lparr>ph := Iterating (Suc i), ran := ran s @ [extra s ! i]\<rparr>)"
| leave: "ph s = Iterating i \<Longrightarrow> i = length (extra s) \<Longrightarrow> extra_step late s (s\<lparr>ph := AtEnd\<rparr>)"
| clear_all: "ph s = AtEnd \<Longrightarrow> extra_step late s (s\<lparr>ph := Polling, extra := []\<rparr>)"
| schedule: "ph s \<noteq> AtEnd \<or> late \<Longrightarrow>
    extra_step late s (s\<lparr>extra := extra s @ [f], scheduled := scheduled s @ [f]\<rparr>)"

inductive_cases extra_stepE: "extra_step late s t"

definition extra_reach :: "bool \<Rightarrow> 'f extra_state \<Rightarrow> bool" where
  "extra_reach late = (extra_step late)\<^sup>*\<^sup>* extra_init"

lemma er_init: "extra_reach late extra_init"
  by (simp add: extra_reach_def)

lemma er_step: "extra_reach late s \<Longrightarrow> extra_step late s t \<Longrightarrow> extra_reach late t"
  unfolding extra_reach_def by (rule guarded_step)

text \<open>What has been scheduled is what has run and what the current round still has ahead.\<close>

fun pending :: "phase \<Rightarrow> 'f list \<Rightarrow> 'f list" where
  "pending Polling fs = fs"
| "pending (Iterating i) fs = drop i fs"
| "pending AtEnd fs = []"

fun ph_ok :: "phase \<Rightarrow> 'f list \<Rightarrow> bool" where
  "ph_ok (Iterating i) fs = (i \<le> length fs)"
| "ph_ok _ fs = True"

definition extra_inv :: "'f extra_state \<Rightarrow> bool" where
  "extra_inv s \<longleftrightarrow> ran s @ pending (ph s) (extra s) = scheduled s \<and> ph_ok (ph s) (extra s)"

lemma extra_inv_step: "extra_inv s \<Longrightarrow> extra_step False s t \<Longrightarrow> extra_inv t"
proof (erule extra_stepE)
  fix i
  assume "extra_inv s" "t = s\<lparr>ph := Iterating (Suc i), ran := ran s @ [extra s ! i]\<rparr>" "ph s = Iterating i" "i < length (extra s)"
  then show "extra_inv t" by (simp add: extra_inv_def Cons_nth_drop_Suc [symmetric])
next
  fix f
  assume "extra_inv s" "t = s\<lparr>extra := extra s @ [f], scheduled := scheduled s @ [f]\<rparr>" "ph s = AtEnd \<longrightarrow> False"
  then show "extra_inv t" by (cases "ph s") (auto simp: extra_inv_def)
qed (auto simp: extra_inv_def)

interpretation functors: invariant extra_init "extra_step False" extra_inv
proof unfold_locales
  show "extra_inv extra_init" by (simp add: extra_inv_def extra_init_def)
qed (rule extra_inv_step)

end
