(* ===== verification/Loop_Props.thy ===== *)
theory Loop_Props
  imports Loop_Laws Loop_Race Timer_Fire
begin

text \<open>
  The properties of the event loop. The kernel is any \<open>ctl\<close> that meets \<open>epoll_ctl_spec\<close>; the
  witnesses run on \<open>map_ctl\<close>.
\<close>

section \<open>A loop for the witnesses\<close>

definition loop0 :: "(int \<Rightarrow> int32 option, closure list) loop_state_scheme" where
  "loop0 = \<lparr>theap = Map.empty, timers = [], nextSerial = 0, clock = [], last_now = 0,
     kern = Map.empty, poller = \<lparr>ep_fd = 3, max_connections = 1023, ep_events = Some 1024\<rparr>, epoll_answers = [],
     stop = False, wakeupFd = 4, threadId = 0, current = 0, register = Map.empty, fired = [], extraEvents = [],
     rx = \<lambda>_. [], tx = \<lambda>_. [], wire = \<lambda>_. [], \<dots> = []\<rparr>"

lemma loop0_mirror: "mirror (\<lambda>m. m) loop0" "isLoopThread loop0"
  by (simp_all add: mirror_def loop0_def isLoopThread_def)

section \<open>Registration\<close>

text \<open>
  C9. Whatever sequence of registrations, removals and mask changes the loop thread runs, no
  call to \<^verbatim>\<open>epoll_ctl\<close> fails (so no assertion does), the register is what the operations
  make of it on their own, and the interest list of the kernel is the register.
\<close>

theorem registrations_mirror_kernel:
  assumes "epoll_ctl_spec ctl view usable" and "mirror view s" and "isLoopThread s"
    and "\<forall>e \<in> set es. usable (op_fd e)"
  shows "\<exists>k. reg_run ctl es s = Done () (s\<lparr>register := fold reg_spec es (register s), kern := k\<rparr>) \<and>
    view k = (\<lambda>fd. map_option (\<lambda>st. events_of_mask (es_mask st)) (fold reg_spec es (register s) fd))"
  using assms(2-4)
proof (induction es arbitrary: s)
  case Nil
  then show ?case
    by (intro exI [of _ "kern s"]) (simp add: mirror_def)
next
  case (Cons e es)
  then obtain k where k: "reg_do ctl e s = Done 0 (s\<lparr>register := reg_spec e (register s), kern := k\<rparr>)"
    "mirror view (s\<lparr>register := reg_spec e (register s), kern := k\<rparr>)"
    using reg_do_ok [OF assms(1), of s e] by auto
  have "isLoopThread (s\<lparr>register := reg_spec e (register s), kern := k\<rparr>)"
    using Cons.prems(2) by (simp add: isLoopThread_def)
  from Cons.IH [OF k(2) this] Cons.prems(3) show ?case
    using k(1) by auto
qed

lemma registrations_mirror_kernel_witness:
  "\<exists>k. reg_run map_ctl [Reg 7 0 XE_READABLE (ConnHandleEvent 1), AddEv 7 XE_WRITABLE, Unreg 7, Unreg 8] loop0 =
    Done () (loop0\<lparr>register := Map.empty, kern := k\<rparr>) \<and> k = Map.empty"
  using registrations_mirror_kernel [OF map_ctl_spec loop0_mirror,
      of "[Reg 7 0 XE_READABLE (ConnHandleEvent 1), AddEv 7 XE_WRITABLE, Unreg 7, Unreg 8]"]
  by (simp add: loop0_def mask_defs del: reg_run.simps)

text \<open>
  \<open>removeEvent\<close> removes nothing: the flags it is asked to clear stay in the registered mask
  and in the kernel's interest, every other flag gets set, and the descriptor is never taken
  out of the kernel. After \<^verbatim>\<open>XE_WRITABLE\<close> has been removed, the kernel still reports
  the descriptor as writable.
\<close>

lemma removeEvent_keeps_flags:
  assumes "epoll_ctl_spec ctl view usable" and "mirror view s" and "isLoopThread s"
    and "register s fd = Some st" and "has (es_mask st) m"
  shows "\<exists>s' st'. loop_removeEvent ctl fd m s = Done 0 s' \<and> register s' fd = Some st' \<and>
    es_mask st' AND m = es_mask st AND m \<and> es_mask st' AND NOT m = NOT m \<and>
    view (kern s') fd = Some (events_of_mask (es_mask st')) \<and>
    (m = XE_WRITABLE \<longrightarrow> view (kern s') fd = Some (EPOLLIN OR EPOLLOUT))"
proof -
  let ?st = "st\<lparr>es_mask := es_mask st OR NOT m\<rparr>"
  have ne: "es_mask st AND m \<noteq> 0" using assms(5) by (simp add: has_def)
  obtain k where k: "loop_removeEvent ctl fd m s = Done 0 (s\<lparr>register := (register s)(fd \<mapsto> ?st), kern := k\<rparr>)"
    "mirror view (s\<lparr>register := (register s)(fd \<mapsto> ?st), kern := k\<rparr>)"
    using loop_removeEvent_ok [OF assms(1-3), of fd m] assms(4) ne by auto
  have v: "view k fd = Some (events_of_mask (es_mask ?st))"
    using mirror_view [OF k(2), of fd] by simp
  have "has (es_mask st OR NOT XE_WRITABLE) XE_READABLE"
    by (simp add: has_or) (simp add: has_def mask_defs)
  moreover have "has (es_mask st OR NOT m) m"
    using ne by (simp add: has_def or_not_and)
  ultimately have "m = XE_WRITABLE \<longrightarrow> events_of_mask (es_mask ?st) = EPOLLIN OR EPOLLOUT"
    by (auto simp: events_of_mask_def)
  moreover have "(es_mask st OR NOT m) AND NOT m = NOT m"
    by (simp add: bit_eq_iff bit_simps)
  ultimately show ?thesis
    using k(1) v by (intro exI [of _ "s\<lparr>register := (register s)(fd \<mapsto> ?st), kern := k\<rparr>"] exI [of _ ?st])
      (simp add: or_not_and)
qed

lemma removeEvent_keeps_flags_witness:
  "\<exists>s'. loop_removeEvent map_ctl 7 XE_WRITABLE
      (loop0\<lparr>register := [7 \<mapsto> \<lparr>es_mask = 3, es_data = 0, es_callback = UserFn 0\<rparr>], kern := [7 \<mapsto> 5]\<rparr>) = Done 0 s' \<and>
    kern s' 7 = Some (EPOLLIN OR EPOLLOUT)"
proof -
  let ?s = "loop0\<lparr>register := [7 \<mapsto> \<lparr>es_mask = 3, es_data = 0, es_callback = UserFn 0\<rparr>], kern := [7 \<mapsto> 5]\<rparr>"
  have "mirror (\<lambda>m. m) ?s"
    by (auto simp: mirror_def events_of_mask_def has_def mask_defs)
  moreover have "isLoopThread ?s"
    by (simp add: isLoopThread_def loop0_def)
  ultimately show ?thesis
    using removeEvent_keeps_flags [OF map_ctl_spec, of ?s 7 "\<lparr>es_mask = 3, es_data = 0, es_callback = UserFn 0\<rparr>" XE_WRITABLE]
    by (auto simp: has_def XE_WRITABLE_def)
qed

text \<open>
  What an event carries back: registering packs the descriptor into the union of
  \<^verbatim>\<open>epoll_event\<close>, and waiting recovers it. The \<^verbatim>\<open>data\<close> given at registration is
  dropped: the field \<^verbatim>\<open>edata\<close> of the fired event is the descriptor again.
\<close>

lemma event_roundtrip:
  assumes "0 \<le> fd" and "fd < 2 ^ 31"
  shows "xEvent_of_epoll \<lparr>ev_events = events, ev_data = data_of_fd fd\<rparr> =
    \<lparr>efd = fd, emask = mask_of_events events, edata = fd\<rparr>"
proof -
  have u: "uint (of_int fd :: 32 word) = fd"
    using assms by (simp add: uint_word_of_int)
  have s: "sint (of_int fd :: 32 word) = fd"
    using assms int_word_sint [of fd, where 'a = 32] by simp
  have "(ucast (data_of_fd fd) :: 32 word) = of_int fd"
    unfolding data_of_fd_def by (simp add: ucast_up_ucast_id is_up)
  moreover have "sint (data_of_fd fd) = fd"
    using assms u by (simp add: data_of_fd_def sint_uint uint_up_ucast is_up signed_take_bit_int_eq_self)
  ultimately show ?thesis
    using s by (simp add: xEvent_of_epoll_def fd_of_data_def)
qed

lemma event_roundtrip_witness:
  "xEvent_of_epoll \<lparr>ev_events = 5, ev_data = data_of_fd 9\<rparr> = \<lparr>efd = 9, emask = 3, edata = 9\<rparr>"
  using event_roundtrip [of 9 5] by (simp add: mask_of_events_def has_def mask_defs Let_def)

section \<open>A round of the loop\<close>

text \<open>
  The reported events, one after the other, whatever their callbacks do to the loop: each event goes to the
  callback that its descriptor has when its turn comes, and is skipped when there is none. The events
  from the current one on stay in \<open>fired\<close>.
\<close>

fun each_event ::
    "(closure \<Rightarrow> xEvent \<Rightarrow> ('k, 'z) loop_state_scheme \<Rightarrow> (unit, ('k, 'z) loop_state_scheme) outcome) \<Rightarrow>
     xEvent list \<Rightarrow> ('k, 'z) loop_state_scheme \<Rightarrow> (unit, ('k, 'z) loop_state_scheme) outcome" where
  "each_event on_event [] s = Done () s"
| "each_event on_event (xe # xes) s =
     bindS (case register s (efd xe) of None \<Rightarrow> Done () s | Some st \<Rightarrow> on_event (es_callback st) xe s)
       (\<lambda>_ s. each_event on_event xes (s\<lparr>fired := xes\<rparr>))"

lemma dispatch_loop_each:
  assumes keep: "\<And>f xe s t. on_event f xe s = Done () t \<Longrightarrow> fired t = fired s"
  shows "dispatch_loop on_event (length (fired s)) s = each_event on_event (fired s) s"
proof (induction "fired s" arbitrary: s)
  case Nil
  from Nil.hyps show ?case by (cases s) simp
next
  case (Cons xe xes)
  note F = Cons.hyps(2) [symmetric]
  let ?r = "case register s (efd xe) of None \<Rightarrow> Done () s | Some st \<Rightarrow> on_event (es_callback st) xe s"
  have front: "dispatch_front on_event s = bindS ?r (\<lambda>_ t. Done () (t\<lparr>fired := tl (fired t)\<rparr>))"
    by (simp add: dispatch_front_def F Let_def)
  have step: "dispatch_loop on_event (length (fired s)) s = bindS (dispatch_front on_event s) (\<lambda>_. dispatch_loop on_event (length xes))"
    by (simp add: F)
  have each: "each_event on_event (fired s) s = bindS ?r (\<lambda>_ t. each_event on_event xes (t\<lparr>fired := xes\<rparr>))"
    by (simp only: F each_event.simps)
  show ?case
    unfolding step each front
  proof (cases ?r)
    case (Done u t)
    then have "fired t = xe # xes" using keep F by (cases "register s (efd xe)") auto
    then have t: "t\<lparr>fired := tl (fired t)\<rparr> = t\<lparr>fired := xes\<rparr>" "xes = fired (t\<lparr>fired := xes\<rparr>)" by simp_all
    have "dispatch_loop on_event (length xes) (t\<lparr>fired := xes\<rparr>) = each_event on_event xes (t\<lparr>fired := xes\<rparr>)"
      using Cons.hyps(1) [OF t(2)] by simp
    then show "bindS (bindS ?r (\<lambda>_ t. Done () (t\<lparr>fired := tl (fired t)\<rparr>))) (\<lambda>_. dispatch_loop on_event (length xes)) =
        bindS ?r (\<lambda>_ t. each_event on_event xes (t\<lparr>fired := xes\<rparr>))"
      unfolding Done bindS_simps t(1) .
  qed (simp_all only: bindS_simps)
qed

lemma poller_Wait_answer:
  assumes "epoll_answers s = a # as" and "int (length a) \<le> max_connections (poller s) + 1"
  shows "poller_Wait s lxe = (length a, lxe @ map xEvent_of_epoll a, s\<lparr>epoll_answers := as\<rparr>)"
proof -
  have "length a \<le> nat (max_connections (poller s) + 1)" using assms(2) by linarith
  then show ?thesis using assms(1) by (simp add: poller_Wait_def)
qed

text \<open>
  One round of the loop, for any callbacks that leave the list of fired events to it: the events that the
  kernel reports, in the order of the report, then the functors that have been scheduled by then, in their
  order; the list of functors is emptied, and the timers follow.
\<close>

lemma round_of_the_loop:
  assumes "epoll_answers s = a # as" and "int (length a) \<le> max_connections (poller s) + 1" and "fired s = []"
    and "\<And>f xe s t. on_event f xe s = Done () t \<Longrightarrow> fired t = fired s"
  shows "process on_event call fuel s =
    bindS (each_event on_event (map xEvent_of_epoll a) (s\<lparr>epoll_answers := as, fired := map xEvent_of_epoll a\<rparr>)) (\<lambda>_ s.
    bindS (run_functors call (extraEvents s) s) (\<lambda>_ s. triggerTimer call fuel (s\<lparr>extraEvents := []\<rparr>)))"
  using poller_Wait_answer [OF assms(1,2)] assms(3)
    dispatch_loop_each [of on_event "s\<lparr>epoll_answers := as, fired := map xEvent_of_epoll a\<rparr>", OF assms(4)]
  by (simp add: process_def)

section \<open>Scheduling from another thread\<close>

fun schedule_all ::
    "(closure \<Rightarrow> ('k, 'z) loop_state_scheme \<Rightarrow> (unit, ('k, 'z) loop_state_scheme) outcome) \<Rightarrow>
     xFunctor list \<Rightarrow> ('k, 'z) loop_state_scheme \<Rightarrow> (unit, ('k, 'z) loop_state_scheme) outcome" where
  "schedule_all call [] s = Done () s"
| "schedule_all call (h # hs) s = bindS (scheduleToLoopThread call h s) (\<lambda>_. schedule_all call hs)"

text \<open>
  Scheduling from a thread that is not the loop's runs nothing there: the functors are
  queued in order behind those already queued, whatever the wake-up descriptor answers, and no
  other descriptor is written to.
\<close>

lemma schedule_from_other_thread:
  assumes "\<not> isLoopThread s"
  shows "\<exists>t w. schedule_all call hs s = Done () (s\<lparr>extraEvents := extraEvents s @ hs, tx := t, wire := w\<rparr>) \<and>
    (\<forall>fd. fd \<noteq> wakeupFd s \<longrightarrow> t fd = tx s fd \<and> w fd = wire s fd)"
  using assms
proof (induction hs arbitrary: s)
  case Nil
  then show ?case by (intro exI [of _ "tx s"] exI [of _ "wire s"]) simp
next
  case (Cons h hs)
  let ?s1 = "s\<lparr>extraEvents := extraEvents s @ [h]\<rparr>"
  obtain t w where n: "notify ?s1 = Done () (?s1\<lparr>tx := t, wire := w\<rparr>)"
    "\<And>fd. fd \<noteq> wakeupFd ?s1 \<Longrightarrow> t fd = tx ?s1 fd \<and> w fd = wire ?s1 fd"
    using notify_wire [of ?s1] by blast
  have "\<not> isLoopThread (?s1\<lparr>tx := t, wire := w\<rparr>)"
    using Cons.prems by (simp add: isLoopThread_def)
  from Cons.IH [OF this] obtain t' w' where
    "schedule_all call hs (?s1\<lparr>tx := t, wire := w\<rparr>) =
       Done () ((?s1\<lparr>tx := t, wire := w\<rparr>)\<lparr>extraEvents := extraEvents ?s1 @ hs, tx := t', wire := w'\<rparr>)"
    "\<forall>fd. fd \<noteq> wakeupFd s \<longrightarrow> t' fd = t fd \<and> w' fd = w fd"
    by auto
  then show ?case
    using n Cons.prems by (intro exI [of _ t'] exI [of _ w']) (simp add: scheduleToLoopThread_def)
qed

lemma schedule_from_other_thread_witness:
  "\<exists>t w. schedule_all (\<lambda>c s. Done () s) [FCall (UserFn 1), FCall (UserFn 2)] (loop0\<lparr>current := 5\<rparr>) =
     Done () (loop0\<lparr>current := 5, extraEvents := [FCall (UserFn 1), FCall (UserFn 2)], tx := t, wire := w\<rparr>)"
proof -
  have "\<not> isLoopThread (loop0\<lparr>current := 5\<rparr>)" "extraEvents loop0 = []"
    by (simp_all add: isLoopThread_def loop0_def)
  then show ?thesis
    using schedule_from_other_thread [of "loop0\<lparr>current := 5\<rparr>" "\<lambda>c s. Done () s" "[FCall (UserFn 1), FCall (UserFn 2)]"]
    by (auto simp del: schedule_all.simps)
qed

section \<open>The list of scheduled functors and its clearing\<close>

text \<open>
  C19. As long as no thread schedules between the end of the loop thread's walk over
  \<^verbatim>\<open>extraEvents_\<close> and its clearing, every scheduled functor has run once, in order, or is
  still to be run by this round or the next.
\<close>

theorem no_functor_lost_without_late_scheduling:
  assumes "extra_reach False s"
  shows "ran s @ pending (ph s) (extra s) = scheduled s"
  using functors.holds [of s] assms by (simp add: extra_reach_def extra_inv_def)

lemma no_functor_lost_without_late_scheduling_witness:
  "extra_reach False (extra_init\<lparr>extra := [7::nat], scheduled := [7]\<rparr>) \<and>
   ran (extra_init\<lparr>extra := [7::nat], scheduled := [7]\<rparr>) @ [7] = [7]"
proof -
  have "extra_reach False (extra_init\<lparr>extra := [7::nat], scheduled := [7]\<rparr>)"
    using er_step [OF er_init schedule [of extra_init False 7]] by (simp add: extra_init_def)
  then show ?thesis
    using no_functor_lost_without_late_scheduling by (fastforce simp: extra_init_def)
qed

text \<open>
  The clearing does not take \<^verbatim>\<open>extraMutex_\<close>: a functor that a thread schedules in
  between is thrown away without having run.
\<close>

lemma late_functor_is_lost:
  "\<exists>s :: nat extra_state. extra_reach True s \<and> ph s = Polling \<and> scheduled s = [7] \<and> ran s = [] \<and> extra s = []"
proof -
  let ?s = "\<lambda>p e d. \<lparr>ph = p, extra = e, ran = [], scheduled = d\<rparr> :: nat extra_state"
  have s0: "extra_reach True (?s Polling [] [])"
    using er_init [of True] by (simp add: extra_init_def)
  have s1: "extra_reach True (?s (Iterating 0) [] [])"
    using er_step [OF s0 round] by simp
  have s2: "extra_reach True (?s AtEnd [] [])"
    using er_step [OF s1 leave] by simp
  have s3: "extra_reach True (?s AtEnd [7] [7])"
    using er_step [OF s2 schedule [of _ True 7]] by simp
  have "extra_reach True (?s Polling [] [7])"
    using er_step [OF s3 clear_all] by simp
  then show ?thesis by (intro exI [of _ "?s Polling [] [7]"]) simp
qed

section \<open>Timers of the loop\<close>

text \<open>
  The expiration of \<open>runAt\<close> is an \<^verbatim>\<open>int\<close>, while the clock counts the milliseconds
  since 1970: on any clock past \<open>2 ^ 31\<close> (25 days after the epoch) the timer is due in the
  very round that adds it, whatever time was asked for.
\<close>

lemma runAt_is_due_at_once:
  assumes "isLoopThread s" and "tq_inv s" and "theap s p = None" and "p \<notin> set (timers s)"
    and "\<forall>q t. theap s q = Some t \<longrightarrow> timerSerial t \<noteq> sint (nextSerial s + 1)" and "2 ^ 31 \<le> now"
  shows "\<exists>s'. runAt call p expire cb s = Done p s' \<and> tq_inv s' \<and>
    set (timers s') = insert p (set (timers s)) \<and> cb_of s' p = cb \<and> due now s' p"
proof -
  let ?t = "\<lparr>repeat = 1, interval = 0, expiration = sint expire, timerSerial = sint (nextSerial s + 1), timer_cb = cb\<rparr>"
  let ?s1 = "s\<lparr>nextSerial := nextSerial s + 1, theap := (theap s)(p \<mapsto> ?t)\<rparr>"
  have n: "new_timer_at p (sint expire) cb s = ?s1"
    by (simp add: new_timer_at_def incrAndGet_def addAndGet_def getAndAdd_def)
  have same: "timer_cmp (the (theap ?s1 q)) (the (theap ?s1 r)) = timer_cmp (the (theap s q)) (the (theap s r))"
    if "q \<in> set (timers s)" "r \<in> set (timers s)" for q r
    using that assms(4) by auto
  have "sorted_wrt (\<lambda>q r. timer_cmp (the (theap ?s1 q)) (the (theap ?s1 r))) (timers s)"
    using assms(2) same unfolding tq_inv_def tq_ordered_def by (auto simp: sorted_wrt_iff_nth_less)
  then have "tq_ordered ?s1"
    by (simp add: tq_ordered_def)
  moreover have "tlive ?s1"
    using assms(2) by (simp add: tq_inv_def tlive_def)
  moreover have "serials_distinct ?s1"
  proof -
    have fresh: "timerSerial u \<noteq> sint (nextSerial s + 1)" "sint (nextSerial s + 1) \<noteq> timerSerial u"
      if "theap s q = Some u" for q u
      using assms(5) that by metis+
    show ?thesis
      using assms(2) by (auto simp: tq_inv_def serials_distinct_def fresh)
  qed
  ultimately have inv: "tq_inv ?s1"
    by (simp add: tq_inv_def)
  obtain s' where s': "AddTimer p ?s1 = Done p s'" "tq_inv s'"
    "set (timers s') = insert p (set (timers s))" "theap s' = theap ?s1"
    using AddTimer_ok [OF inv, of p ?t] assms(4) by auto
  have "sint expire < 2 ^ 31"
    using sint_lt [of expire] by simp
  then have "due now s' p" "cb_of s' p = cb"
    using s'(4) assms(6) by (simp_all add: due_def cb_of_def)
  moreover have "runAt call p expire cb s = Done p s'"
    using s'(1) n assms(1) by (simp add: runAt_def scheduleToLoopThread_def isLoopThread_def run_functor_def)
  ultimately show ?thesis using s'(2,3) by blast
qed

lemma runAt_is_due_at_once_witness:
  "\<exists>s'. runAt (\<lambda>c s. Done () s) 1 5000 (UserFn 0) loop0 = Done 1 s' \<and> due (2 ^ 31) s' 1"
  using runAt_is_due_at_once [OF loop0_mirror(2), of 1 "2 ^ 31" "\<lambda>c s. Done () s" 5000 "UserFn 0"]
  by (auto simp: loop0_def tq_inv_def tlive_def tq_ordered_def serials_distinct_def)

end
