(* ===== verification/Connection.thy ===== *)
theory Connection
  imports Loop Buffer_Laws
begin

text \<open>
  \<^verbatim>\<open>net/include/connection.h\<close> and \<^verbatim>\<open>net/connection.cpp\<close>: a TCP connection of a
  loop. The objects live in \<open>conns\<close>, by the number that \<open>closure\<close> uses for them; an operation
  on a number without object is undefined. The function objects that a connection calls back are
  closures, and \<open>cbs\<close> says what each kind of call does to the program. The addresses of the two
  ends, which only go into log texts, are left out.
\<close>

section \<open>State\<close>

datatype xConnStatus = XF_CONN_STATUS_UNKOWN | XF_CONN_STATUS_CONNECTING | XF_CONN_STATUS_CONNECTED
  | XF_CONN_STATUS_TIMEOUT | XF_CONN_STATUS_DISCONNECTING | XF_CONN_STATUS_DISCONNECTED

definition XF_MSG_DECODE_ERR :: int where "XF_MSG_DECODE_ERR = -1"
definition XF_MSG_DECODE_NOT_ENOUGH :: int where "XF_MSG_DECODE_NOT_ENOUGH = -2"

record xConnection =
  connStatus :: xConnStatus
  writeEnabled :: bool
  conn_fd :: int
  readBuff :: xBuffer
  writeBuff :: xBuffer
  sentBytesCb :: "closure option"
  decodeCb :: "closure option"
  msgCommitCb :: "closure option"
  connCloseCb :: "closure option"
  connFinishCb :: "closure option"

record 'k net_state = "'k loop_state" +
  conns :: "nat \<Rightarrow> xConnection option"

text \<open>
  What the calls of function objects do: a decoder gets the readable bytes and their number, a
  commit callback gets the committed buffer by reference and returns it as it leaves it.
\<close>

record 'w cbs =
  decode_fn :: "closure \<Rightarrow> byte list \<Rightarrow> int \<Rightarrow> 'w \<Rightarrow> (int, 'w) outcome"
  sent_fn :: "closure \<Rightarrow> nat \<Rightarrow> nat \<Rightarrow> 'w \<Rightarrow> (unit, 'w) outcome"
  commit_fn :: "closure \<Rightarrow> nat \<Rightarrow> xBuffer \<Rightarrow> 'w \<Rightarrow> (xBuffer, 'w) outcome"
  conn_fn :: "closure \<Rightarrow> nat \<Rightarrow> 'w \<Rightarrow> (unit, 'w) outcome"

section \<open>Lifetimes\<close>

text \<open>
  A connection object lives as long as somebody keeps a \<^verbatim>\<open>shared_ptr\<close> to it. Those of the library are in
  its function objects, \<open>closure_target\<close> being the connection whose pointer a function object has
  bound, and in the client or the server. The loop has function objects in its register, in its
  queue of functors, which is cleared only after the last of them has run, and in its timers.
\<close>

definition closure_target :: "closure \<Rightarrow> nat option" where
  "closure_target f = (case f of
     ConnHandleEvent i \<Rightarrow> Some i | ConnSendMsgToBuffer i _ \<Rightarrow> Some i | ConnCloseConn i \<Rightarrow> Some i
   | ConnCloseConnection i \<Rightarrow> Some i | ConnMakeConnected i \<Rightarrow> Some i | ConnSetClosed i \<Rightarrow> Some i
   | ConnSetCloseCb i _ \<Rightarrow> Some i | ServerDoClose i \<Rightarrow> Some i | ClientDoClose i \<Rightarrow> Some i | _ \<Rightarrow> None)"

definition timer_holds :: "nat \<Rightarrow> ('k, 'z) net_state_scheme \<Rightarrow> ptr \<Rightarrow> bool" where
  "timer_holds i s p = (case theap s p of None \<Rightarrow> False | Some t \<Rightarrow> closure_target (timer_cb t) = Some i)"

definition functor_holds :: "nat \<Rightarrow> ('k, 'z) net_state_scheme \<Rightarrow> xFunctor \<Rightarrow> bool" where
  "functor_holds i s f = (case f of
     FCall c \<Rightarrow> closure_target c = Some i | FAddTimer p \<Rightarrow> timer_holds i s p | FRemoveTimer p \<Rightarrow> False)"

definition register_holds :: "nat \<Rightarrow> ('k, 'z) net_state_scheme \<Rightarrow> bool" where
  "register_holds i s = (case conns s i of
     None \<Rightarrow> False
   | Some c \<Rightarrow> (case register s (conn_fd c) of None \<Rightarrow> False | Some st \<Rightarrow> closure_target (es_callback st) = Some i))"

definition loop_holds :: "nat \<Rightarrow> ('k, 'z) net_state_scheme \<Rightarrow> bool" where
  "loop_holds i s \<longleftrightarrow> register_holds i s \<or> list_ex (functor_holds i s) (extraEvents s) \<or> list_ex (timer_holds i s) (timers s)"

text \<open>
  \<open>sendMsg\<close> and \<open>parseProtocol\<close> go on reading the object after a callback to which they lend a temporary
  pointer. \<open>held\<close> says whether anybody else keeps the object alive. A callback that \<open>drops\<close> the last
  such pointer ends the object's life together with the temporary, so the caller's next access is undefined,
  whether the callback has returned or thrown. \<open>returning\<close> is the return to a caller that keeps
  no pointer of its own.
\<close>

definition drops :: "('w \<Rightarrow> bool) \<Rightarrow> 'w \<Rightarrow> ('a, 'w) outcome \<Rightarrow> bool" where
  "drops held s r \<longleftrightarrow> held s \<and> (case r of Done a t \<Rightarrow> \<not> held t | Raise e t \<Rightarrow> \<not> held t | _ \<Rightarrow> False)"

definition returning :: "('w \<Rightarrow> bool) \<Rightarrow> 'w \<Rightarrow> ('a, 'w) outcome \<Rightarrow> ('a, 'w) outcome" where
  "returning held s r = (if drops held s r then Crash Undefined else r)"

lemma drops_same [simp]: "drops held s (Done a s) = False" "drops held s (Raise e s) = False"
  by (simp_all add: drops_def)

lemma returning_same [simp]: "returning held s (Done a s) = Done a s" "returning held s (Crash f) = Crash f"
  "returning held s Diverge = Diverge" "\<not> drops held s r \<Longrightarrow> returning held s r = r"
  by (simp_all add: returning_def) (simp_all add: drops_def)

section \<open>Access to a connection object\<close>

definition get_conn :: "nat \<Rightarrow> ('k, 'z) net_state_scheme \<Rightarrow> (xConnection, ('k, 'z) net_state_scheme) outcome" where
  "get_conn i s = (case conns s i of None \<Rightarrow> Crash Undefined | Some c \<Rightarrow> Done c s)"

definition put_conn :: "nat \<Rightarrow> xConnection \<Rightarrow> ('k, 'z) net_state_scheme \<Rightarrow> ('k, 'z) net_state_scheme" where
  "put_conn i c s = s\<lparr>conns := (conns s)(i \<mapsto> c)\<rparr>"

definition set_conn ::
    "nat \<Rightarrow> (xConnection \<Rightarrow> xConnection) \<Rightarrow> ('k, 'z) net_state_scheme \<Rightarrow> (unit, ('k, 'z) net_state_scheme) outcome" where
  "set_conn i f s = bindS (get_conn i s) (\<lambda>c s. Done () (put_conn i (f c) s))"

text \<open>
  The constructor, for a socket that is not moved from elsewhere; both buffers have their
  initial size.
\<close>

definition xConnection_new ::
    "int \<Rightarrow> closure option \<Rightarrow> closure option \<Rightarrow> closure option \<Rightarrow> closure option \<Rightarrow> closure option \<Rightarrow>
     fault + xConnection" where
  "xConnection_new fd dcb mccb scb ccb cfcb =
     bindE (xBuffer_new kInitialSize) (\<lambda>rb.
     bindE (xBuffer_new kInitialSize) (\<lambda>wb.
       Inr \<lparr>connStatus = XF_CONN_STATUS_CONNECTING, writeEnabled = False, conn_fd = fd, readBuff = rb,
            writeBuff = wb, sentBytesCb = scb, decodeCb = dcb, msgCommitCb = mccb, connCloseCb = ccb,
            connFinishCb = cfcb\<rparr>))"

definition isConnected :: "xConnection \<Rightarrow> bool" where
  "isConnected c \<longleftrightarrow> connStatus c = XF_CONN_STATUS_CONNECTED"

definition setClosed :: "nat \<Rightarrow> ('k, 'z) net_state_scheme \<Rightarrow> (unit, ('k, 'z) net_state_scheme) outcome" where
  "setClosed i s = set_conn i (\<lambda>c. c\<lparr>connStatus := XF_CONN_STATUS_DISCONNECTED\<rparr>) s"

definition setConnectionClosedCallBack ::
    "nat \<Rightarrow> closure option \<Rightarrow> ('k, 'z) net_state_scheme \<Rightarrow> (unit, ('k, 'z) net_state_scheme) outcome" where
  "setConnectionClosedCallBack i cb s = set_conn i (\<lambda>c. c\<lparr>connCloseCb := cb\<rparr>) s"

definition conn_setMsgDecodeCallBack ::
    "nat \<Rightarrow> closure option \<Rightarrow> ('k, 'z) net_state_scheme \<Rightarrow> (unit, ('k, 'z) net_state_scheme) outcome" where
  "conn_setMsgDecodeCallBack i cb s = set_conn i (\<lambda>c. c\<lparr>decodeCb := cb\<rparr>) s"

definition conn_setsentBytesCallBack ::
    "nat \<Rightarrow> closure option \<Rightarrow> ('k, 'z) net_state_scheme \<Rightarrow> (unit, ('k, 'z) net_state_scheme) outcome" where
  "conn_setsentBytesCallBack i cb s = set_conn i (\<lambda>c. c\<lparr>sentBytesCb := cb\<rparr>) s"

definition conn_setMsgCommitCallBack ::
    "nat \<Rightarrow> closure option \<Rightarrow> ('k, 'z) net_state_scheme \<Rightarrow> (unit, ('k, 'z) net_state_scheme) outcome" where
  "conn_setMsgCommitCallBack i cb s = set_conn i (\<lambda>c. c\<lparr>msgCommitCb := cb\<rparr>) s"

definition conn_setConnectionFinishedCallBack ::
    "nat \<Rightarrow> closure option \<Rightarrow> ('k, 'z) net_state_scheme \<Rightarrow> (unit, ('k, 'z) net_state_scheme) outcome" where
  "conn_setConnectionFinishedCallBack i cb s = set_conn i (\<lambda>c. c\<lparr>connFinishCb := cb\<rparr>) s"

definition GetConnFd :: "nat \<Rightarrow> ('k, 'z) net_state_scheme \<Rightarrow> (int, ('k, 'z) net_state_scheme) outcome" where
  "GetConnFd i s = bindS (get_conn i s) (\<lambda>c s. Done (conn_fd c) s)"

section \<open>Registration and closing\<close>

definition RegistEventToLoop ::
    "'k epoll_ctl \<Rightarrow> nat \<Rightarrow> ('k, 'z) net_state_scheme \<Rightarrow> (unit, ('k, 'z) net_state_scheme) outcome" where
  "RegistEventToLoop ctl i s =
     bindS (assertS (isLoopThread s) s) (\<lambda>_ s.
     bindS (get_conn i s) (\<lambda>c s.
     bindS (loop_reg ctl (conn_fd c) 0 (XE_READABLE OR XE_WRITABLE) (ConnHandleEvent i) s) (\<lambda>_ s. Done () s)))"

definition RegistReadEvent ::
    "'k epoll_ctl \<Rightarrow> nat \<Rightarrow> ('k, 'z) net_state_scheme \<Rightarrow> (unit, ('k, 'z) net_state_scheme) outcome" where
  "RegistReadEvent ctl i s =
     bindS (assertS (isLoopThread s) s) (\<lambda>_ s.
     bindS (get_conn i s) (\<lambda>c s.
     bindS (loop_reg ctl (conn_fd c) 0 XE_READABLE (ConnHandleEvent i) s) (\<lambda>_ s. Done () s)))"

text \<open>The call of a callback that may be empty.\<close>

definition call_conn ::
    "('k, 'z) net_state_scheme cbs \<Rightarrow> closure option \<Rightarrow> nat \<Rightarrow> ('k, 'z) net_state_scheme \<Rightarrow>
     (unit, ('k, 'z) net_state_scheme) outcome" where
  "call_conn cb f i s = (case f of None \<Rightarrow> Raise BadFunctionCall s | Some c \<Rightarrow> conn_fn cb c i s)"

definition makeConnected ::
    "'k epoll_ctl \<Rightarrow> ('k, 'z) net_state_scheme cbs \<Rightarrow> nat \<Rightarrow> ('k, 'z) net_state_scheme \<Rightarrow>
     (unit, ('k, 'z) net_state_scheme) outcome" where
  "makeConnected ctl cb i s =
     bindS (assertS (isLoopThread s) s) (\<lambda>_ s.
     bindS (set_conn i (\<lambda>c. c\<lparr>connStatus := XF_CONN_STATUS_CONNECTED\<rparr>) s) (\<lambda>_ s.
     bindS (RegistReadEvent ctl i s) (\<lambda>_ s.
     bindS (get_conn i s) (\<lambda>c s. call_conn cb (connFinishCb c) i s))))"

definition closeConn ::
    "'k epoll_ctl \<Rightarrow> ('k, 'z) net_state_scheme cbs \<Rightarrow> nat \<Rightarrow> ('k, 'z) net_state_scheme \<Rightarrow>
     (int, ('k, 'z) net_state_scheme) outcome" where
  "closeConn ctl cb i s =
     bindS (assertS (isLoopThread s) s) (\<lambda>_ s.
     bindS (get_conn i s) (\<lambda>c s.
       if connStatus c = XF_CONN_STATUS_DISCONNECTED \<or> connStatus c = XF_CONN_STATUS_DISCONNECTING
       then Done 0 s
       else
         let s = put_conn i (c\<lparr>connStatus := XF_CONN_STATUS_DISCONNECTING\<rparr>) s in
         bindS (loop_remove ctl (conn_fd c) s) (\<lambda>_ s.
         bindS (get_conn i s) (\<lambda>c s.
         bindS (catchS (if connCloseCb c \<noteq> None then call_conn cb (connCloseCb c) i s else Done () s)
                  (\<lambda>e s. Done () s))
           (\<lambda>_ s. Done 0 s)))))"

section \<open>Sending\<close>

text \<open>
  \<open>sendMsg\<close> without argument: what is buffered goes to the descriptor. The memory that
  \<open>writeFd\<close> may read runs from the reader index to the end of the vector, and the number of
  bytes is cast to an \<^verbatim>\<open>int\<close>.
\<close>

definition send_interest ::
    "'k epoll_ctl \<Rightarrow> nat \<Rightarrow> ('k, 'z) net_state_scheme \<Rightarrow> (unit, ('k, 'z) net_state_scheme) outcome" where
  "send_interest ctl i s =
     bindS (get_conn i s) (\<lambda>c s.
     bindS (if readableBytes (writeBuff c) \<noteq> 0 \<and> \<not> writeEnabled c
            then bindS (loop_addEvent ctl (conn_fd c) XE_WRITABLE s) (\<lambda>_. set_conn i (\<lambda>c. c\<lparr>writeEnabled := True\<rparr>))
            else Done () s) (\<lambda>_ s.
     bindS (get_conn i s) (\<lambda>c s.
       if readableBytes (writeBuff c) = 0 \<and> writeEnabled c
       then bindS (loop_removeEvent ctl (conn_fd c) XE_WRITABLE s) (\<lambda>_. set_conn i (\<lambda>c. c\<lparr>writeEnabled := False\<rparr>))
       else Done () s)))"

definition int_of_size :: "size_t \<Rightarrow> int" where
  "int_of_size n = sint (ucast n :: int32)"

definition conn_sendMsg ::
    "'k epoll_ctl \<Rightarrow> ('k, 'z) net_state_scheme cbs \<Rightarrow> nat \<Rightarrow> ('k, 'z) net_state_scheme \<Rightarrow>
     (int, ('k, 'z) net_state_scheme) outcome" where
  "conn_sendMsg ctl cb i s =
     bindS (get_conn i s) (\<lambda>c s.
       if \<not> isConnected c then Done (-1) s
       else
         let wb = writeBuff c in
         if readableBytes wb \<noteq> 0
         then bindS (sys_write (conn_fd c) (drop (unat (peek wb)) (buffer wb)) (int_of_size (readableBytes wb)) s)
                (\<lambda>r s. case r of
                   Failed e \<Rightarrow> if e = EAGAIN then Done 0 s else Done (-1) s
                 | Bytes n \<Rightarrow>
                     bindS (liftS (moveOver (of_nat n) wb) s) (\<lambda>wb' s.
                     let s = put_conn i (c\<lparr>writeBuff := wb'\<rparr>) s in
                     bindS (catchS (case sentBytesCb c of None \<Rightarrow> Done () s | Some f \<Rightarrow> sent_fn cb f i n s)
                              (\<lambda>e s. Done () s)) (\<lambda>_ s.
                     bindS (send_interest ctl i s) (\<lambda>_ s. Done (int n) s))))
         else bindS (send_interest ctl i s) (\<lambda>_ s. Done 0 s))"

definition sendMsgToBuffer ::
    "'k epoll_ctl \<Rightarrow> ('k, 'z) net_state_scheme cbs \<Rightarrow> nat \<Rightarrow> byte list \<Rightarrow> ('k, 'z) net_state_scheme \<Rightarrow>
     (unit, ('k, 'z) net_state_scheme) outcome" where
  "sendMsgToBuffer ctl cb i msg s =
     bindS (get_conn i s) (\<lambda>c s.
     bindS (liftS (append_string msg (writeBuff c)) s) (\<lambda>wb s.
     bindS (conn_sendMsg ctl cb i (put_conn i (c\<lparr>writeBuff := wb\<rparr>) s)) (\<lambda>_ s. Done () s)))"

definition sendMsg_string ::
    "'k epoll_ctl \<Rightarrow> ('k, 'z) net_state_scheme cbs \<Rightarrow>
     (closure \<Rightarrow> ('k, 'z) net_state_scheme \<Rightarrow> (unit, ('k, 'z) net_state_scheme) outcome) \<Rightarrow>
     nat \<Rightarrow> byte list \<Rightarrow> ('k, 'z) net_state_scheme \<Rightarrow> (unit, ('k, 'z) net_state_scheme) outcome" where
  "sendMsg_string ctl cb call i buf s =
     bindS (get_conn i s) (\<lambda>c s.
       if connStatus c \<noteq> XF_CONN_STATUS_CONNECTED then Done () s
       else if isLoopThread s then sendMsgToBuffer ctl cb i buf s
       else scheduleToLoopThread call (FCall (ConnSendMsgToBuffer i buf)) s)"

definition sendMsg_buffer ::
    "'k epoll_ctl \<Rightarrow> ('k, 'z) net_state_scheme cbs \<Rightarrow>
     (closure \<Rightarrow> ('k, 'z) net_state_scheme \<Rightarrow> (unit, ('k, 'z) net_state_scheme) outcome) \<Rightarrow>
     nat \<Rightarrow> xBuffer \<Rightarrow> ('k, 'z) net_state_scheme \<Rightarrow> (unit, ('k, 'z) net_state_scheme) outcome" where
  "sendMsg_buffer ctl cb call i buf s =
     bindS (get_conn i s) (\<lambda>c s.
       if connStatus c \<noteq> XF_CONN_STATUS_CONNECTED then Done () s
       else bindS (liftS (toString buf) s) (\<lambda>str s.
         if isLoopThread s then sendMsg_string ctl cb call i str s
         else scheduleToLoopThread call (FCall (ConnSendMsgToBuffer i str)) s))"

definition closeConnection ::
    "'k epoll_ctl \<Rightarrow> ('k, 'z) net_state_scheme cbs \<Rightarrow>
     (closure \<Rightarrow> ('k, 'z) net_state_scheme \<Rightarrow> (unit, ('k, 'z) net_state_scheme) outcome) \<Rightarrow>
     nat \<Rightarrow> ('k, 'z) net_state_scheme \<Rightarrow> (unit, ('k, 'z) net_state_scheme) outcome" where
  "closeConnection ctl cb call i s =
     bindS (get_conn i s) (\<lambda>c s.
       if connStatus c \<noteq> XF_CONN_STATUS_CONNECTED then Done () s
       else if isLoopThread s then bindS (closeConn ctl cb i s) (\<lambda>_ s. Done () s)
       else scheduleToLoopThread call (FCall (ConnCloseConn i)) s)"

definition closeConnectionAfter ::
    "(closure \<Rightarrow> ('k, 'z) net_state_scheme \<Rightarrow> (unit, ('k, 'z) net_state_scheme) outcome) \<Rightarrow>
     ptr \<Rightarrow> nat \<Rightarrow> int32 \<Rightarrow> ('k, 'z) net_state_scheme \<Rightarrow> (unit, ('k, 'z) net_state_scheme) outcome" where
  "closeConnectionAfter call p i milliseSeconds s =
     bindS (get_conn i s) (\<lambda>c s.
       if connStatus c \<noteq> XF_CONN_STATUS_CONNECTED then Done () s
       else bindS (runAfter call p milliseSeconds (ConnCloseConn i) s) (\<lambda>_ s. Done () s))"

section \<open>Receiving\<close>

text \<open>
  The loop of \<open>readMsg\<close>: it fills the read buffer until the descriptor has no more. Each turn
  uses one answer of the kernel, and the descriptor answers \<^verbatim>\<open>EAGAIN\<close> when the list is
  used up. \<open>None\<close> is the return with \<open>-1\<close>. A total beyond the range of \<^verbatim>\<open>int\<close> is
  an overflow.
\<close>

fun fill_loop :: "rd_res list \<Rightarrow> xBuffer \<Rightarrow> nat \<Rightarrow> fault + nat option \<times> xBuffer \<times> rd_res list" where
  "fill_loop [] b readSize = Inr (Some readSize, b, [])"
| "fill_loop (r # rs) b readSize =
     bindE (fillFromFd r b) (\<lambda>(n, b').
       case n of
         Failed e \<Rightarrow> if e = EAGAIN then Inr (Some readSize, b', rs) else Inr (None, b', rs)
       | Bytes k \<Rightarrow>
           if k = 0 then Inr (None, b', rs)
           else if 2 ^ 31 \<le> readSize + k then Inl Undefined
           else fill_loop rs b' (readSize + k))"

text \<open>
  \<open>parseProtocol\<close>: the decoder says how long the next message is; the message is copied to a
  new buffer and committed. A decoder that returns 0 makes no progress, so the loop has fuel.
\<close>

definition commit_message ::
    "('k, 'z) net_state_scheme cbs \<Rightarrow> nat \<Rightarrow> int \<Rightarrow> ('k, 'z) net_state_scheme \<Rightarrow>
     (unit, ('k, 'z) net_state_scheme) outcome" where
  "commit_message cb i ret s =
     bindS (liftS (xBuffer_new (of_int ret)) s) (\<lambda>commitBuffer s.
     bindS (get_conn i s) (\<lambda>c s.
     let rb = readBuff c in
     bindS (liftS (append_bytes (drop (unat (peek rb)) (buffer rb)) (of_int ret) commitBuffer) s) (\<lambda>commitBuffer s.
     bindS (liftS (moveOver (of_int ret) rb) s) (\<lambda>rb s.
     let s = put_conn i (c\<lparr>readBuff := rb\<rparr>) s in
     bindS (case msgCommitCb c of None \<Rightarrow> Raise BadFunctionCall s | Some f \<Rightarrow> commit_fn cb f i commitBuffer s) (\<lambda>b s.
     bindS (liftS (toString b) s) (\<lambda>_ s. Done () s))))))"

fun parse_loop ::
    "('k, 'z) net_state_scheme cbs \<Rightarrow> closure \<Rightarrow> nat \<Rightarrow> nat \<Rightarrow> ('k, 'z) net_state_scheme \<Rightarrow>
     (unit, ('k, 'z) net_state_scheme) outcome" where
  "parse_loop cb dcb i 0 s = Diverge"
| "parse_loop cb dcb i (Suc fuel) s =
     bindS (get_conn i s) (\<lambda>c s.
       if readableBytes (readBuff c) = 0 then Done () s
       else
         let bufferSize = int_of_size (readableBytes (readBuff c)) in
         bindS (liftS (toString (readBuff c)) s) (\<lambda>bs s.
         bindS (decode_fn cb dcb bs bufferSize s) (\<lambda>ret s.
           if ret = XF_MSG_DECODE_ERR then set_conn i (\<lambda>c. c\<lparr>readBuff := reset (readBuff c)\<rparr>) s
           else if ret = XF_MSG_DECODE_NOT_ENOUGH then Done () s
           else bindS (commit_message cb i (if ret > bufferSize then bufferSize else ret) s)
                  (\<lambda>_ s. parse_loop cb dcb i fuel s))))"

definition parseProtocol ::
    "('k, 'z) net_state_scheme cbs \<Rightarrow> nat \<Rightarrow> nat \<Rightarrow> ('k, 'z) net_state_scheme \<Rightarrow>
     (unit, ('k, 'z) net_state_scheme) outcome" where
  "parseProtocol cb fuel i s =
     bindS (get_conn i s) (\<lambda>c s.
       case decodeCb c of
         None \<Rightarrow> Done () s
       | Some dcb \<Rightarrow>
           catchS (parse_loop cb dcb i fuel s)
             (\<lambda>e s. set_conn i (\<lambda>c. c\<lparr>readBuff := reset (readBuff c)\<rparr>) s))"

definition readMsg ::
    "('k, 'z) net_state_scheme cbs \<Rightarrow> nat \<Rightarrow> nat \<Rightarrow> ('k, 'z) net_state_scheme \<Rightarrow>
     (int, ('k, 'z) net_state_scheme) outcome" where
  "readMsg cb fuel i s =
     bindS (get_conn i s) (\<lambda>c s.
     bindS (liftS (fill_loop (rx s (conn_fd c)) (readBuff c) 0) s) (\<lambda>(r, rb, rs) s.
     let s = put_conn i (c\<lparr>readBuff := rb\<rparr>) (s\<lparr>rx := (rx s)(conn_fd c := rs)\<rparr>) in
     case r of
       None \<Rightarrow> Done (-1) s
     | Some readSize \<Rightarrow>
         bindS (if readSize > 0 then parseProtocol cb fuel i s else Done () s) (\<lambda>_ s.
           Done (int readSize) s)))"

definition HandleEvent ::
    "'k epoll_ctl \<Rightarrow> ('k, 'z) net_state_scheme cbs \<Rightarrow> nat \<Rightarrow> nat \<Rightarrow> xEvent \<Rightarrow> ('k, 'z) net_state_scheme \<Rightarrow>
     (unit, ('k, 'z) net_state_scheme) outcome" where
  "HandleEvent ctl cb fuel i xe s =
     (if has (emask xe) XE_ERROR \<or> has (emask xe) XE_HUP
      then bindS (closeConn ctl cb i s) (\<lambda>_ s. Done () s)
      else
        bindS (if has (emask xe) XE_READABLE then readMsg cb fuel i s else Done 0 s) (\<lambda>ret s.
          if ret < 0 then bindS (closeConn ctl cb i s) (\<lambda>_ s. Done () s)
          else
            bindS (if has (emask xe) XE_WRITABLE then conn_sendMsg ctl cb i s else Done 0 s) (\<lambda>ret s.
              if ret < 0 then bindS (closeConn ctl cb i s) (\<lambda>_ s. Done () s)
              else Done () s)))"

end
