(* ===== verification/Connection_Laws.thy ===== *)
theory Connection_Laws
  imports Connection Loop_Laws Buffer_Fifo
begin

text \<open>
  What the handlers of a connection do: the accounting of sent bytes, one message taken from the
  read buffer, filling it, and closing.
\<close>

section \<open>Fields\<close>

lemma get_conn_Some [simp]: "conns s i = Some c \<Longrightarrow> get_conn i s = Done c s"
  by (simp add: get_conn_def)

lemma put_conn_fields [simp]:
  "conns (put_conn i c s) = (conns s)(i \<mapsto> c)" "register (put_conn i c s) = register s"
  "kern (put_conn i c s) = kern s" "tx (put_conn i c s) = tx s" "wire (put_conn i c s) = wire s"
  "rx (put_conn i c s) = rx s" "extraEvents (put_conn i c s) = extraEvents s"
  "isLoopThread (put_conn i c s) = isLoopThread s" "mirror view (put_conn i c s) = mirror view s"
  "net_state.more (put_conn i c s) = net_state.more s" "wakeupFd (put_conn i c s) = wakeupFd s"
  by (simp_all add: put_conn_def isLoopThread_def mirror_def)

lemma isLoopThread_fields [simp]:
  "isLoopThread (s\<lparr>register := r\<rparr>) = isLoopThread s" "isLoopThread (s\<lparr>kern := k\<rparr>) = isLoopThread s"
  "isLoopThread (s\<lparr>tx := t\<rparr>) = isLoopThread s" "isLoopThread (s\<lparr>wire := w\<rparr>) = isLoopThread s"
  "isLoopThread (s\<lparr>rx := x\<rparr>) = isLoopThread s"
  "isLoopThread (net_state.more_update f n) = isLoopThread n"
  by (simp_all add: isLoopThread_def)

lemma mirror_fields [simp]:
  "mirror view (s\<lparr>tx := t\<rparr>) = mirror view s" "mirror view (s\<lparr>wire := w\<rparr>) = mirror view s"
  "mirror view (s\<lparr>rx := x\<rparr>) = mirror view s"
  "mirror view (net_state.more_update f n) = mirror view n"
  by (simp_all add: mirror_def)

lemma set_conn_Some [simp]: "conns s i = Some c \<Longrightarrow> set_conn i f s = Done () (put_conn i (f c) s)"
  by (simp add: set_conn_def)

lemma int_of_size_small: "unat n < 2 ^ 31 \<Longrightarrow> int_of_size n = int (unat n)"
proof -
  assume a: "unat n < 2 ^ 31"
  have "(ucast n :: int32) = of_nat (unat n)"
    by simp
  then show ?thesis
    using sint_of_nat32 [OF a] by (simp only: int_of_size_def)
qed

section \<open>Sending\<close>

lemma int_of_readable:
  assumes "bwf b" and "length (content b) < 2 ^ 31"
  shows "int_of_size (readableBytes b) = int (length (content b))"
proof -
  have u: "unat (readableBytes b) = length (content b)"
    using assms(1) by (rule unat_readableBytes)
  then show ?thesis
    using int_of_size_small [of "readableBytes b"] assms(2) by (simp only: u)
qed

text \<open>The system call sees exactly the readable bytes.\<close>

lemma sys_write_content:
  assumes "bwf b" and "length (content b) < 2 ^ 31"
  shows "sys_write fd (drop (unat (peek b)) (buffer b)) (int_of_size (readableBytes b)) s =
    (case write_loop (tx s fd) (content b) 0 of
       (r, acc, ws) \<Rightarrow> Done r (s\<lparr>tx := (tx s)(fd := ws), wire := (wire s)(fd := wire s fd @ acc)\<rparr>))"
proof -
  note n = int_of_readable [OF assms]
  have "take (length (content b)) (drop (unat (peek b)) (buffer b)) = content b"
    using length_content [OF assms(1)] by (simp add: content_def seg_def peek_def)
  moreover have "length (content b) \<le> length (drop (unat (peek b)) (buffer b))"
    using length_content [OF assms(1)] bwfD [OF assms(1)] by (simp add: peek_def)
  ultimately show ?thesis
    by (simp add: sys_write_def writeFd_def n)
qed

text \<open>Callbacks for sent bytes that return or throw and only change what lies behind the network state.\<close>

definition quiet_sent :: "('k, 'z) net_state_scheme cbs \<Rightarrow> xConnection \<Rightarrow> bool" where
  "quiet_sent cb c \<longleftrightarrow> (\<forall>f i n s. sentBytesCb c = Some f \<longrightarrow> (\<exists>g e.
     sent_fn cb f i n s \<in> {Done () (net_state.more_update g s), Raise e (net_state.more_update g s)}))"

lemma quiet_sent_buffer [simp]: "quiet_sent cb (c\<lparr>writeBuff := b\<rparr>) = quiet_sent cb c"
  by (simp add: quiet_sent_def)

lemma net_more_id: "net_state.more_update (\<lambda>g. g) s = s"
  by simp

lemma quiet_sent_call:
  assumes "quiet_sent cb c" and "sentBytesCb c = sc"
  shows "\<exists>g. catchS (case sc of None \<Rightarrow> Done () s | Some f \<Rightarrow> sent_fn cb f i n s) (\<lambda>e s. Done () s) =
    Done () (net_state.more_update g s)"
proof (cases sc)
  case None
  then show ?thesis by (intro exI [of _ "\<lambda>x. x"]) simp
next
  case (Some f)
  obtain g e where "sent_fn cb f i n s \<in> {Done () (net_state.more_update g s), Raise e (net_state.more_update g s)}"
    using assms Some unfolding quiet_sent_def by blast
  then show ?thesis using Some by (intro exI [of _ g]) auto
qed

lemma loop_addEvent_spec:
  assumes "epoll_ctl_spec ctl view usable" and "mirror view s" and "isLoopThread s"
  obtains k where "loop_addEvent ctl fd m s = Done 0 (s\<lparr>register := reg_spec (AddEv fd m) (register s), kern := k\<rparr>)"
    and "mirror view (s\<lparr>register := reg_spec (AddEv fd m) (register s), kern := k\<rparr>)"
  using loop_addEvent_ok [OF assms, of fd m] that by auto

lemma loop_removeEvent_spec:
  assumes "epoll_ctl_spec ctl view usable" and "mirror view s" and "isLoopThread s"
  obtains k where "loop_removeEvent ctl fd m s = Done 0 (s\<lparr>register := reg_spec (RemoveEv fd m) (register s), kern := k\<rparr>)"
    and "mirror view (s\<lparr>register := reg_spec (RemoveEv fd m) (register s), kern := k\<rparr>)"
  using loop_removeEvent_ok [OF assms, of fd m] that by auto

text \<open>The write interest after a send: asked for when bytes are left, given back when none is.\<close>

definition interest_after :: "xConnection \<Rightarrow> (int \<Rightarrow> xEventState option) \<Rightarrow> int \<Rightarrow> xEventState option" where
  "interest_after c r =
     (if content (writeBuff c) \<noteq> [] \<and> \<not> writeEnabled c then reg_spec (AddEv (conn_fd c) XE_WRITABLE) r
      else if content (writeBuff c) = [] \<and> writeEnabled c then reg_spec (RemoveEv (conn_fd c) XE_WRITABLE) r
      else r)"

text \<open>
  The same, as the mask of the registered descriptor. Asking for write readiness sets its bit;
  giving it back, when the bit is there, or-s in the complement, so that the bit stays and all
  others are set, too.
\<close>

definition write_mask :: "bool \<Rightarrow> bool \<Rightarrow> int32 \<Rightarrow> int32" where
  "write_mask left on m =
     (if left \<and> \<not> on then m OR XE_WRITABLE
      else if \<not> left \<and> on \<and> m AND XE_WRITABLE \<noteq> 0 then m OR NOT XE_WRITABLE
      else m)"

lemma or_writable: "m AND XE_WRITABLE \<noteq> 0 \<Longrightarrow> m OR XE_WRITABLE = m"
  by (auto simp: XE_WRITABLE_def bit_eq_iff [where 'a = int32] bit_simps bit_2_iff)

lemma interest_after_mask:
  "interest_after c r = r(conn_fd c := map_option
     (\<lambda>st. st\<lparr>es_mask := write_mask (content (writeBuff c) \<noteq> []) (writeEnabled c) (es_mask st)\<rparr>) (r (conn_fd c)))"
  unfolding interest_after_def write_mask_def
  by (cases "r (conn_fd c)") (auto simp: fun_eq_iff or_writable)

lemma readable_0: "bwf b \<Longrightarrow> readableBytes b = 0 \<longleftrightarrow> content b = []"
  by (metis length_0_conv unat_eq_zero unat_readableBytes)

lemma put_conn_twice [simp]: "put_conn i c (put_conn i d s) = put_conn i c s"
  by (simp add: put_conn_def)

lemma put_conn_same: "conns s i = Some c \<Longrightarrow> put_conn i c s = s"
  by (simp add: put_conn_def fun_upd_idem)

lemma send_interest_ok:
  assumes "epoll_ctl_spec ctl view usable" and "mirror view s" and "isLoopThread s"
    and c: "conns s i = Some c" and "bwf (writeBuff c)"
  obtains k where "send_interest ctl i s = Done ()
      (put_conn i (c\<lparr>writeEnabled := content (writeBuff c) \<noteq> []\<rparr>) (s\<lparr>register := interest_after c (register s), kern := k\<rparr>))"
    and "mirror view (s\<lparr>register := interest_after c (register s), kern := k\<rparr>)"
proof (cases "content (writeBuff c) = []")
  case empty: True
  note R = readable_0 [OF assms(5)]
  show ?thesis
  proof (cases "writeEnabled c")
    case True
    obtain k where "loop_removeEvent ctl (conn_fd c) XE_WRITABLE s =
        Done 0 (s\<lparr>register := reg_spec (RemoveEv (conn_fd c) XE_WRITABLE) (register s), kern := k\<rparr>)"
      "mirror view (s\<lparr>register := reg_spec (RemoveEv (conn_fd c) XE_WRITABLE) (register s), kern := k\<rparr>)"
      using assms(1-3) by (rule loop_removeEvent_spec)
    then show ?thesis
      using c empty R True by (intro that [of k]) (simp_all add: send_interest_def interest_after_def del: reg_spec.simps)
  next
    case False
    then have e: "c\<lparr>writeEnabled := content (writeBuff c) \<noteq> []\<rparr> = c" using empty by (cases c) simp
    have "send_interest ctl i s = Done () s"
      using c empty R False by (simp add: send_interest_def)
    then show ?thesis
      using assms(2) c empty False by (intro that [of "kern s"]) (simp_all only: e interest_after_def put_conn_same, simp_all add: put_conn_same)
  qed
next
  case full: False
  note R = readable_0 [OF assms(5)]
  show ?thesis
  proof (cases "writeEnabled c")
    case False
    obtain k where "loop_addEvent ctl (conn_fd c) XE_WRITABLE s =
        Done 0 (s\<lparr>register := reg_spec (AddEv (conn_fd c) XE_WRITABLE) (register s), kern := k\<rparr>)"
      "mirror view (s\<lparr>register := reg_spec (AddEv (conn_fd c) XE_WRITABLE) (register s), kern := k\<rparr>)"
      using assms(1-3) by (rule loop_addEvent_spec)
    then show ?thesis
      using c full R False by (intro that [of k]) (simp_all add: send_interest_def interest_after_def del: reg_spec.simps)
  next
    case True
    then have e: "c\<lparr>writeEnabled := content (writeBuff c) \<noteq> []\<rparr> = c" using full by (cases c) simp
    have "send_interest ctl i s = Done () s"
      using c full R True by (simp add: send_interest_def)
    then show ?thesis
      using assms(2) c full True by (intro that [of "kern s"]) (simp_all only: e interest_after_def put_conn_same, simp_all add: put_conn_same)
  qed
qed

lemma write_loop_nil: "write_loop ws [] 0 = (r, acc, ws') \<Longrightarrow> r = Bytes 0 \<and> acc = [] \<and> ws' = ws"
  by (cases ws) auto

text \<open>A callback for sent bytes that does nothing at all.\<close>

definition silent_sent :: "('k, 'z) net_state_scheme cbs \<Rightarrow> xConnection \<Rightarrow> bool" where
  "silent_sent cb c \<longleftrightarrow> (\<forall>f i n s. sentBytesCb c = Some f \<longrightarrow> sent_fn cb f i n s = Done () s)"

lemma silent_sent_buffer [simp]: "silent_sent cb (c\<lparr>writeBuff := b\<rparr>) = silent_sent cb c"
  "silent_sent cb (c\<lparr>writeEnabled := w\<rparr>) = silent_sent cb c"
  by (simp_all add: silent_sent_def)

lemma silent_quiet: "silent_sent cb c \<Longrightarrow> quiet_sent cb c"
  unfolding silent_sent_def quiet_sent_def by (metis insertI1 net_more_id)

lemma silent_sent_call:
  "silent_sent cb c \<Longrightarrow> sentBytesCb c = sc \<Longrightarrow>
    catchS (case sc of None \<Rightarrow> Done () s | Some f \<Rightarrow> sent_fn cb f i n s) (\<lambda>e s. Done () s) = Done () s"
  by (cases sc) (simp_all add: silent_sent_def)

text \<open>The write call took \<open>acc\<close> and returned its length.\<close>

lemma conn_sendMsg_taken_all:
  assumes ctl: "epoll_ctl_spec ctl view usable" and m: "mirror view s" and loop: "isLoopThread s"
    and q: "quiet_sent cb c" and c: "conns s i = Some c" and conn: "isConnected c" and b: "bwf (writeBuff c)"
    and len: "length (content (writeBuff c)) < 2 ^ 31"
    and w: "write_loop (tx s (conn_fd c)) (content (writeBuff c)) 0 = (Bytes n, acc, ws)"
  obtains s' b' where "conn_sendMsg ctl cb i s = Done (int n) s'"
    and "bwf b'" and "content b' = drop n (content (writeBuff c))" and "acc = take n (content (writeBuff c))"
    and "conns s' = (conns s)(i \<mapsto> c\<lparr>writeBuff := b', writeEnabled := content b' \<noteq> []\<rparr>)"
    and "wire s' = (wire s)(conn_fd c := wire s (conn_fd c) @ acc)"
    and "tx s' = (tx s)(conn_fd c := ws)"
    and "register s' = interest_after (c\<lparr>writeBuff := b'\<rparr>) (register s)"
    and "mirror view s'" and "isLoopThread s'"
    and "content (writeBuff c) \<noteq> [] \<Longrightarrow> moveOver (of_nat n) (writeBuff c) = Inr b'"
    and "silent_sent cb c \<Longrightarrow> net_state.more s' = net_state.more s"
proof (cases "content (writeBuff c) = []")
  case True
  have n: "n = 0" "acc = []" "ws = tx s (conn_fd c)"
    using write_loop_nil [OF w [unfolded True]] by simp_all
  obtain k where "send_interest ctl i s = Done ()
      (put_conn i (c\<lparr>writeEnabled := content (writeBuff c) \<noteq> []\<rparr>) (s\<lparr>register := interest_after c (register s), kern := k\<rparr>))"
    "mirror view (s\<lparr>register := interest_after c (register s), kern := k\<rparr>)"
    using ctl m loop c b by (rule send_interest_ok)
  then show ?thesis
    using True n c conn b loop readable_0 [OF b]
    by (intro that [of "put_conn i (c\<lparr>writeEnabled := content (writeBuff c) \<noteq> []\<rparr>)
        (s\<lparr>register := interest_after c (register s), kern := k\<rparr>)" "writeBuff c"]) (simp_all add: conn_sendMsg_def)
next
  case False
  let ?fd = "conn_fd c"
  let ?s1 = "s\<lparr>tx := (tx s)(?fd := ws), wire := (wire s)(?fd := wire s ?fd @ acc)\<rparr>"
  have n: "n = length acc" and pre: "acc = take (length acc) (content (writeBuff c))"
    using write_loop_count [OF w] write_loop_prefix [OF w] by simp_all
  have le: "n \<le> length (content (writeBuff c))"
    using n pre by (metis length_take min.cobounded1)
  have u: "unat (of_nat n :: size_t) = n"
    using le len by (intro unat_size_of_nat) simp
  obtain b' where b': "moveOver (of_nat n) (writeBuff c) = Inr b'" "bwf b'"
    "content b' = drop n (content (writeBuff c))"
    using moveOver_ok [OF b, of "of_nat n"] le u by metis
  let ?c1 = "c\<lparr>writeBuff := b'\<rparr>"
  obtain g where g: "catchS (case sentBytesCb c of None \<Rightarrow> Done () (put_conn i ?c1 ?s1)
        | Some f \<Rightarrow> sent_fn cb f i n (put_conn i ?c1 ?s1)) (\<lambda>e s. Done () s) =
      Done () (net_state.more_update g (put_conn i ?c1 ?s1))"
    using quiet_sent_call [OF q refl] by blast
  let ?s2 = "net_state.more_update g (put_conn i ?c1 ?s1)"
  have silent: "net_state.more ?s2 = net_state.more s" if "silent_sent cb c"
    using g silent_sent_call [OF that refl, of "put_conn i ?c1 ?s1" i n] by simp
  have "mirror view ?s2" "isLoopThread ?s2" "conns ?s2 i = Some ?c1" "bwf (writeBuff ?c1)"
    using m loop b' by simp_all
  from send_interest_ok [OF ctl this] obtain k where k: "send_interest ctl i ?s2 = Done ()
      (put_conn i (?c1\<lparr>writeEnabled := content (writeBuff ?c1) \<noteq> []\<rparr>) (?s2\<lparr>register := interest_after ?c1 (register ?s2), kern := k\<rparr>))"
    "mirror view (?s2\<lparr>register := interest_after ?c1 (register ?s2), kern := k\<rparr>)"
    by metis
  have "conn_sendMsg ctl cb i s = Done (int n)
      (put_conn i (?c1\<lparr>writeEnabled := content (writeBuff ?c1) \<noteq> []\<rparr>) (?s2\<lparr>register := interest_after ?c1 (register ?s2), kern := k\<rparr>))"
    using c conn False readable_0 [OF b] sys_write_content [OF b len, of ?fd s] w b'(1) g k(1)
    by (simp add: conn_sendMsg_def Let_def)
  from that [OF this b'(2,3)] show ?thesis
    using k(2) n pre loop b' silent by simp
qed

lemma conn_sendMsg_taken:
  assumes "epoll_ctl_spec ctl view usable" and "mirror view s" and "isLoopThread s"
    and "quiet_sent cb c" and "conns s i = Some c" and "isConnected c" and "bwf (writeBuff c)"
    and "length (content (writeBuff c)) < 2 ^ 31"
    and "write_loop (tx s (conn_fd c)) (content (writeBuff c)) 0 = (Bytes n, acc, ws)"
  obtains s' b' where "conn_sendMsg ctl cb i s = Done (int n) s'"
    and "bwf b'" and "content b' = drop n (content (writeBuff c))" and "acc = take n (content (writeBuff c))"
    and "conns s' = (conns s)(i \<mapsto> c\<lparr>writeBuff := b', writeEnabled := content b' \<noteq> []\<rparr>)"
    and "wire s' = (wire s)(conn_fd c := wire s (conn_fd c) @ acc)"
    and "tx s' = (tx s)(conn_fd c := ws)"
    and "register s' = interest_after (c\<lparr>writeBuff := b'\<rparr>) (register s)"
    and "mirror view s'" and "isLoopThread s'"
  using assms by (rule conn_sendMsg_taken_all) (rule that)

text \<open>The write call failed, possibly after it had taken \<open>acc\<close>.\<close>

lemma conn_sendMsg_failed:
  assumes c: "conns s i = Some c" and conn: "isConnected c" and b: "bwf (writeBuff c)"
    and len: "length (content (writeBuff c)) < 2 ^ 31"
    and w: "write_loop (tx s (conn_fd c)) (content (writeBuff c)) 0 = (Failed e, acc, ws)"
  shows "conn_sendMsg ctl cb i s = Done (if e = EAGAIN then 0 else -1)
    (s\<lparr>tx := (tx s)(conn_fd c := ws), wire := (wire s)(conn_fd c := wire s (conn_fd c) @ acc)\<rparr>)"
proof -
  have "content (writeBuff c) \<noteq> []"
  proof
    assume "content (writeBuff c) = []"
    from write_loop_nil [OF w [unfolded this]] show False by simp
  qed
  then show ?thesis
    using c conn readable_0 [OF b] sys_write_content [OF b len, of "conn_fd c" s] w
    by (simp add: conn_sendMsg_def Let_def)
qed

section \<open>Receiving\<close>

text \<open>
  Callbacks of a framing protocol: the decoder is a function \<open>dec\<close> of the readable bytes, and
  a commit applies \<open>lg\<close> to what lies behind the network state.
\<close>

definition framing_cbs ::
    "('k, 'z) net_state_scheme cbs \<Rightarrow> xConnection \<Rightarrow> (byte list \<Rightarrow> int) \<Rightarrow> (byte list \<Rightarrow> 'z \<Rightarrow> 'z) \<Rightarrow> bool" where
  "framing_cbs cb c dec lg \<longleftrightarrow>
     (\<forall>f bs s. decodeCb c = Some f \<longrightarrow> decode_fn cb f bs (int (length bs)) s = Done (dec bs) s) \<and>
     (\<forall>f i b s. msgCommitCb c = Some f \<and> bwf b \<longrightarrow> (\<exists>b'. bwf b' \<and>
        commit_fn cb f i b s = Done b' (net_state.more_update (lg (content b)) s)))"

lemma framing_buffer [simp]: "framing_cbs cb (c\<lparr>readBuff := b\<rparr>) dec lg = framing_cbs cb c dec lg"
  by (simp add: framing_cbs_def)

text \<open>
  What such a decoder makes of a byte sequence: the messages, and the bytes that are left. A
  result of 0 or below \<open>-2\<close> is outside the protocol of the decoder.
\<close>

function split_frames :: "(byte list \<Rightarrow> int) \<Rightarrow> byte list \<Rightarrow> byte list list \<times> byte list" where
  "split_frames dec bs =
     (if bs = [] \<or> dec bs = -1 then ([], [])
      else if dec bs \<le> 0 then ([], bs)
      else let n = nat (min (dec bs) (int (length bs))); (fs, rest) = split_frames dec (drop n bs)
           in (take n bs # fs, rest))"
  by pat_completeness auto
termination by (relation "measure (\<lambda>(dec, bs). length bs)") auto

declare split_frames.simps [simp del]

lemma split_frames_concat:
  "(\<And>bs. dec bs \<noteq> -1) \<Longrightarrow> concat (fst (split_frames dec bs)) @ snd (split_frames dec bs) = bs"
proof (induction dec bs rule: split_frames.induct)
  case (1 dec bs)
  show ?case
  proof (cases "bs = [] \<or> dec bs \<le> 0")
    case True
    then show ?thesis using "1.prems" by (subst (1 2) split_frames.simps) auto
  next
    case False
    let ?n = "nat (min (dec bs) (int (length bs)))"
    have "concat (fst (split_frames dec (drop ?n bs))) @ snd (split_frames dec (drop ?n bs)) = drop ?n bs"
      using "1.IH" [OF _ _ refl] False "1.prems" by auto
    moreover have "split_frames dec bs =
        (take ?n bs # fst (split_frames dec (drop ?n bs)), snd (split_frames dec (drop ?n bs)))"
      using False "1.prems" by (subst split_frames.simps) (simp add: Let_def split: prod.split)
    ultimately show ?thesis
      by (metis append_assoc append_take_drop_id concat.simps(2) fst_conv snd_conv)
  qed
qed

text \<open>
  The message is copied to a new buffer, which has room in front for four bytes, and leaves the
  read buffer; then the callback gets it.
\<close>

lemma commit_message_calls:
  assumes c: "conns s i = Some c" and b: "bwf (readBuff c)" and m: "msgCommitCb c = Some mcb"
    and n: "n \<le> length (content (readBuff c))" and small: "n < 2 ^ 31"
  obtains b1 rb where "commit_message cb i (int n) s =
      bindS (commit_fn cb mcb i b1 (put_conn i (c\<lparr>readBuff := rb\<rparr>) s)) (\<lambda>b s. bindS (liftS (toString b) s) (\<lambda>_ s. Done () s))"
    and "bwf b1" and "content b1 = take n (content (readBuff c))" and "4 \<le> unat (readerIndex b1)"
    and "bwf rb" and "content rb = drop n (content (readBuff c))" and "buffer rb = buffer (readBuff c)"
proof -
  let ?rb = "readBuff c"
  let ?w = "of_nat n :: size_t"
  have u: "unat ?w = n"
    using small by (intro unat_size_of_nat) simp
  obtain b0 where b0: "xBuffer_new ?w = Inr b0" "bwf b0" "content b0 = []" "unat (writerIndex b0) = 4" "unat (readerIndex b0) = 4"
    using xBuffer_new_ok [of ?w] u small by (auto simp: vec_max_def)
  let ?mem = "drop (unat (peek ?rb)) (buffer ?rb)"
  have mem: "take n ?mem = take n (content ?rb)" "n \<le> length ?mem"
    using n length_content [OF b] bwfD [OF b] by (simp_all add: content_def seg_def peek_def min_def)
  obtain b1 where b1: "append_bytes ?mem ?w b0 = Inr b1" "bwf b1" "content b1 = take n (content ?rb)"
  proof -
    have "unat ?w \<le> length ?mem" "unat (writerIndex b0) + unat ?w \<le> vec_max"
      using u mem(2) b0(4) small by (simp_all add: vec_max_def)
    from append_bytes_ok [OF b0(2) this] show ?thesis
      using b0(3) u mem(1) that by (metis append_Nil)
  qed
  have r: "4 \<le> unat (readerIndex b1)"
    using append_bytes_front [OF b1(1)] b0(5) by simp
  obtain rb where rb: "moveOver ?w ?rb = Inr rb" "bwf rb" "content rb = drop n (content ?rb)" "buffer rb = buffer ?rb"
    using moveOver_ok [OF b, of ?w] u n by metis
  have "commit_message cb i (int n) s =
      bindS (commit_fn cb mcb i b1 (put_conn i (c\<lparr>readBuff := rb\<rparr>) s)) (\<lambda>b s. bindS (liftS (toString b) s) (\<lambda>_ s. Done () s))"
    using c m b0(1) b1(1) rb(1) by (simp add: commit_message_def)
  then show ?thesis
    using b1(2,3) r rb(2-4) by (rule that)
qed

lemma commit_message_ok:
  assumes f: "framing_cbs cb c dec lg" and c: "conns s i = Some c" and b: "bwf (readBuff c)"
    and m: "msgCommitCb c = Some mcb" and n: "n \<le> length (content (readBuff c))" and small: "n < 2 ^ 31"
  obtains b' where "commit_message cb i (int n) s =
      Done () (net_state.more_update (lg (take n (content (readBuff c)))) (put_conn i (c\<lparr>readBuff := b'\<rparr>) s))"
    and "bwf b'" and "content b' = drop n (content (readBuff c))"
proof -
  obtain b1 rb where k: "commit_message cb i (int n) s =
      bindS (commit_fn cb mcb i b1 (put_conn i (c\<lparr>readBuff := rb\<rparr>) s)) (\<lambda>b s. bindS (liftS (toString b) s) (\<lambda>_ s. Done () s))"
    "bwf b1" "content b1 = take n (content (readBuff c))" "bwf rb" "content rb = drop n (content (readBuff c))"
    using commit_message_calls [OF c b m n small] by metis
  obtain b2 where "bwf b2" "commit_fn cb mcb i b1 (put_conn i (c\<lparr>readBuff := rb\<rparr>) s) =
      Done b2 (net_state.more_update (lg (take n (content (readBuff c)))) (put_conn i (c\<lparr>readBuff := rb\<rparr>) s))"
    using f m k(2,3) unfolding framing_cbs_def by metis
  then show ?thesis
    using k by (intro that [of rb]) (simp_all add: toString_ok)
qed

lemma commit_empty:
  assumes "framing_cbs cb c dec lg" and "conns s i = Some c" and "bwf (readBuff c)" and "msgCommitCb c = Some mcb"
  shows "\<exists>b'. commit_message cb i 0 s = Done () (net_state.more_update (lg []) (put_conn i (c\<lparr>readBuff := b'\<rparr>) s)) \<and>
    bwf b' \<and> content b' = content (readBuff c)"
  using commit_message_ok [OF assms, of 0] by auto

text \<open>Data that has arrived in chunks goes to the read buffer as one sequence of bytes.\<close>

lemma fill_room_ge: "8192 \<le> fill_room b"
  by (simp add: fill_room_def Let_def)

lemma fill_loop_ok:
  assumes "\<forall>ds \<in> set ch. ds \<noteq> [] \<and> length ds \<le> 8192"
  shows "bwf b \<Longrightarrow> unat (writerIndex b) + length (concat ch) \<le> vec_max \<Longrightarrow> k + length (concat ch) < 2 ^ 31 \<Longrightarrow>
    \<exists>b'. bwf b' \<and> content b' = content b @ concat ch \<and>
      unat (writerIndex b') \<le> unat (writerIndex b) + length (concat ch) \<and>
      fill_loop (map RData ch @ rs) b k = fill_loop rs b' (k + length (concat ch))"
  using assms
proof (induction ch arbitrary: b k)
  case Nil
  then show ?case by (intro exI [of _ b]) simp
next
  case (Cons ds ch)
  have t: "take (fill_room b) ds = ds"
    using Cons.prems(4) fill_room_ge [of b] by (intro take_all) auto
  obtain b1 where b1: "fillFromFd (RData ds) b = Inr (Bytes (length ds), b1)" "bwf b1"
    "content b1 = content b @ ds" "unat (writerIndex b1) \<le> unat (writerIndex b) + length ds"
  proof -
    have "unat (writerIndex b) + length (take (fill_room b) ds) \<le> vec_max"
      using Cons.prems(2) unfolding t by simp
    from fillFromFd_ok [OF Cons.prems(1) this] show ?thesis
      unfolding t using that by blast
  qed
  have "unat (writerIndex b1) + length (concat ch) \<le> vec_max" "(k + length ds) + length (concat ch) < 2 ^ 31"
    using Cons.prems(2,3) b1(4) by simp_all
  then obtain b' where b': "bwf b'" "content b' = content b1 @ concat ch"
    "unat (writerIndex b') \<le> unat (writerIndex b1) + length (concat ch)"
    "fill_loop (map RData ch @ rs) b1 (k + length ds) = fill_loop rs b' (k + length ds + length (concat ch))"
    using Cons.IH [OF b1(2)] Cons.prems(4) by auto
  have "ds \<noteq> []" "k + length ds < 2 ^ 31"
    using Cons.prems(3,4) by simp_all
  then show ?case
    using b1 b' by (intro exI [of _ b']) (simp add: add.assoc)
qed

lemma fill_loop_eof: "bwf b \<Longrightarrow> unat (writerIndex b) \<le> vec_max \<Longrightarrow>
    \<exists>b'. fill_loop (RData [] # rs) b k = Inr (None, b', rs) \<and> content b' = content b \<and> bwf b'"
proof -
  assume b: "bwf b" "unat (writerIndex b) \<le> vec_max"
  have t: "take (fill_room b) [] = ([] :: byte list)" by simp
  obtain b' where "fillFromFd (RData []) b = Inr (Bytes 0, b')" "bwf b'" "content b' = content b"
    using fillFromFd_ok [OF b(1), of "[]"] b(2) unfolding t by auto
  then show ?thesis by simp
qed

section \<open>Closing\<close>

text \<open>A close callback runs \<open>h\<close> behind the network state, and may then throw.\<close>

definition conn_logs :: "('k, 'z) net_state_scheme cbs \<Rightarrow> xConnection \<Rightarrow> (closure \<Rightarrow> nat \<Rightarrow> 'z \<Rightarrow> 'z) \<Rightarrow> bool" where
  "conn_logs cb c h \<longleftrightarrow> (\<forall>f i s. connCloseCb c = Some f \<longrightarrow> conn_fn cb f i s = Done () (net_state.more_update (h f i) s) \<or>
     (\<exists>e. conn_fn cb f i s = Raise e (net_state.more_update (h f i) s)))"

definition closed :: "xConnection \<Rightarrow> bool" where
  "closed c \<longleftrightarrow> connStatus c = XF_CONN_STATUS_DISCONNECTED \<or> connStatus c = XF_CONN_STATUS_DISCONNECTING"

lemma closeConn_closed: "isLoopThread s \<Longrightarrow> conns s i = Some c \<Longrightarrow> closed c \<Longrightarrow> closeConn ctl cb i s = Done 0 s"
  by (simp add: closeConn_def closed_def)

lemma closeConn_open:
  assumes "epoll_ctl_spec ctl view usable" and "mirror view s" and "isLoopThread s"
    and c: "conns s i = Some c" and "\<not> closed c" and h: "conn_logs cb c h"
  obtains s' where "closeConn ctl cb i s = Done 0 s'"
    and "conns s' = (conns s)(i \<mapsto> c\<lparr>connStatus := XF_CONN_STATUS_DISCONNECTING\<rparr>)"
    and "register s' = (register s)(conn_fd c := None)" and "mirror view s'" and "isLoopThread s'"
    and "net_state.more s' = (case connCloseCb c of None \<Rightarrow> net_state.more s | Some f \<Rightarrow> h f i (net_state.more s))"
    and "wire s' = wire s"
proof -
  let ?c = "c\<lparr>connStatus := XF_CONN_STATUS_DISCONNECTING\<rparr>"
  let ?s1 = "put_conn i ?c s"
  have "mirror view ?s1" "isLoopThread ?s1"
    using assms(2,3) by simp_all
  from loop_remove_ok [OF assms(1) this] obtain k where k:
    "loop_remove ctl (conn_fd c) ?s1 = Done 0 (?s1\<lparr>register := (register ?s1)(conn_fd c := None), kern := k\<rparr>)"
    "mirror view (?s1\<lparr>register := (register ?s1)(conn_fd c := None), kern := k\<rparr>)"
    by metis
  let ?s2 = "?s1\<lparr>register := (register ?s1)(conn_fd c := None), kern := k\<rparr>"
  have c2: "conns ?s2 i = Some ?c" by simp
  show ?thesis
  proof (cases "connCloseCb c")
    case None
    have "closeConn ctl cb i s = Done 0 ?s2"
      using assms(3,5) c k(1) None c2 by (simp add: closeConn_def closed_def Let_def)
    then show ?thesis
      by (rule that) (use None assms(3) k(2) in simp_all)
  next
    case (Some f)
    let ?s3 = "net_state.more_update (h f i) ?s2"
    have "conn_fn cb f i ?s2 = Done () ?s3 \<or> (\<exists>e. conn_fn cb f i ?s2 = Raise e ?s3)"
      using h Some unfolding conn_logs_def by blast
    then have "catchS (call_conn cb (Some f) i ?s2) (\<lambda>e s. Done () s) = Done () ?s3"
      unfolding call_conn_def by (elim disjE exE) (simp_all only: option.case catchS_simps)
    then have "closeConn ctl cb i s = Done 0 ?s3"
      using assms(3,5) c k(1) Some c2 by (simp add: closeConn_def closed_def Let_def)
    then show ?thesis
      by (rule that) (use Some assms(3) k(2) in simp_all)
  qed
qed

section \<open>A new connection\<close>

lemma xConnection_new_ok:
  obtains c where "xConnection_new fd d m s c' f = Inr c" and "connStatus c = XF_CONN_STATUS_CONNECTING"
    and "conn_fd c = fd" and "connFinishCb c = f" and "connCloseCb c = c'" and "content (readBuff c) = []"
    and "content (writeBuff c) = []" and "bwf (readBuff c)" and "bwf (writeBuff c)" and "\<not> writeEnabled c"
    and "decodeCb c = d" and "msgCommitCb c = m" and "sentBytesCb c = s"
    and "length (buffer (readBuff c)) \<le> 2 ^ 33" and "length (buffer (writeBuff c)) \<le> 2 ^ 33"
proof -
  obtain b where "xBuffer_new kInitialSize = Inr b" "bwf b" "content b = []" "length (buffer b) \<le> 2 ^ 33"
  proof -
    have k: "unat kInitialSize = 1020" by (simp add: kInitialSize_def)
    then have "unat kInitialSize + 4 \<le> vec_max" by (simp add: vec_max_def)
    then obtain b where b: "xBuffer_new kInitialSize = Inr b" "bwf b" "content b = []" "length (buffer b) = unat kInitialSize + 4"
      by (rule xBuffer_new_ok)
    have "length (buffer b) = 1024" using b(4) k by simp
    then have "length (buffer b) \<le> 2 ^ 33" by simp
    then show ?thesis using b(1-3) by (intro that [of b])
  qed
  then show ?thesis
    by (intro that [of "\<lparr>connStatus = XF_CONN_STATUS_CONNECTING, writeEnabled = False, conn_fd = fd, readBuff = b,
            writeBuff = b, sentBytesCb = s, decodeCb = d, msgCommitCb = m, connCloseCb = c',
            connFinishCb = f\<rparr>"]) (simp_all add: xConnection_new_def)
qed

lemma makeConnected_ok:
  assumes "epoll_ctl_spec ctl view usable" and "mirror view s" and "isLoopThread s"
    and c: "conns s i = Some c" and "usable (conn_fd c)"
  obtains k where "makeConnected ctl cb i s = call_conn cb (connFinishCb c) i
      (put_conn i (c\<lparr>connStatus := XF_CONN_STATUS_CONNECTED\<rparr>) s\<lparr>register := (register s)(conn_fd c \<mapsto>
         \<lparr>es_mask = XE_READABLE, es_data = 0, es_callback = ConnHandleEvent i\<rparr>), kern := k\<rparr>)"
    and "mirror view (s\<lparr>register := (register s)(conn_fd c \<mapsto>
         \<lparr>es_mask = XE_READABLE, es_data = 0, es_callback = ConnHandleEvent i\<rparr>), kern := k\<rparr>)"
proof -
  let ?c = "c\<lparr>connStatus := XF_CONN_STATUS_CONNECTED\<rparr>"
  let ?s = "put_conn i ?c s"
  have "mirror view ?s" "isLoopThread ?s" using assms(2,3) by simp_all
  from loop_reg_ok [OF assms(1) this assms(5), of 0 XE_READABLE "ConnHandleEvent i"] obtain k where
    k: "loop_reg ctl (conn_fd c) 0 XE_READABLE (ConnHandleEvent i) ?s =
        Done 0 (?s\<lparr>register := (register ?s)(conn_fd c \<mapsto> \<lparr>es_mask = XE_READABLE, es_data = 0, es_callback = ConnHandleEvent i\<rparr>), kern := k\<rparr>)"
      "mirror view (?s\<lparr>register := (register ?s)(conn_fd c \<mapsto> \<lparr>es_mask = XE_READABLE, es_data = 0, es_callback = ConnHandleEvent i\<rparr>), kern := k\<rparr>)"
    by metis
  show ?thesis
    using assms(3) c k by (intro that [of k]) (simp_all add: makeConnected_def RegistReadEvent_def mirror_def)
qed

end
