(* ===== verification/Framing.thy ===== *)
theory Framing
  imports Connection_Laws
begin

text \<open>
  The contract between a connection and the one who owns it, for incoming messages: what the
  decoder and the commit callback of \<^verbatim>\<open>xConnection\<close> do. From it follows what
  \<^verbatim>\<open>parseProtocol\<close> and \<^verbatim>\<open>readMsg\<close> of \<^verbatim>\<open>net/connection.cpp\<close> make of the
  bytes that arrive. The server gives the contract for its connections, and so do callbacks that
  only work behind the state of the network.
\<close>

lemma buffer_reset [simp]: "buffer (reset b) = buffer b"
  by (simp add: reset_def)

section \<open>The contract\<close>

text \<open>
  The decoder is a function \<open>dec\<close> of the readable bytes. A commit of the message \<open>m\<close> applies
  \<open>lg m\<close> to what \<open>obs\<close> sees of the state. \<open>inv\<close> holds while messages are taken from the
  read buffer of connection \<open>i\<close>; a commit may rely on the message having been taken out.
\<close>

locale message_sink =
  fixes cb :: "('k, 'z) net_state_scheme cbs"
    and i :: nat
    and dec :: "byte list \<Rightarrow> int"
    and lg :: "byte list \<Rightarrow> 'o \<Rightarrow> 'o"
    and inv :: "('k, 'z) net_state_scheme \<Rightarrow> bool"
    and obs :: "('k, 'z) net_state_scheme \<Rightarrow> 'o"
  assumes decodes: "inv s \<Longrightarrow> conns s i = Some c \<Longrightarrow> decodeCb c = Some f \<Longrightarrow>
      decode_fn cb f bs (int (length bs)) s = Done (dec bs) s"
    and commits: "inv s \<Longrightarrow> conns s i = Some c \<Longrightarrow> msgCommitCb c = Some f \<Longrightarrow> bwf b \<Longrightarrow> 4 \<le> unat (readerIndex b) \<Longrightarrow>
      content b \<noteq> [] \<Longrightarrow> content (readBuff c) = content b @ content rb \<Longrightarrow> bwf rb \<Longrightarrow> buffer rb = buffer (readBuff c) \<Longrightarrow>
      \<exists>b' s'. commit_fn cb f i b (put_conn i (c\<lparr>readBuff := rb\<rparr>) s) = Done b' s' \<and> bwf b' \<and>
        conns s' = (conns s)(i \<mapsto> c\<lparr>readBuff := rb\<rparr>) \<and> inv s' \<and> obs s' = lg (content b) (obs s)"
    and drops: "inv s \<Longrightarrow> conns s i = Some c \<Longrightarrow> content rb = [] \<Longrightarrow> (bwf (readBuff c) \<Longrightarrow> bwf rb) \<Longrightarrow> buffer rb = buffer (readBuff c) \<Longrightarrow>
      inv (put_conn i (c\<lparr>readBuff := rb\<rparr>) s) \<and> obs (put_conn i (c\<lparr>readBuff := rb\<rparr>) s) = obs s"
begin

lemma commit_step:
  assumes "inv s" and c: "conns s i = Some c" and b: "bwf (readBuff c)" and m: "msgCommitCb c = Some mcb"
    and n: "0 < n" "n \<le> length (content (readBuff c))" "n < 2 ^ 31"
  obtains s' rb where "commit_message cb i (int n) s = Done () s'" and "conns s' = (conns s)(i \<mapsto> c\<lparr>readBuff := rb\<rparr>)"
    and "bwf rb" and "content rb = drop n (content (readBuff c))" and "inv s'"
    and "obs s' = lg (take n (content (readBuff c))) (obs s)" and "buffer rb = buffer (readBuff c)"
proof -
  obtain b1 rb where k: "commit_message cb i (int n) s =
      bindS (commit_fn cb mcb i b1 (put_conn i (c\<lparr>readBuff := rb\<rparr>) s)) (\<lambda>b s. bindS (liftS (toString b) s) (\<lambda>_ s. Done () s))"
    "bwf b1" "content b1 = take n (content (readBuff c))" "4 \<le> unat (readerIndex b1)"
    "bwf rb" "content rb = drop n (content (readBuff c))" "buffer rb = buffer (readBuff c)"
    using c b m n(2,3) by (rule commit_message_calls)
  have "content b1 \<noteq> []" "content (readBuff c) = content b1 @ content rb"
    using n k(3,6) by auto
  then obtain b2 s' where "commit_fn cb mcb i b1 (put_conn i (c\<lparr>readBuff := rb\<rparr>) s) = Done b2 s'" "bwf b2"
    "conns s' = (conns s)(i \<mapsto> c\<lparr>readBuff := rb\<rparr>)" "inv s'" "obs s' = lg (content b1) (obs s)"
    using commits [OF assms(1) c m k(2,4) _ _ k(5,7)] by metis
  then show ?thesis
    using k by (intro that [of s' rb]) (simp_all add: toString_ok)
qed

text \<open>A message at the front of the buffer: one turn of the loop commits it.\<close>

lemma parse_step:
  assumes p: "inv s" "decodeCb c = Some dcb" "conns s i = Some c" "bwf (readBuff c)" "msgCommitCb c = Some mcb"
    "length (content (readBuff c)) < 2 ^ 31" and ne: "content (readBuff c) \<noteq> []" and pos: "0 < dec (content (readBuff c))"
    and n: "n = nat (min (dec (content (readBuff c))) (int (length (content (readBuff c)))))"
  obtains s1 rb where "parse_loop cb dcb i (Suc fuel) s = parse_loop cb dcb i fuel s1"
    and "conns s1 = (conns s)(i \<mapsto> c\<lparr>readBuff := rb\<rparr>)" and "bwf rb" and "content rb = drop n (content (readBuff c))" and "inv s1"
    and "obs s1 = lg (take n (content (readBuff c))) (obs s)" and "buffer rb = buffer (readBuff c)"
proof -
  let ?bs = "content (readBuff c)"
  have n': "0 < n" "n \<le> length ?bs" "n < 2 ^ 31"
    and ret: "(if int (length ?bs) < dec ?bs then int (length ?bs) else dec ?bs) = int n"
    using pos ne p(6) by (auto simp: n)
  obtain s1 rb where k: "commit_message cb i (int n) s = Done () s1" "conns s1 = (conns s)(i \<mapsto> c\<lparr>readBuff := rb\<rparr>)"
    "bwf rb" "content rb = drop n ?bs" "inv s1" "obs s1 = lg (take n ?bs) (obs s)" "buffer rb = buffer (readBuff c)"
    using p(1,3-5) n' by (rule commit_step)
  have "parse_loop cb dcb i (Suc fuel) s = parse_loop cb dcb i fuel s1"
    using p(3) ne readable_0 [OF p(4)] int_of_readable [OF p(4,6)] decodes [OF p(1,3,2), of ?bs] pos p(4) k(1) ret
    by (simp add: toString_ok XF_MSG_DECODE_ERR_def XF_MSG_DECODE_NOT_ENOUGH_def Let_def)
  then show ?thesis using k(2-7) by (rule that)
qed

text \<open>The loop commits the messages that the decoder makes of the buffered bytes, and keeps the rest.\<close>

lemma parse_loop_commits:
  assumes proto: "\<And>bs. bs \<noteq> [] \<Longrightarrow> dec bs = -1 \<or> dec bs = -2 \<or> 0 < dec bs"
  shows "inv s \<Longrightarrow> decodeCb c = Some dcb \<Longrightarrow> conns s i = Some c \<Longrightarrow> bwf (readBuff c) \<Longrightarrow> msgCommitCb c = Some mcb \<Longrightarrow>
    length (content (readBuff c)) < 2 ^ 31 \<Longrightarrow> length (content (readBuff c)) < fuel \<Longrightarrow>
    \<exists>s' rb. parse_loop cb dcb i fuel s = Done () s' \<and> bwf rb \<and> conns s' = (conns s)(i \<mapsto> c\<lparr>readBuff := rb\<rparr>) \<and> inv s' \<and>
      content rb = snd (split_frames dec (content (readBuff c))) \<and> buffer rb = buffer (readBuff c) \<and>
      obs s' = fold lg (fst (split_frames dec (content (readBuff c)))) (obs s)"
proof (induction fuel arbitrary: s c)
  case 0
  then show ?case by simp
next
  case (Suc fuel)
  note b = Suc.prems(4)
  let ?bs = "content (readBuff c)"
  have ios: "int_of_size (readableBytes (readBuff c)) = int (length ?bs)"
    using b Suc.prems(6) by (rule int_of_readable)
  note dec = decodes [OF Suc.prems(1,3,2), of ?bs]
  show ?case
  proof (cases "?bs = []")
    case True
    then show ?thesis
      using Suc.prems readable_0 [OF b]
      by (intro exI [of _ s] exI [of _ "readBuff c"]) (simp add: split_frames.simps [of dec "[]"] fun_upd_idem)
  next
    case False
    consider "dec ?bs = -1" | "dec ?bs = -2" | "0 < dec ?bs"
      using proto [OF False] by blast
    then show ?thesis
    proof cases
      case 1
      then show ?thesis
        using Suc.prems False readable_0 [OF b] ios dec drops [OF Suc.prems(1,3), of "reset (readBuff c)"]
        by (intro exI [of _ "put_conn i (c\<lparr>readBuff := reset (readBuff c)\<rparr>) s"] exI [of _ "reset (readBuff c)"])
          (simp add: split_frames.simps [of dec ?bs] toString_ok XF_MSG_DECODE_ERR_def)
    next
      case 2
      then show ?thesis
        using Suc.prems False readable_0 [OF b] ios dec
        by (intro exI [of _ s] exI [of _ "readBuff c"])
          (simp add: split_frames.simps [of dec ?bs] toString_ok XF_MSG_DECODE_ERR_def
            XF_MSG_DECODE_NOT_ENOUGH_def fun_upd_idem)
    next
      case 3
      let ?n = "nat (min (dec ?bs) (int (length ?bs)))"
      obtain s1 rb where step: "parse_loop cb dcb i (Suc fuel) s = parse_loop cb dcb i fuel s1"
        and k: "conns s1 = (conns s)(i \<mapsto> c\<lparr>readBuff := rb\<rparr>)" "bwf rb" "content rb = drop ?n ?bs" "inv s1"
          "obs s1 = lg (take ?n ?bs) (obs s)" "buffer rb = buffer (readBuff c)"
        by (rule parse_step [OF Suc.prems(1-6) False 3 HOL.refl])
      have less: "length ?bs - ?n < fuel" using 3 False Suc.prems(7) by (cases ?bs) auto
      have "decodeCb (c\<lparr>readBuff := rb\<rparr>) = Some dcb" "conns s1 i = Some (c\<lparr>readBuff := rb\<rparr>)"
        "bwf (readBuff (c\<lparr>readBuff := rb\<rparr>))" "msgCommitCb (c\<lparr>readBuff := rb\<rparr>) = Some mcb"
        "length (content (readBuff (c\<lparr>readBuff := rb\<rparr>))) < 2 ^ 31" "length (content (readBuff (c\<lparr>readBuff := rb\<rparr>))) < fuel"
        using Suc.prems(2,5,6) k less by auto
      moreover have c1: "content (readBuff (c\<lparr>readBuff := rb\<rparr>)) = drop ?n ?bs" using k(3) by simp
      ultimately obtain s' rb' where s': "parse_loop cb dcb i fuel s1 = Done () s'" "bwf rb'"
        "conns s' = (conns s1)(i \<mapsto> c\<lparr>readBuff := rb\<rparr>\<lparr>readBuff := rb'\<rparr>)" "inv s'"
        "content rb' = snd (split_frames dec (drop ?n ?bs))" "buffer rb' = buffer (readBuff (c\<lparr>readBuff := rb\<rparr>))"
        "obs s' = fold lg (fst (split_frames dec (drop ?n ?bs))) (obs s1)"
        using Suc.IH [OF k(4), of "c\<lparr>readBuff := rb\<rparr>", unfolded c1] unfolding c1 by blast
      have sp: "split_frames dec ?bs = (take ?n ?bs # fst (split_frames dec (drop ?n ?bs)), snd (split_frames dec (drop ?n ?bs)))"
        using 3 False by (subst split_frames.simps) (simp add: Let_def split: prod.split)
      show ?thesis
        using s' step k by (intro exI [of _ s'] exI [of _ rb']) (simp only: sp, simp)
    qed
  qed
qed

lemma parseProtocol_commits:
  assumes "\<And>bs. bs \<noteq> [] \<Longrightarrow> dec bs = -1 \<or> dec bs = -2 \<or> 0 < dec bs" and "inv s"
    and "decodeCb c = Some dcb" and "conns s i = Some c" and "bwf (readBuff c)" and "msgCommitCb c = Some mcb"
    and "length (content (readBuff c)) < 2 ^ 31" and "length (content (readBuff c)) < fuel"
  obtains s' rb where "parseProtocol cb fuel i s = Done () s'" and "bwf rb"
    and "conns s' = (conns s)(i \<mapsto> c\<lparr>readBuff := rb\<rparr>)" and "inv s'"
    and "content rb = snd (split_frames dec (content (readBuff c)))"
    and "obs s' = fold lg (fst (split_frames dec (content (readBuff c)))) (obs s)" and "buffer rb = buffer (readBuff c)"
proof -
  obtain s' rb where s': "parse_loop cb dcb i fuel s = Done () s'" "bwf rb" "conns s' = (conns s)(i \<mapsto> c\<lparr>readBuff := rb\<rparr>)"
    "inv s'" "content rb = snd (split_frames dec (content (readBuff c)))" "buffer rb = buffer (readBuff c)"
    "obs s' = fold lg (fst (split_frames dec (content (readBuff c)))) (obs s)"
    using parse_loop_commits [OF assms] by blast
  then show ?thesis
    using assms(3,4) by (intro that [of s' rb]) (simp_all add: parseProtocol_def)
qed

text \<open>
  Reading: data that has arrived in chunks, and the bytes that were left before, are cut into
  messages as one sequence. The filled read buffer must satisfy the invariant.
\<close>

lemma readMsg_commits:
  assumes "\<And>bs. bs \<noteq> [] \<Longrightarrow> dec bs = -1 \<or> dec bs = -2 \<or> 0 < dec bs"
    and "conns s i = Some c" and "decodeCb c = Some dcb" and "msgCommitCb c = Some mcb" and "bwf (readBuff c)"
    and "rx s (conn_fd c) = map RData ch" and "ch \<noteq> []" and "\<forall>ds \<in> set ch. ds \<noteq> [] \<and> length ds \<le> 8192"
    and "unat (writerIndex (readBuff c)) + length (concat ch) \<le> vec_max"
    and "length (content (readBuff c)) + length (concat ch) < 2 ^ 31"
    and "length (content (readBuff c)) + length (concat ch) < fuel"
    and filled: "\<And>rb. content rb = content (readBuff c) @ concat ch \<Longrightarrow>
      inv (put_conn i (c\<lparr>readBuff := rb\<rparr>) (s\<lparr>rx := (rx s)(conn_fd c := [])\<rparr>)) \<and>
      obs (put_conn i (c\<lparr>readBuff := rb\<rparr>) (s\<lparr>rx := (rx s)(conn_fd c := [])\<rparr>)) = obs s"
  obtains s' rb where "readMsg cb fuel i s = Done (int (length (concat ch))) s'" and "bwf rb"
    and "conns s' = (conns s)(i \<mapsto> c\<lparr>readBuff := rb\<rparr>)" and "inv s'"
    and "content rb = snd (split_frames dec (content (readBuff c) @ concat ch))"
    and "obs s' = fold lg (fst (split_frames dec (content (readBuff c) @ concat ch))) (obs s)"
proof -
  let ?bs = "content (readBuff c) @ concat ch"
  obtain b where b: "bwf b" "content b = ?bs" "fill_loop (map RData ch) (readBuff c) 0 = Inr (Some (length (concat ch)), b, [])"
    using fill_loop_ok [OF assms(8,5,9), of 0 "[]"] assms(10) by auto
  have pos: "0 < length (concat ch)"
    using assms(7,8) by (cases ch) auto
  let ?c = "c\<lparr>readBuff := b\<rparr>" and ?s = "put_conn i (c\<lparr>readBuff := b\<rparr>) (s\<lparr>rx := (rx s)(conn_fd c := [])\<rparr>)"
  have i: "inv ?s" "obs ?s = obs s" using filled [OF b(2)] by simp_all
  have "decodeCb ?c = Some dcb" "conns ?s i = Some ?c" "bwf (readBuff ?c)" "msgCommitCb ?c = Some mcb"
    "length (content (readBuff ?c)) < 2 ^ 31" "length (content (readBuff ?c)) < fuel"
    using assms(3,4,10,11) b by simp_all
  from parseProtocol_commits [OF assms(1) i(1) this] obtain s' rb where
    s': "parseProtocol cb fuel i ?s = Done () s'" "bwf rb" "conns s' = (conns ?s)(i \<mapsto> ?c\<lparr>readBuff := rb\<rparr>)" "inv s'"
    "content rb = snd (split_frames dec (content (readBuff ?c)))"
    "obs s' = fold lg (fst (split_frames dec (content (readBuff ?c)))) (obs ?s)"
    by metis
  have "readMsg cb fuel i s = Done (int (length (concat ch))) s'"
    using assms(2,6) b(3) pos s'(1) by (simp add: readMsg_def Let_def)
  then show ?thesis
    using s'(2-6) b(2) i(2) by (intro that [of s' rb]) simp_all
qed

end

section \<open>Callbacks behind the state of the network\<close>

interpretation behind: message_sink cb i dec lg "\<lambda>s. \<exists>c. conns s i = Some c \<and> framing_cbs cb c dec lg" net_state.more
  for cb :: "('k, 'z) net_state_scheme cbs" and i dec and lg :: "byte list \<Rightarrow> 'z \<Rightarrow> 'z"
proof unfold_locales
  fix s :: "('k, 'z) net_state_scheme" and c f bs
  assume "\<exists>c. conns s i = Some c \<and> framing_cbs cb c dec lg" "conns s i = Some c" "decodeCb c = Some f"
  then show "decode_fn cb f bs (int (length bs)) s = Done (dec bs) s"
    by (auto simp: framing_cbs_def)
next
  fix s :: "('k, 'z) net_state_scheme" and c f b rb
  assume a: "\<exists>c. conns s i = Some c \<and> framing_cbs cb c dec lg" "conns s i = Some c" "msgCommitCb c = Some f" "bwf b"
  then have fr: "framing_cbs cb c dec lg" by simp
  then obtain b' where "bwf b'" "commit_fn cb f i b (put_conn i (c\<lparr>readBuff := rb\<rparr>) s) =
      Done b' (net_state.more_update (lg (content b)) (put_conn i (c\<lparr>readBuff := rb\<rparr>) s))"
    using a(3,4) unfolding framing_cbs_def by metis
  then show "\<exists>b' s'. commit_fn cb f i b (put_conn i (c\<lparr>readBuff := rb\<rparr>) s) = Done b' s' \<and> bwf b' \<and>
      conns s' = (conns s)(i \<mapsto> c\<lparr>readBuff := rb\<rparr>) \<and> (\<exists>c. conns s' i = Some c \<and> framing_cbs cb c dec lg) \<and>
      net_state.more s' = lg (content b) (net_state.more s)"
    using fr by (intro exI [of _ b'] exI [of _ "net_state.more_update (lg (content b)) (put_conn i (c\<lparr>readBuff := rb\<rparr>) s)"]) simp
next
  fix s :: "('k, 'z) net_state_scheme" and c rb
  assume "\<exists>c. conns s i = Some c \<and> framing_cbs cb c dec lg" "conns s i = Some c"
  then show "(\<exists>c'. conns (put_conn i (c\<lparr>readBuff := rb\<rparr>) s) i = Some c' \<and> framing_cbs cb c' dec lg) \<and>
      net_state.more (put_conn i (c\<lparr>readBuff := rb\<rparr>) s) = net_state.more s"
    by simp
qed

end
