(* ===== verification/Connection_Props.thy ===== *)
theory Connection_Props
  imports Framing
begin

text \<open>
  The properties of a connection: what it puts on the wire, how it cuts the received bytes into
  messages, and how it closes.
\<close>

section \<open>A connection for the witnesses\<close>

text \<open>
  Connection 1 on descriptor 7, connected and registered for reading; the decoder takes the
  first byte of a message as its length, and the log behind the network state lists what is
  committed.
\<close>

definition buf4 :: xBuffer where
  "buf4 = \<lparr>buffer = replicate 20 0, readerIndex = 4, writerIndex = 4\<rparr>"

definition full :: xBuffer where
  "full = \<lparr>buffer = [0, 0, 0, 0, 5, 6, 7, 0], readerIndex = 4, writerIndex = 7\<rparr>"

definition conn7 :: xConnection where
  "conn7 = \<lparr>connStatus = XF_CONN_STATUS_CONNECTED, writeEnabled = False, conn_fd = 7, readBuff = buf4,
     writeBuff = buf4, sentBytesCb = None, decodeCb = Some (UserFn 0), msgCommitCb = Some (UserFn 1),
     connCloseCb = Some (UserFn 2), connFinishCb = Some (UserFn 3)\<rparr>"

definition net0 :: "(int \<Rightarrow> int32 option, byte list list) net_state_scheme" where
  "net0 = \<lparr>theap = Map.empty, timers = [], nextSerial = 0, clock = [], last_now = 0,
     kern = [7 \<mapsto> 1], poller = \<lparr>ep_fd = 3, max_connections = 1023, ep_events = Some 1024\<rparr>, epoll_answers = [],
     stop = False, wakeupFd = 4, threadId = 0, current = 0,
     register = [7 \<mapsto> \<lparr>es_mask = XE_READABLE, es_data = 0, es_callback = ConnHandleEvent 1\<rparr>],
     fired = [], extraEvents = [], rx = \<lambda>_. [], tx = \<lambda>_. [], wire = \<lambda>_. [],
     conns = [1 \<mapsto> conn7], \<dots> = []\<rparr>"

definition first_byte :: "byte list \<Rightarrow> int" where
  "first_byte bs = (let n = uint (hd bs) in if n = 0 then -1 else if int (length bs) < n then -2 else n)"

definition cbs0 :: "(int \<Rightarrow> int32 option, byte list list) net_state_scheme cbs" where
  "cbs0 = \<lparr>decode_fn = \<lambda>f bs n s. Done (first_byte bs) s, sent_fn = \<lambda>f i n s. Done () s,
     commit_fn = \<lambda>f i b s. Done b (net_state.more_update (\<lambda>l. l @ [content b]) s),
     conn_fn = \<lambda>f i s. Done () (net_state.more_update (\<lambda>l. l @ [[9]]) s)\<rparr>"

lemma buf4_ok: "bwf buf4" "content buf4 = []" "unat (writerIndex buf4) = 4"
  by (simp_all add: buf4_def bwf_def content_def vec_max_def)

lemma net0_fields [simp]:
  "conns net0 (Suc 0) = Some conn7" "wire net0 fd = []" "net_state.more net0 = []" "conn_fd conn7 = 7"
  "writeBuff conn7 = buf4" "readBuff conn7 = buf4" "decodeCb conn7 = Some (UserFn 0)"
  "msgCommitCb conn7 = Some (UserFn 1)" "connCloseCb conn7 = Some (UserFn 2)"
  by (simp_all add: net0_def conn7_def)

lemma net0_ok: "mirror (\<lambda>m. m) net0" "isLoopThread net0" "conns net0 1 = Some conn7" "isConnected conn7"
  "mirror (\<lambda>m. m) (net0\<lparr>rx := x, tx := y\<rparr>)" "isLoopThread (net0\<lparr>rx := x, tx := y\<rparr>)"
  by (auto simp: mirror_def net0_def isLoopThread_def isConnected_def conn7_def events_of_mask_def has_def mask_defs)

lemma cbs0_ok: "quiet_sent cbs0 c" "framing_cbs cbs0 c first_byte (\<lambda>m l. l @ [m])" "conn_logs cbs0 c (\<lambda>f i l. l @ [[9]])"
proof -
  have "sent_fn cbs0 f i n s \<in> {Done () (net_state.more_update (\<lambda>x. x) s), Raise LengthError (net_state.more_update (\<lambda>x. x) s)}" for f i n s
    by (simp add: cbs0_def)
  then show "quiet_sent cbs0 c"
    unfolding quiet_sent_def by blast
  show "framing_cbs cbs0 c first_byte (\<lambda>m l. l @ [m])"
    by (auto simp: framing_cbs_def cbs0_def)
  show "conn_logs cbs0 c (\<lambda>f i l. l @ [[9]])"
    by (simp add: conn_logs_def cbs0_def)
qed

lemma first_byte_proto: "first_byte bs = -1 \<or> first_byte bs = -2 \<or> 0 < first_byte bs"
  using uint_ge_0 [of "hd bs"] by (auto simp: first_byte_def Let_def order_less_le)

section \<open>Sending\<close>

text \<open>
  C21. A message sent from the loop thread, on any answers of the kernel. When the write call
  returns a number, the bytes it has taken followed by the bytes left in the write buffer are
  the old buffer followed by the message, nothing lost or duplicated. The flag \<open>writeEnabled\<close> then says
  whether bytes are left, and the registered mask and the kernel's events have changed as \<open>write_mask\<close>
  says: with bytes left and the flag off before, write readiness is asked for; with none left and
  the flag on, the code's way of giving it back leaves its bit set. Nothing else in the register
  changes. When the call fails, the whole message stays buffered, also the bytes \<open>acc\<close> that the kernel has
  taken before the failure, and flag and register are not touched.
\<close>

theorem send_accounting:
  assumes "epoll_ctl_spec ctl view usable" and "mirror view s" and "isLoopThread s" and "quiet_sent cb c"
    and "conns s i = Some c" and "isConnected c" and "bwf (writeBuff c)"
    and "unat (writerIndex (writeBuff c)) + length msg \<le> vec_max"
    and "length (content (writeBuff c)) + length msg < 2 ^ 31"
    and "write_loop (tx s (conn_fd c)) (content (writeBuff c) @ msg) 0 = (r, acc, ws)"
  shows "\<exists>s' c'. sendMsg_string ctl cb call i msg s = Done () s' \<and> conns s' i = Some c' \<and>
    bwf (writeBuff c') \<and> mirror view s' \<and> wire s' (conn_fd c) = wire s (conn_fd c) @ acc \<and>
    (case r of
       Bytes n \<Rightarrow> acc @ content (writeBuff c') = content (writeBuff c) @ msg \<and>
         (writeEnabled c' \<longleftrightarrow> content (writeBuff c') \<noteq> []) \<and>
         register s' = (register s)(conn_fd c := map_option
           (\<lambda>st. st\<lparr>es_mask := write_mask (content (writeBuff c') \<noteq> []) (writeEnabled c) (es_mask st)\<rparr>) (register s (conn_fd c))) \<and>
         view (kern s') (conn_fd c) = map_option
           (\<lambda>st. events_of_mask (write_mask (content (writeBuff c') \<noteq> []) (writeEnabled c) (es_mask st))) (register s (conn_fd c))
     | Failed e \<Rightarrow> content (writeBuff c') = content (writeBuff c) @ msg \<and>
         writeEnabled c' = writeEnabled c \<and> register s' = register s)"
proof -
  obtain b where b: "append_string msg (writeBuff c) = Inr b" "bwf b" "content b = content (writeBuff c) @ msg"
    using append_string_ok [OF assms(7,8)] by metis
  let ?c = "c\<lparr>writeBuff := b\<rparr>" and ?s = "put_conn i (c\<lparr>writeBuff := b\<rparr>) s"
  have step: "sendMsg_string ctl cb call i msg s = bindS (conn_sendMsg ctl cb i ?s) (\<lambda>_ s. Done () s)"
    using assms(3,5,6) b(1) by (simp add: sendMsg_string_def sendMsgToBuffer_def isConnected_def)
  have pre: "mirror view ?s" "isLoopThread ?s" "conns ?s i = Some ?c" "isConnected ?c" "bwf (writeBuff ?c)"
    "length (content (writeBuff ?c)) < 2 ^ 31"
    and w: "write_loop (tx ?s (conn_fd ?c)) (content (writeBuff ?c)) 0 = (r, acc, ws)"
    using assms b by (simp_all add: isConnected_def)
  have q: "quiet_sent cb ?c" using assms(4) by simp
  show ?thesis
  proof (cases r)
    case (Bytes n)
    obtain s' b' where s': "conn_sendMsg ctl cb i ?s = Done (int n) s'" "bwf b'"
      "content b' = drop n (content (writeBuff ?c))" "acc = take n (content (writeBuff ?c))"
      "conns s' = (conns ?s)(i \<mapsto> ?c\<lparr>writeBuff := b', writeEnabled := content b' \<noteq> []\<rparr>)"
      "wire s' = (wire ?s)(conn_fd ?c := wire ?s (conn_fd ?c) @ acc)" "mirror view s'"
      "register s' = interest_after (?c\<lparr>writeBuff := b'\<rparr>) (register ?s)"
      using conn_sendMsg_taken [OF assms(1) pre(1,2) q pre(3-6) w [unfolded Bytes]] by metis
    have all: "acc @ content b' = content (writeBuff ?c)"
      unfolding s'(3,4) by (rule append_take_drop_id)
    have "content (writeBuff ?c) = content (writeBuff c) @ msg"
      using b(3) by simp
    with all have "acc @ content b' = content (writeBuff c) @ msg" by simp
    then show ?thesis
      using step Bytes s'(1,2,5-8) mirror_view [OF s'(7), of "conn_fd c"]
      by (intro exI [of _ s'] exI [of _ "?c\<lparr>writeBuff := b', writeEnabled := content b' \<noteq> []\<rparr>"])
        (simp add: interest_after_mask option.map_comp comp_def)
  next
    case (Failed e)
    have "conn_sendMsg ctl cb i ?s = Done (if e = EAGAIN then 0 else -1)
      (?s\<lparr>tx := (tx ?s)(conn_fd ?c := ws), wire := (wire ?s)(conn_fd ?c := wire ?s (conn_fd ?c) @ acc)\<rparr>)"
      using pre(3-6) w [unfolded Failed] by (rule conn_sendMsg_failed)
    then show ?thesis
      using step Failed b pre(1) by (intro exI [of _ "?s\<lparr>tx := (tx ?s)(conn_fd ?c := ws),
          wire := (wire ?s)(conn_fd ?c := wire ?s (conn_fd ?c) @ acc)\<rparr>"] exI [of _ ?c]) simp
  qed
qed

lemma send_accounting_witness:
  "\<exists>s' c'. sendMsg_string map_ctl cbs0 (\<lambda>c s. Done () s) 1 [5, 6, 7] (net0\<lparr>rx := \<lambda>_. [], tx := \<lambda>_. [WAccept 2, WAccept 0]\<rparr>) = Done () s' \<and>
    conns s' 1 = Some c' \<and> wire s' 7 = [5, 6] \<and> content (writeBuff c') = [7] \<and> writeEnabled c'"
proof -
  let ?s = "net0\<lparr>rx := \<lambda>_. [], tx := \<lambda>_. [WAccept 2, WAccept 0]\<rparr>"
  have f: "conns ?s 1 = Some conn7" "wire ?s 7 = []" "tx ?s 7 = [WAccept 2, WAccept 0]" "conn_fd conn7 = 7"
    "writeBuff conn7 = buf4"
    by (simp_all add: net0_def conn7_def)
  show ?thesis
    using send_accounting [OF map_ctl_spec net0_ok(5,6) cbs0_ok(1), of "\<lambda>_. [WAccept 2, WAccept 0]" "\<lambda>_. []" 1 conn7
        "[5, 6, 7]" "Bytes 2" "[5, 6]" "[]" "\<lambda>c s. Done () s"]
    by (auto simp: f net0_ok(4) buf4_ok vec_max_def)
qed

text \<open>
  C24. When the kernel takes the first part of a message and then is full, the next write event
  sends the message from its start again: the peer receives the first part twice. In between
  no write interest has been asked for.
\<close>

theorem partial_send_repeats:
  assumes "epoll_ctl_spec ctl view usable" and "mirror view s" and "isLoopThread s" and "quiet_sent cb c"
    and "conns s i = Some c" and "isConnected c" and "bwf (writeBuff c)" and "content (writeBuff c) = []"
    and "unat (writerIndex (writeBuff c)) + length msg \<le> vec_max" and "length msg < 2 ^ 31"
    and "0 < k" and "k < length msg" and "length msg \<le> m"
    and "tx s (conn_fd c) = [WAccept k, WErr EAGAIN, WAccept m]"
  shows "\<exists>s1 s2. sendMsg_string ctl cb call i msg s = Done () s1 \<and> register s1 = register s \<and>
    conn_sendMsg ctl cb i s1 = Done (int (length msg)) s2 \<and>
    wire s2 (conn_fd c) = wire s (conn_fd c) @ take k msg @ msg"
proof -
  obtain b where b: "append_string msg (writeBuff c) = Inr b" "bwf b" "content b = msg"
    using append_string_ok [OF assms(7,9)] assms(8) by (metis append_Nil)
  let ?c = "c\<lparr>writeBuff := b\<rparr>" and ?s = "put_conn i (c\<lparr>writeBuff := b\<rparr>) s"
  let ?s1 = "?s\<lparr>tx := (tx ?s)(conn_fd ?c := [WAccept m]), wire := (wire ?s)(conn_fd ?c := wire ?s (conn_fd ?c) @ take k msg)\<rparr>"
  obtain x xs where msg: "msg = x # xs" using assms(11,12) by (cases msg) auto
  obtain y ys where rest: "drop k msg = y # ys" using assms(12) by (cases "drop k msg") auto
  have "write_loop [WAccept k, WErr EAGAIN, WAccept m] msg 0 = (Failed EAGAIN, take k msg, [WAccept m])"
    using assms(11,12) rest unfolding msg by (simp add: Let_def min_def)
  then have w1: "write_loop (tx ?s (conn_fd ?c)) (content (writeBuff ?c)) 0 = (Failed EAGAIN, take k msg, [WAccept m])"
    using assms(14) b(3) by simp
  have pre: "conns ?s i = Some ?c" "isConnected ?c" "bwf (writeBuff ?c)" "length (content (writeBuff ?c)) < 2 ^ 31"
    using assms(6,10) b by (simp_all add: isConnected_def)
  have one: "sendMsg_string ctl cb call i msg s = Done () ?s1"
    using assms(3,5,6) b(1) conn_sendMsg_failed [OF pre w1, of ctl cb]
    by (simp add: sendMsg_string_def sendMsgToBuffer_def isConnected_def)
  have pre1: "mirror view ?s1" "isLoopThread ?s1" "conns ?s1 i = Some ?c"
    using assms(2,3) by simp_all
  have q: "quiet_sent cb ?c" using assms(4) by simp
  have "write_loop [WAccept m] msg 0 = (Bytes (length msg), msg, [])"
    using assms(13) unfolding msg by (simp add: Let_def min_def)
  then have w2: "write_loop (tx ?s1 (conn_fd ?c)) (content (writeBuff ?c)) 0 = (Bytes (length msg), msg, [])"
    using b(3) by simp
  obtain s2 where "conn_sendMsg ctl cb i ?s1 = Done (int (length msg)) s2"
    "wire s2 = (wire ?s1)(conn_fd ?c := wire ?s1 (conn_fd ?c) @ msg)"
    using conn_sendMsg_taken [OF assms(1) pre1(1,2) q pre1(3) pre(2-4) w2] by metis
  then show ?thesis
    using one by (intro exI [of _ ?s1] exI [of _ s2]) simp
qed

lemma partial_send_repeats_witness:
  "\<exists>s1 s2. sendMsg_string map_ctl cbs0 (\<lambda>c s. Done () s) 1 [5, 6, 7]
      (net0\<lparr>rx := \<lambda>_. [], tx := \<lambda>_. [WAccept 2, WErr EAGAIN, WAccept 3]\<rparr>) = Done () s1 \<and>
    conn_sendMsg map_ctl cbs0 1 s1 = Done 3 s2 \<and> wire s2 7 = [5, 6, 5, 6, 7]"
proof -
  let ?s = "net0\<lparr>rx := \<lambda>_. [], tx := \<lambda>_. [WAccept 2, WErr EAGAIN, WAccept 3]\<rparr>"
  have f: "conns ?s 1 = Some conn7" "wire ?s 7 = []" "conn_fd conn7 = 7" "writeBuff conn7 = buf4"
    "tx ?s 7 = [WAccept 2, WErr EAGAIN, WAccept 3]"
    by (simp_all add: net0_def conn7_def)
  show ?thesis
    using partial_send_repeats [OF map_ctl_spec net0_ok(5,6) cbs0_ok(1), of "\<lambda>_. [WAccept 2, WErr EAGAIN, WAccept 3]"
        "\<lambda>_. []" 1 conn7 "[5, 6, 7]" 2 3 "\<lambda>c s. Done () s"]
    by (auto simp: f net0_ok(4) buf4_ok vec_max_def)
qed

text \<open>
  C11. A write event drains the connection: whatever pieces the kernel takes, and however often it
  interrupts, once its answers cover what is buffered the handler returns with all of it on the
  wire, in order, the write buffer empty, and the flag \<open>writeEnabled\<close> off; the connection stays
  connected. When the flag was on, the write interest is given back by \<open>removeEvent\<close>, which as the
  code has it leaves the bit for write readiness in the registered mask and in the kernel's events (and sets
  all the others); when it was off, the register is not touched.
\<close>

theorem write_event_drains:
  assumes "epoll_ctl_spec ctl view usable" and "mirror view s" and "isLoopThread s" and "quiet_sent cb c"
    and "conns s i = Some c" and "isConnected c" and "bwf (writeBuff c)" and "length (content (writeBuff c)) < 2 ^ 31"
    and "emask xe = XE_WRITABLE"
    and "tx s (conn_fd c) = answers @ ws" and "\<forall>w \<in> set answers. goes_on w"
    and "length (content (writeBuff c)) \<le> sum_list (map takes answers)"
  shows "\<exists>s' c'. HandleEvent ctl cb fuel i xe s = Done () s' \<and> conns s' i = Some c' \<and> isConnected c' \<and>
    wire s' (conn_fd c) = wire s (conn_fd c) @ content (writeBuff c) \<and> content (writeBuff c') = [] \<and>
    \<not> writeEnabled c' \<and> mirror view s' \<and>
    register s' = (register s)(conn_fd c := map_option
      (\<lambda>st. if writeEnabled c \<and> es_mask st AND XE_WRITABLE \<noteq> 0 then st\<lparr>es_mask := es_mask st OR NOT XE_WRITABLE\<rparr> else st)
      (register s (conn_fd c))) \<and>
    view (kern s') (conn_fd c) = map_option
      (\<lambda>st. events_of_mask (if writeEnabled c \<and> es_mask st AND XE_WRITABLE \<noteq> 0 then es_mask st OR NOT XE_WRITABLE else es_mask st))
      (register s (conn_fd c))"
proof -
  obtain ws' where w: "write_loop (tx s (conn_fd c)) (content (writeBuff c)) 0 =
      (Bytes (length (content (writeBuff c))), content (writeBuff c), ws')"
    using write_loop_all [OF assms(11,12), of ws 0] assms(10) by auto
  obtain s' b' where s': "conn_sendMsg ctl cb i s = Done (int (length (content (writeBuff c)))) s'"
    "content b' = []" "conns s' = (conns s)(i \<mapsto> c\<lparr>writeBuff := b', writeEnabled := content b' \<noteq> []\<rparr>)"
    "wire s' = (wire s)(conn_fd c := wire s (conn_fd c) @ content (writeBuff c))" "mirror view s'"
    "register s' = interest_after (c\<lparr>writeBuff := b'\<rparr>) (register s)"
    using conn_sendMsg_taken [OF assms(1-8) w] by (metis drop_all le_refl)
  have r: "register s' = (register s)(conn_fd c := map_option
      (\<lambda>st. if writeEnabled c \<and> es_mask st AND XE_WRITABLE \<noteq> 0 then st\<lparr>es_mask := es_mask st OR NOT XE_WRITABLE\<rparr> else st)
      (register s (conn_fd c)))"
    using s'(2,6) by (cases "register s (conn_fd c)") (simp_all add: interest_after_mask write_mask_def)
  have e: "\<not> has (emask xe) XE_ERROR" "\<not> has (emask xe) XE_HUP" "\<not> has (emask xe) XE_READABLE" "has (emask xe) XE_WRITABLE"
    by (simp_all add: assms(9) has_def mask_defs)
  have "HandleEvent ctl cb fuel i xe s = Done () s'"
    using e s'(1) by (simp add: HandleEvent_def)
  moreover have "view (kern s') (conn_fd c) = map_option
      (\<lambda>st. events_of_mask (if writeEnabled c \<and> es_mask st AND XE_WRITABLE \<noteq> 0 then es_mask st OR NOT XE_WRITABLE else es_mask st))
      (register s (conn_fd c))"
    using mirror_view [OF s'(5), of "conn_fd c"] by (cases "register s (conn_fd c)") (simp_all add: r)
  ultimately show ?thesis
    using s'(2-5) r assms(6)
    by (intro exI [of _ s'] exI [of _ "c\<lparr>writeBuff := b', writeEnabled := content b' \<noteq> []\<rparr>"]) (simp add: isConnected_def)
qed

lemma write_event_drains_witness:
  "\<exists>s' c'. HandleEvent map_ctl cbs0 0 1 \<lparr>efd = 7, emask = XE_WRITABLE, edata = 0\<rparr>
      (put_conn 1 (conn7\<lparr>writeBuff := full, writeEnabled := True\<rparr>) (net0\<lparr>rx := \<lambda>_. [], tx := \<lambda>_. [WAccept 1, WErr EINTR, WAccept 9]\<rparr>)) = Done () s' \<and>
    conns s' 1 = Some c' \<and> wire s' 7 = [5, 6, 7] \<and> content (writeBuff c') = [] \<and> \<not> writeEnabled c'"
proof -
  let ?c = "conn7\<lparr>writeBuff := full, writeEnabled := True\<rparr>"
  let ?s = "put_conn 1 ?c (net0\<lparr>rx := \<lambda>_. [], tx := \<lambda>_. [WAccept 1, WErr EINTR, WAccept 9]\<rparr>)"
  have f: "conns ?s 1 = Some ?c" "isConnected ?c" "bwf (writeBuff ?c)" "content (writeBuff ?c) = [5, 6, 7]" "conn_fd ?c = 7"
    by (simp_all add: conn7_def full_def seg_def bwf_def content_def vec_max_def isConnected_def seg_def)
  have s: "mirror (\<lambda>m. m) ?s" "isLoopThread ?s" "tx ?s 7 = [WAccept 1, WErr EINTR, WAccept 9] @ []" "wire ?s 7 = []"
    using net0_ok(5,6) by simp_all
  show ?thesis
    using write_event_drains [OF map_ctl_spec s(1,2) cbs0_ok(1) f(1-3), of "\<lparr>efd = 7, emask = XE_WRITABLE, edata = 0\<rparr>"
        "[WAccept 1, WErr EINTR, WAccept 9]" "[]" 0] s f
    by auto
qed

section \<open>Receiving\<close>

text \<open>
  C22. Data that has arrived in any chunks is cut into messages by the decoder as one byte
  sequence together with what was left in the buffer before: the messages are committed in
  order, each once, and the bytes after the last complete message stay for the next event.
  The decoder may return \<open>-1\<close>, \<open>-2\<close> or any positive number, also one beyond the data. Unless
  it reports an error, the messages and the rest are exactly the bytes received.
\<close>

theorem receive_commits_messages:
  assumes "framing_cbs cb c dec lg" and "\<forall>bs. bs \<noteq> [] \<longrightarrow> dec bs = -1 \<or> dec bs = -2 \<or> 0 < dec bs"
    and "conns s i = Some c" and "decodeCb c = Some dcb" and "msgCommitCb c = Some mcb" and "bwf (readBuff c)"
    and "rx s (conn_fd c) = map RData ch" and "ch \<noteq> []" and "\<forall>ds \<in> set ch. ds \<noteq> [] \<and> length ds \<le> 8192"
    and "unat (writerIndex (readBuff c)) + length (concat ch) \<le> vec_max"
    and "length (content (readBuff c)) + length (concat ch) < 2 ^ 31"
    and "length (content (readBuff c)) + length (concat ch) < fuel"
  shows "\<exists>s' c'. readMsg cb fuel i s = Done (int (length (concat ch))) s' \<and> conns s' i = Some c' \<and>
    bwf (readBuff c') \<and>
    (case split_frames dec (content (readBuff c) @ concat ch) of
       (msgs, rest) \<Rightarrow> net_state.more s' = fold lg msgs (net_state.more s) \<and> content (readBuff c') = rest \<and>
         ((\<forall>bs. dec bs \<noteq> -1) \<longrightarrow> concat msgs @ rest = content (readBuff c) @ concat ch))"
proof -
  let ?bs = "content (readBuff c) @ concat ch"
  have proto: "bs \<noteq> [] \<Longrightarrow> dec bs = -1 \<or> dec bs = -2 \<or> 0 < dec bs" for bs
    using assms(2) by blast
  obtain s' rb where s': "readMsg cb fuel i s = Done (int (length (concat ch))) s'" "bwf rb"
    "conns s' = (conns s)(i \<mapsto> c\<lparr>readBuff := rb\<rparr>)" "content rb = snd (split_frames dec ?bs)"
    "net_state.more s' = fold lg (fst (split_frames dec ?bs)) (net_state.more s)"
    by (rule behind.readMsg_commits [OF proto assms(3-12)]) (use assms(1) in simp_all)
  have "(\<forall>bs. dec bs \<noteq> -1) \<longrightarrow> concat (fst (split_frames dec ?bs)) @ snd (split_frames dec ?bs) = ?bs"
    using split_frames_concat [of dec ?bs] by blast
  then show ?thesis
    using s' by (intro exI [of _ s'] exI [of _ "c\<lparr>readBuff := rb\<rparr>"]) (simp add: case_prod_beta)
qed

lemma receive_commits_messages_witness:
  "\<exists>s'. readMsg cbs0 10 1 (net0\<lparr>rx := \<lambda>_. map RData [[3, 8], [9, 2], [7, 4, 1]]\<rparr>) = Done 7 s' \<and>
    net_state.more s' = [[3, 8, 9], [2, 7]]"
proof -
  let ?bs = "[3, 8, 9, 2, 7, 4, 1] :: byte list"
  have split: "split_frames first_byte ?bs = ([[3, 8, 9], [2, 7]], [4, 1])"
    by (simp add: split_frames.simps [of _ ?bs] split_frames.simps [of _ "[2, 7, 4, 1]"]
        split_frames.simps [of _ "[4, 1]"] first_byte_def Let_def)
  show ?thesis
    using receive_commits_messages [OF cbs0_ok(2), of "net0\<lparr>rx := \<lambda>_. map RData [[3, 8], [9, 2], [7, 4, 1]]\<rparr>" 1 conn7
        "UserFn 0" "UserFn 1" "[[3, 8], [9, 2], [7, 4, 1]]" 10] first_byte_proto
    by (auto simp: split buf4_ok vec_max_def)
qed

text \<open>
  Data followed by the end of the stream: \<open>readMsg\<close> returns \<open>-1\<close> without calling the
  decoder, so no message of that data is committed, complete or not (the log text says that the
  last message will be).
\<close>

lemma end_of_stream_commits_nothing:
  assumes "conns s i = Some c" and "bwf (readBuff c)"
    and "rx s (conn_fd c) = map RData ch @ RData [] # rs" and "\<forall>ds \<in> set ch. ds \<noteq> [] \<and> length ds \<le> 8192"
    and "unat (writerIndex (readBuff c)) + length (concat ch) \<le> vec_max" and "length (concat ch) < 2 ^ 31"
  shows "\<exists>s' c'. readMsg cb fuel i s = Done (-1) s' \<and> conns s' i = Some c' \<and>
    content (readBuff c') = content (readBuff c) @ concat ch \<and> net_state.more s' = net_state.more s"
proof -
  obtain b where b: "bwf b" "content b = content (readBuff c) @ concat ch"
    "unat (writerIndex b) \<le> unat (writerIndex (readBuff c)) + length (concat ch)"
    "fill_loop (map RData ch @ RData [] # rs) (readBuff c) 0 = fill_loop (RData [] # rs) b (length (concat ch))"
    using fill_loop_ok [OF assms(4,2,5), of 0 "RData [] # rs"] assms(6) by auto
  have "unat (writerIndex b) \<le> vec_max" using b(3) assms(5) by simp
  then obtain b' where "fill_loop (map RData ch @ RData [] # rs) (readBuff c) 0 = Inr (None, b', rs)" "content b' = content b"
    using fill_loop_eof [OF b(1)] unfolding b(4) by blast
  then show ?thesis
    using assms(1,3) b(2)
    by (intro exI [of _ "put_conn i (c\<lparr>readBuff := b'\<rparr>) (s\<lparr>rx := (rx s)(conn_fd c := rs)\<rparr>)"]
        exI [of _ "c\<lparr>readBuff := b'\<rparr>"]) (simp add: readMsg_def Let_def del: fill_loop.simps)
qed

lemma end_of_stream_commits_nothing_witness:
  "\<exists>s'. readMsg cbs0 10 1 (net0\<lparr>rx := \<lambda>_. map RData [[2, 8]] @ [RData []]\<rparr>) = Done (-1) s' \<and> net_state.more s' = []"
  using end_of_stream_commits_nothing [of "net0\<lparr>rx := \<lambda>_. map RData [[2, 8]] @ [RData []]\<rparr>" 1 conn7 "[[2, 8]]" "[]" cbs0 10]
  by (auto simp: buf4_ok vec_max_def)

text \<open>
  C25. A decoder that returns 0 on data makes \<open>parseProtocol\<close> run for ever: it commits an empty
  message and tries again on the same bytes. No amount of fuel ends it.
\<close>

theorem decode_zero_diverges:
  assumes "framing_cbs cb c dec lg" and "conns s i = Some c" and "bwf (readBuff c)"
    and "decodeCb c = Some dcb" and "msgCommitCb c = Some mcb"
    and "content (readBuff c) \<noteq> []" and "length (content (readBuff c)) < 2 ^ 31" and "dec (content (readBuff c)) = 0"
  shows "parseProtocol cb fuel i s = Diverge"
proof -
  have "parse_loop cb dcb i fuel s = Diverge"
    using assms
  proof (induction fuel arbitrary: s c)
    case 0
    show ?case by simp
  next
    case (Suc fuel)
    note b = Suc.prems(3)
    have ios: "int_of_size (readableBytes (readBuff c)) = int (length (content (readBuff c)))"
      using b Suc.prems(7) by (rule int_of_readable)
    have dec: "decode_fn cb dcb (content (readBuff c)) (int (length (content (readBuff c)))) s = Done 0 s"
      using Suc.prems(1,4,8) by (simp add: framing_cbs_def)
    obtain b' where b': "commit_message cb i 0 s = Done () (net_state.more_update (lg []) (put_conn i (c\<lparr>readBuff := b'\<rparr>) s))"
      "bwf b'" "content b' = content (readBuff c)"
      using commit_empty [OF Suc.prems(1,2) b Suc.prems(5)] by blast
    let ?s1 = "net_state.more_update (lg []) (put_conn i (c\<lparr>readBuff := b'\<rparr>) s)"
    have "parse_loop cb dcb i (Suc fuel) s = parse_loop cb dcb i fuel ?s1"
      using Suc.prems(2,6) readable_0 [OF b] ios dec b b'(1)
      by (simp add: toString_ok XF_MSG_DECODE_ERR_def XF_MSG_DECODE_NOT_ENOUGH_def Let_def)
    moreover have "parse_loop cb dcb i fuel ?s1 = Diverge"
      by (rule Suc.IH [of "c\<lparr>readBuff := b'\<rparr>"]) (use Suc.prems b' in simp_all)
    ultimately show ?case by simp
  qed
  then show ?thesis
    using assms(2,4) by (simp add: parseProtocol_def)
qed

lemma decode_zero_diverges_witness:
  "parseProtocol (cbs0\<lparr>decode_fn := \<lambda>f bs n s. Done 0 s\<rparr>) 100 1
     (net0\<lparr>conns := [1 \<mapsto> conn7\<lparr>readBuff := \<lparr>buffer = [0, 0, 0, 0, 5], readerIndex = 4, writerIndex = 5\<rparr>\<rparr>]\<rparr>) = Diverge"
proof -
  let ?b = "\<lparr>buffer = [0, 0, 0, 0, 5], readerIndex = 4, writerIndex = 5\<rparr>"
  have "framing_cbs (cbs0\<lparr>decode_fn := \<lambda>f bs n s. Done 0 s\<rparr>) (conn7\<lparr>readBuff := ?b\<rparr>) (\<lambda>_. 0) (\<lambda>m l. l @ [m])"
    by (auto simp: framing_cbs_def cbs0_def)
  moreover have "bwf ?b" "content ?b = [5]"
    by (simp_all add: bwf_def content_def seg_def vec_max_def)
  ultimately show ?thesis
    using decode_zero_diverges [of "cbs0\<lparr>decode_fn := \<lambda>f bs n s. Done 0 s\<rparr>" "conn7\<lparr>readBuff := ?b\<rparr>" "\<lambda>_. 0" "\<lambda>m l. l @ [m]"
        "net0\<lparr>conns := [1 \<mapsto> conn7\<lparr>readBuff := ?b\<rparr>]\<rparr>" 1 "UserFn 0" "UserFn 1" 100]
    by simp
qed

section \<open>Closing\<close>

text \<open>
  C23. Closing a connection unregisters its descriptor, runs the close callback exactly once,
  whether it returns or throws, and leaves the connection disconnecting. After that a further
  close, a hang-up event or a message to send changes nothing.
\<close>

theorem close_happens_once:
  assumes "epoll_ctl_spec ctl view usable" and "mirror view s" and "isLoopThread s"
    and "conns s i = Some c" and "isConnected c" and "connCloseCb c = Some f" and "conn_logs cb c h"
  shows "\<exists>s'. closeConnection ctl cb call i s = Done () s' \<and> register s' (conn_fd c) = None \<and>
    view (kern s') (conn_fd c) = None \<and> net_state.more s' = h f i (net_state.more s) \<and>
    conns s' = (conns s)(i \<mapsto> c\<lparr>connStatus := XF_CONN_STATUS_DISCONNECTING\<rparr>) \<and>
    closeConnection ctl cb call i s' = Done () s' \<and> closeConn ctl cb i s' = Done 0 s' \<and>
    HandleEvent ctl cb fuel i \<lparr>efd = conn_fd c, emask = XE_HUP, edata = d\<rparr> s' = Done () s' \<and>
    sendMsg_string ctl cb call i msg s' = Done () s'"
proof -
  have "\<not> closed c" using assms(5) by (simp add: closed_def isConnected_def)
  from closeConn_open [OF assms(1-4) this assms(7)] obtain s' where s': "closeConn ctl cb i s = Done 0 s'"
    "conns s' = (conns s)(i \<mapsto> c\<lparr>connStatus := XF_CONN_STATUS_DISCONNECTING\<rparr>)"
    "register s' = (register s)(conn_fd c := None)" "mirror view s'" "isLoopThread s'"
    "net_state.more s' = (case connCloseCb c of None \<Rightarrow> net_state.more s | Some f \<Rightarrow> h f i (net_state.more s))"
    by metis
  let ?c = "c\<lparr>connStatus := XF_CONN_STATUS_DISCONNECTING\<rparr>"
  have c: "conns s' i = Some ?c" using s'(2) by simp
  then have again: "closeConn ctl cb i s' = Done 0 s'"
    using s'(5) by (intro closeConn_closed [of s' i ?c]) (simp_all add: closed_def)
  have hup: "has XE_HUP XE_HUP"
    by (simp add: has_def mask_defs)
  show ?thesis
    using s' c again hup assms(3-6) mirror_view [OF s'(4), of "conn_fd c"]
    by (intro exI [of _ s']) (simp add: closeConnection_def sendMsg_string_def HandleEvent_def isConnected_def)
qed

lemma close_happens_once_witness:
  "\<exists>s'. closeConnection map_ctl cbs0 (\<lambda>c s. Done () s) 1 net0 = Done () s' \<and> kern s' 7 = None \<and> net_state.more s' = [[9]] \<and>
    closeConn map_ctl cbs0 1 s' = Done 0 s'"
  using close_happens_once [OF map_ctl_spec net0_ok(1-4) _ cbs0_ok(3), of "UserFn 2" "\<lambda>c s. Done () s" 1 0 "[]"]
  by auto

end
