(* ===== verification/IpAddr.thy ===== *)
theory IpAddr
  imports Endian Util
begin

text \<open>
  \<^verbatim>\<open>net/include/ipaddr.h\<close>, \<^verbatim>\<open>net/ipaddr.cpp\<close> and the address functions of
  \<^verbatim>\<open>net/netapi.cpp\<close>: an IPv4 or IPv6 socket address. The object is the union of
  \<^verbatim>\<open>sockaddr_in\<close> (16 bytes) and \<^verbatim>\<open>sockaddr_in6\<close> (28 bytes), and is modelled as its
  28 bytes: the address family and the port lie at the same place in both. \<^verbatim>\<open>inet_pton\<close>
  and \<^verbatim>\<open>inet_ntop\<close> are arguments.
\<close>

section \<open>The union\<close>

definition AF_INET :: "16 word" where "AF_INET = 2"
definition AF_INET6 :: "16 word" where "AF_INET6 = 10"

definition INADDR_LOOPBACK :: "32 word" where "INADDR_LOOPBACK = 0x7F000001"
definition INADDR_ANY :: "32 word" where "INADDR_ANY = 0"

definition in6addr_loopback :: "byte list" where "in6addr_loopback = replicate 15 0 @ [1]"
definition in6addr_any :: "byte list" where "in6addr_any = replicate 16 0"

type_synonym xIpAddr = "byte list"

definition sizeof_in :: nat where "sizeof_in = 16"
definition sizeof_in6 :: nat where "sizeof_in6 = 28"

text \<open>Writing the bytes \<open>d\<close> of a member at offset \<open>p\<close>.\<close>

definition patch :: "nat \<Rightarrow> byte list \<Rightarrow> byte list \<Rightarrow> byte list" where
  "patch p d a = take p a @ d @ drop (p + length d) a"

definition family :: "xIpAddr \<Rightarrow> 16 word" where
  "family a = mem_word (take 2 a)"

definition portNetEndian :: "xIpAddr \<Rightarrow> 16 word" where
  "portNetEndian a = mem_word (take 2 (drop 2 a))"

definition toPort :: "xIpAddr \<Rightarrow> 16 word" where
  "toPort a = networkToHost16 (portNetEndian a)"

definition ipNetEndian :: "xIpAddr \<Rightarrow> fault + 32 word" where
  "ipNetEndian a = bindE (assertE (family a = AF_INET)) (\<lambda>_. Inr (mem_word (take 4 (drop 4 a))))"

definition getSockLen :: "xIpAddr \<Rightarrow> nat" where
  "getSockLen a = (if family a = AF_INET6 then sizeof_in6 else sizeof_in)"

definition setSockAddrIn :: "byte list \<Rightarrow> xIpAddr \<Rightarrow> xIpAddr" where
  "setSockAddrIn addr a = patch 0 addr a"

definition setSockAddrIn6 :: "byte list \<Rightarrow> xIpAddr \<Rightarrow> xIpAddr" where
  "setSockAddrIn6 addr6 a = addr6"

text \<open>
  \<open>sinfo\<close> is \<open>None\<close> for a null pointer, else the family and the memory behind
  \<^verbatim>\<open>ai_addr\<close>; a copy beyond it is undefined.
\<close>

definition setAddrInfo :: "(16 word \<times> byte list) option \<Rightarrow> xIpAddr \<Rightarrow> fault + xIpAddr" where
  "setAddrInfo sinfo a =
     (case sinfo of
        None \<Rightarrow> Inl AssertFailed
      | Some (fam, mem) \<Rightarrow>
          if fam = AF_INET6
          then bindE (mem_read mem 0 (of_nat sizeof_in6)) (\<lambda>d. Inr (setSockAddrIn6 d a))
          else bindE (mem_read mem 0 (of_nat sizeof_in)) (\<lambda>d. Inr (setSockAddrIn d a)))"

section \<open>Construction\<close>

text \<open>\<open>junk\<close> is what the memory of the object holds before the constructor runs.\<close>

definition xIpAddr_port :: "xIpAddr \<Rightarrow> 16 word \<Rightarrow> bool \<Rightarrow> bool \<Rightarrow> xIpAddr" where
  "xIpAddr_port junk port lookback ipv6 =
     (if ipv6
      then let a1 = replicate sizeof_in6 0;
               a2 = patch 0 (mem_bytes AF_INET6) a1;
               a3 = patch 8 (if lookback then in6addr_loopback else in6addr_any) a2
           in patch 2 (mem_bytes (hostToNetwork16 port)) a3
      else let a1 = patch 0 (replicate sizeof_in 0) junk;
               a2 = patch 0 (mem_bytes AF_INET) a1;
               a3 = patch 4 (mem_bytes (hostToNetwork32 (if lookback then INADDR_LOOPBACK else INADDR_ANY))) a2
           in patch 2 (mem_bytes (hostToNetwork16 port)) a3)"

text \<open>
  \<^verbatim>\<open>fromIpPort\<close> for both families: \<open>pton\<close> gives the bytes of the address, or nothing for
  a text that is no address. The failure is logged and the address stays as it is.
\<close>

definition fromIpPort4 :: "(string \<Rightarrow> byte list option) \<Rightarrow> string \<Rightarrow> 16 word \<Rightarrow> xIpAddr \<Rightarrow> xIpAddr" where
  "fromIpPort4 pton ip port a =
     (let a1 = patch 0 (mem_bytes AF_INET) a;
          a2 = patch 2 (mem_bytes (hostToNetwork16 port)) a1
      in case pton ip of None \<Rightarrow> a2 | Some d \<Rightarrow> patch 4 d a2)"

definition fromIpPort6 :: "(string \<Rightarrow> byte list option) \<Rightarrow> string \<Rightarrow> 16 word \<Rightarrow> xIpAddr \<Rightarrow> xIpAddr" where
  "fromIpPort6 pton ip port a =
     (let a1 = patch 0 (mem_bytes AF_INET6) a;
          a2 = patch 2 (mem_bytes (hostToNetwork16 port)) a1
      in case pton ip of None \<Rightarrow> a2 | Some d \<Rightarrow> patch 8 d a2)"

definition xIpAddr_ip ::
    "(string \<Rightarrow> byte list option) \<Rightarrow> (string \<Rightarrow> byte list option) \<Rightarrow> xIpAddr \<Rightarrow> string \<Rightarrow> 16 word \<Rightarrow> bool \<Rightarrow> xIpAddr" where
  "xIpAddr_ip pton4 pton6 junk ip port ipv6 =
     (if ipv6 then fromIpPort6 pton6 ip port (replicate sizeof_in6 0)
      else fromIpPort4 pton4 ip port (patch 0 (replicate sizeof_in 0) junk))"

definition xIpAddr_addrinfo :: "xIpAddr \<Rightarrow> (16 word \<times> byte list) option \<Rightarrow> fault + xIpAddr" where
  "xIpAddr_addrinfo junk sinfo = setAddrInfo sinfo junk"

section \<open>Names\<close>

definition XFNET_SUCC :: int where "XFNET_SUCC = 0"
definition XFNET_ERR :: int where "XFNET_ERR = -1"
definition AI_PASSIVE :: int where "AI_PASSIVE = 1"

record addrinfo =
  ai_flags :: int
  ai_family :: int
  ai_socktype :: int

text \<open>
  \<open>gai\<close> is \<^verbatim>\<open>getaddrinfo\<close>: the code, and the list that it stores through its last argument.
  \<open>sinfo\<close> is the pointer of the caller, passed by value: the second result is what the caller has in it
  afterwards, the third what has been allocated and is lost.
\<close>

definition resolveNetAddr ::
    "(string option \<Rightarrow> string \<Rightarrow> addrinfo \<Rightarrow> int \<times> 'p) \<Rightarrow> string option \<Rightarrow> int \<Rightarrow> int \<Rightarrow> int \<Rightarrow> 'p \<Rightarrow> bool \<Rightarrow>
     int \<times> 'p \<times> 'p option" where
  "resolveNetAddr gai addr prt af st sinfo lstn =
     (let port_text = snprintf_buf 6 (fmt_d prt);
          hints = \<lparr>ai_flags = 0, ai_family = af, ai_socktype = st\<rparr>;
          hints = (if lstn then hints\<lparr>ai_flags := AI_PASSIVE\<rparr> else hints);
          (rc, found) = gai addr port_text hints
      in if rc \<noteq> 0 then (XFNET_ERR, sinfo, None) else (XFNET_SUCC, sinfo, Some found))"

text \<open>\<open>netSetError\<close>: \<open>txt\<close> is the formatted text, cut to the 256 bytes of the buffer.\<close>

definition netSetError :: "string option \<Rightarrow> string \<Rightarrow> string option" where
  "netSetError err txt = (case err of None \<Rightarrow> None | Some _ \<Rightarrow> Some (snprintf_buf 256 txt))"

section \<open>Text\<close>

text \<open>The text of the address; \<open>ntop\<close> gives what \<^verbatim>\<open>inet_ntop\<close> writes into the buffer.\<close>

definition toIp :: "(16 word \<Rightarrow> byte list \<Rightarrow> string) \<Rightarrow> xIpAddr \<Rightarrow> string" where
  "toIp ntop a =
     (if family a = AF_INET then ntop AF_INET (take 4 (drop 4 a))
      else if family a = AF_INET6 then ntop AF_INET6 (take 16 (drop 8 a))
      else [])"

text \<open>\<open>dec\<close> is the decimal form; the text is cut to the 256 bytes of the buffer.\<close>

definition toIpPort :: "(16 word \<Rightarrow> byte list \<Rightarrow> string) \<Rightarrow> (nat \<Rightarrow> string) \<Rightarrow> xIpAddr \<Rightarrow> fault + string" where
  "toIpPort ntop dec a =
     (let ip = toIp ntop a in
      bindE (assertE (length ip < 256)) (\<lambda>_. Inr (take 255 (ip @ '':'' @ dec (unat (toPort a))))))"

text \<open>The members of the class, with a buffer of 256 bytes that is empty at first.\<close>

definition xIpAddr_toIp :: "(16 word \<Rightarrow> byte list \<Rightarrow> string) \<Rightarrow> xIpAddr \<Rightarrow> string" where
  "xIpAddr_toIp ntop a = toIp ntop a"

definition xIpAddr_toIpPort :: "(16 word \<Rightarrow> byte list \<Rightarrow> string) \<Rightarrow> (nat \<Rightarrow> string) \<Rightarrow> xIpAddr \<Rightarrow> fault + string" where
  "xIpAddr_toIpPort ntop dec a = toIpPort ntop dec a"

section \<open>Laws\<close>

lemma resolveNetAddr_forgets: "fst (snd (resolveNetAddr gai addr prt af st sinfo lstn)) = sinfo"
  by (simp add: resolveNetAddr_def Let_def split: prod.split)

lemma length_patch: "p + length d \<le> length a \<Longrightarrow> length (patch p d a) = length a"
  by (simp add: patch_def)

lemma patch_get: "p + length d \<le> length a \<Longrightarrow> take (length d) (drop p (patch p d a)) = d"
  by (simp add: patch_def)

lemma patch_before: "q + n \<le> p \<Longrightarrow> p \<le> length a \<Longrightarrow> take n (drop q (patch p d a)) = take n (drop q a)"
  by (simp add: patch_def take_drop min_def)

lemma patch_after: "p + length d \<le> q \<Longrightarrow> p \<le> length a \<Longrightarrow> take n (drop q (patch p d a)) = take n (drop q a)"
  by (simp add: patch_def add.commute)

lemma family_patch0: "2 \<le> length a \<Longrightarrow> family (patch 0 (mem_bytes f) a) = f"
  using patch_get [of 0 "mem_bytes f" a] mem_word_mem_bytes [of 2 f] by (simp add: family_def)

lemma family_patch: "2 \<le> p \<Longrightarrow> p \<le> length a \<Longrightarrow> family (patch p d a) = family a"
  using patch_before [of 0 2 p a d] by (simp add: family_def)

lemma toPort_patch2: "4 \<le> length a \<Longrightarrow> toPort (patch 2 (mem_bytes (hostToNetwork16 x)) a) = x"
  using patch_get [of 2 "mem_bytes (hostToNetwork16 x)" a] mem_word_mem_bytes [of 2 "hostToNetwork16 x"]
    byte_swap_byte_swap [of 2 x]
  by (simp add: toPort_def portNetEndian_def networkToHost16_def hostToNetwork16_def)

lemma toPort_patch: "4 \<le> p \<Longrightarrow> p \<le> length a \<Longrightarrow> toPort (patch p d a) = toPort a"
  using patch_before [of 2 2 p a d] by (simp add: toPort_def portNetEndian_def)

end
