(* ===== verification/SockApi.thy ===== *)
theory SockApi
  imports IpAddr
begin

unbundle bit_operations_syntax

text \<open>
  \<^verbatim>\<open>net/sockapi.cpp\<close>: the functions around the socket system calls. A call to the
  kernel takes the next of \<open>replies\<close> (result, \<^verbatim>\<open>errno\<close> and the bytes written back) and
  is recorded in \<open>trace\<close>, so that properties can speak of the calls that were made. When the
  replies are used up, calls fail with \<^verbatim>\<open>EINVAL\<close>. The operations leave the error texts
  out, which they only pass on; \<open>getError\<close> makes them.
\<close>

section \<open>System calls\<close>

datatype sockopt = SO_KEEPALIVE | TCP_KEEPIDLE | TCP_KEEPINTVL | TCP_KEEPCNT | TCP_NODELAY | SO_SNDBUF
  | SO_REUSEADDR | SO_REUSEPORT | SO_RCVTIMEO | SO_SNDTIMEO | SO_ERROR | TCP_INFO

datatype sockval = IntVal int | TimeVal int int

datatype sys_call =
    SysSocket int int int
  | SysClose int
  | SysGetFl int
  | SysSetFl int "32 word"
  | SysSetOpt int sockopt sockval
  | SysGetOpt int sockopt
  | SysConnect int xIpAddr nat
  | SysBind int xIpAddr nat
  | SysListen int int
  | SysAccept int
  | SysGetSockName int nat

record sock_env =
  replies :: "(int \<times> errno \<times> byte list) list"
  trace :: "(sys_call \<times> int) list"
  errno_of :: errno
  sys_out :: "byte list"

definition sys :: "sys_call \<Rightarrow> sock_env \<Rightarrow> int \<times> sock_env" where
  "sys c e =
     (case replies e of
        [] \<Rightarrow> (-1, e\<lparr>trace := trace e @ [(c, -1)], errno_of := EINVAL, sys_out := []\<rparr>)
      | (r, er, out) # rs \<Rightarrow>
          (r, e\<lparr>replies := rs, trace := trace e @ [(c, r)], errno_of := er, sys_out := out\<rparr>))"

text \<open>The result of \<^verbatim>\<open>close\<close> is never looked at.\<close>

definition sys_close :: "int \<Rightarrow> sock_env \<Rightarrow> sock_env" where
  "sys_close fd e = e\<lparr>trace := trace e @ [(SysClose fd, 0)]\<rparr>"

text \<open>The texts of errors; \<open>num\<close> is the number of an \<^verbatim>\<open>errno\<close>.\<close>

definition getError :: "(errno \<Rightarrow> int) \<Rightarrow> (int \<Rightarrow> string) \<Rightarrow> string \<Rightarrow> sock_env \<Rightarrow> string" where
  "getError num strerror tips e =
     tips @ '',errno:'' @ fmt_d (num (errno_of e)) @ '',msg:'' @ strerror (num (errno_of e))"

definition gasGetError :: "(errno \<Rightarrow> int) \<Rightarrow> (int \<Rightarrow> string) \<Rightarrow> int \<Rightarrow> string \<Rightarrow> sock_env \<Rightarrow> string" where
  "gasGetError num gai_strerror rc tips e = tips @ '',errno:'' @ fmt_d (num (errno_of e)) @ '',msg:'' @ gai_strerror rc"

definition INVALID_SOCK :: int where "INVALID_SOCK = -1"
definition XFNET_CONNECT_NONE :: "32 word" where "XFNET_CONNECT_NONE = 0"
definition XFNET_CONNECT_NONBLOCK :: "32 word" where "XFNET_CONNECT_NONBLOCK = 1"

definition SOCK_STREAM :: int where "SOCK_STREAM = 1"
definition SOCK_DGRAM :: int where "SOCK_DGRAM = 2"
definition O_NONBLOCK :: "32 word" where "O_NONBLOCK = 0x800"
definition SOMAXCONN :: int where "SOMAXCONN = 4096"

lemmas sock_consts = XFNET_SUCC_def XFNET_ERR_def INVALID_SOCK_def

section \<open>Options\<close>

definition setBlock :: "int \<Rightarrow> bool \<Rightarrow> sock_env \<Rightarrow> int \<times> sock_env" where
  "setBlock fd non_block e =
     (let (flags, e1) = sys (SysGetFl fd) e in
      if flags = -1 then (XFNET_ERR, e1)
      else
        let fl = (if non_block then of_int flags OR O_NONBLOCK else of_int flags AND NOT O_NONBLOCK);
            (r, e2) = sys (SysSetFl fd fl) e1
        in if r = -1 then (XFNET_ERR, e2) else (XFNET_SUCC, e2))"

definition nonBlock :: "int \<Rightarrow> sock_env \<Rightarrow> int \<times> sock_env" where
  "nonBlock fd e = setBlock fd True e"

definition block :: "int \<Rightarrow> sock_env \<Rightarrow> int \<times> sock_env" where
  "block fd e = setBlock fd False e"

text \<open>One option, failing on \<open>-1\<close>.\<close>

definition set_option :: "int \<Rightarrow> sockopt \<Rightarrow> sockval \<Rightarrow> sock_env \<Rightarrow> int \<times> sock_env" where
  "set_option fd opt v e = (let (r, e1) = sys (SysSetOpt fd opt v) e in (if r = -1 then XFNET_ERR else XFNET_SUCC, e1))"

definition api_setKeepAlive :: "int \<Rightarrow> int \<Rightarrow> sock_env \<Rightarrow> int \<times> sock_env" where
  "api_setKeepAlive fd ival e =
     (let (r, e) = sys (SysSetOpt fd SO_KEEPALIVE (IntVal 1)) e in
      if r = -1 then (XFNET_ERR, e)
      else if ival > 0 then
        let (r, e) = sys (SysSetOpt fd TCP_KEEPIDLE (IntVal ival)) e in
        if r < 0 then (XFNET_ERR, e)
        else
          let v = (if ival div 3 = 0 then 1 else ival div 3);
              (r, e) = sys (SysSetOpt fd TCP_KEEPINTVL (IntVal v)) e in
          if r < 0 then (XFNET_ERR, e)
          else
            let (r, e) = sys (SysSetOpt fd TCP_KEEPCNT (IntVal 3)) e in
            if r < 0 then (XFNET_ERR, e) else (XFNET_SUCC, e)
      else (XFNET_SUCC, e))"

definition api_setTcpNoDelay :: "int \<Rightarrow> int \<Rightarrow> sock_env \<Rightarrow> int \<times> sock_env" where
  "api_setTcpNoDelay fd val e = set_option fd TCP_NODELAY (IntVal val) e"

definition enableTcpNoDelay :: "int \<Rightarrow> sock_env \<Rightarrow> int \<times> sock_env" where
  "enableTcpNoDelay fd e = api_setTcpNoDelay fd 1 e"

definition disableTcpNoDelay :: "int \<Rightarrow> sock_env \<Rightarrow> int \<times> sock_env" where
  "disableTcpNoDelay fd e = api_setTcpNoDelay fd 0 e"

definition setSendBuffer :: "int \<Rightarrow> int \<Rightarrow> sock_env \<Rightarrow> int \<times> sock_env" where
  "setSendBuffer fd buffsize e = set_option fd SO_SNDBUF (IntVal buffsize) e"

definition api_setReuseAddr :: "int \<Rightarrow> sock_env \<Rightarrow> int \<times> sock_env" where
  "api_setReuseAddr fd e = set_option fd SO_REUSEADDR (IntVal 1) e"

definition api_setReusePort :: "int \<Rightarrow> sock_env \<Rightarrow> int \<times> sock_env" where
  "api_setReusePort fd e = set_option fd SO_REUSEPORT (IntVal 1) e"

text \<open>The division of C rounds to zero.\<close>

definition timeval_of :: "int \<Rightarrow> sockval" where
  "timeval_of ms = TimeVal (sgn ms * (\<bar>ms\<bar> div 1000)) (sgn ms * (\<bar>ms\<bar> mod 1000) * 1000)"

definition setRecvTimeout :: "int \<Rightarrow> int \<Rightarrow> sock_env \<Rightarrow> int \<times> sock_env" where
  "setRecvTimeout fd ms e = set_option fd SO_RCVTIMEO (timeval_of ms) e"

definition setSendTimeout :: "int \<Rightarrow> int \<Rightarrow> sock_env \<Rightarrow> int \<times> sock_env" where
  "setSendTimeout fd ms e = set_option fd SO_SNDTIMEO (timeval_of ms) e"

text \<open>\<open>errno_int\<close> numbers the error codes; the option value is what the kernel writes into the \<^verbatim>\<open>int\<close>.\<close>

definition getSocketError :: "(errno \<Rightarrow> int) \<Rightarrow> int \<Rightarrow> sock_env \<Rightarrow> int \<times> sock_env" where
  "getSocketError errno_int fd e =
     (let (r, e1) = sys (SysGetOpt fd SO_ERROR) e in
      if r < 0 then (errno_int (errno_of e1), e1)
      else (sint (mem_word (patch 0 (take 4 (sys_out e1)) (replicate 4 0)) :: 32 word), e1))"

section \<open>Sockets\<close>

definition createSocket :: "int \<Rightarrow> int \<Rightarrow> int \<Rightarrow> sock_env \<Rightarrow> (int, sock_env) outcome" where
  "createSocket domn sockType protocol e =
     bindS (assertS (sockType = SOCK_DGRAM \<or> sockType = SOCK_STREAM) e) (\<lambda>_ e.
       let (s, e1) = sys (SysSocket domn sockType protocol) e in
       if s = -1 then Done s e1
       else
         let (r, e2) = api_setReuseAddr s e1 in
         if r = XFNET_ERR then Done INVALID_SOCK (sys_close s e2) else Done s e2)"

text \<open>
  \<^verbatim>\<open>getsockname\<close> writes at most \<^verbatim>\<open>socklen\<close> bytes, and the code passes a
  \<^verbatim>\<open>socklen\<close> of 0.
\<close>

definition getLocalAddr :: "int \<Rightarrow> 16 word \<Rightarrow> xIpAddr \<Rightarrow> sock_env \<Rightarrow> (int \<times> xIpAddr) \<times> sock_env" where
  "getLocalAddr s fam localAddr e =
     (let socklen = 0; n = (if fam = AF_INET6 then sizeof_in6 else sizeof_in);
          (r, e1) = sys (SysGetSockName s socklen) e
      in if r < 0 then ((XFNET_ERR, localAddr), e1)
         else
           let stSock = patch 0 (take socklen (sys_out e1)) (replicate n 0)
           in ((XFNET_SUCC, if fam = AF_INET6 then setSockAddrIn6 stSock localAddr else setSockAddrIn stSock localAddr), e1))"

text \<open>
  \<^verbatim>\<open>tcpConnect\<close> by name: \<open>infos\<close> is the list that \<^verbatim>\<open>getaddrinfo\<close> returns (family,
  socket type, protocol, address), \<open>None\<close> its failure.
\<close>

fun connect_loop ::
    "32 word \<Rightarrow> (16 word \<times> int \<times> int \<times> byte list) list \<Rightarrow> xIpAddr \<Rightarrow> sock_env \<Rightarrow> (int \<times> xIpAddr, sock_env) outcome" where
  "connect_loop flags [] localAddr e = Done (XFNET_ERR, localAddr) e"
| "connect_loop flags ((fam, typ, proto, addr) # ps) localAddr e =
     bindS (createSocket (uint fam) typ proto e) (\<lambda>s e.
       if s = INVALID_SOCK then connect_loop flags ps localAddr e
       else
         let nb = flags AND XFNET_CONNECT_NONBLOCK \<noteq> 0;
             (r, e) = (if nb then nonBlock s e else (XFNET_SUCC, e))
         in if r \<noteq> XFNET_SUCC then Done (XFNET_ERR, localAddr) (sys_close s e)
            else
              let (r, e) = sys (SysConnect s addr (length addr)) e in
              if r = -1
              then if errno_of e = EINPROGRESS \<and> nb then Done (s, localAddr) e
                   else connect_loop flags ps localAddr (sys_close s e)
              else bindS (liftS (setAddrInfo (Some (fam, addr)) localAddr) e) (\<lambda>a e. Done (s, a) e))"

definition tcpConnect_name ::
    "32 word \<Rightarrow> (16 word \<times> int \<times> int \<times> byte list) list option \<Rightarrow> xIpAddr \<Rightarrow> sock_env \<Rightarrow> (int \<times> xIpAddr, sock_env) outcome" where
  "tcpConnect_name flags infos localAddr e =
     (case infos of None \<Rightarrow> Done (XFNET_ERR, localAddr) e | Some ps \<Rightarrow> connect_loop flags ps localAddr e)"

definition tcpConnect :: "32 word \<Rightarrow> xIpAddr \<Rightarrow> xIpAddr \<Rightarrow> sock_env \<Rightarrow> (int \<times> xIpAddr, sock_env) outcome" where
  "tcpConnect flags svrAddr localAddr e =
     bindS (createSocket (uint (family svrAddr)) SOCK_STREAM 0 e) (\<lambda>s e.
       if s = INVALID_SOCK then Done (XFNET_ERR, localAddr) e
       else
         let nb = flags AND XFNET_CONNECT_NONBLOCK \<noteq> 0;
             (r, e) = (if nb then nonBlock s e else (XFNET_SUCC, e))
         in if r \<noteq> XFNET_SUCC then Done (XFNET_ERR, localAddr) (sys_close s e)
            else
              let (r, e) = sys (SysConnect s svrAddr (getSockLen svrAddr)) e in
              if r = -1 \<and> \<not> (errno_of e = EINPROGRESS \<and> nb)
              then Done (XFNET_ERR, localAddr) (sys_close s e)
              else
                let ((r, a), e) = getLocalAddr s (family svrAddr) localAddr e in
                if r \<noteq> XFNET_SUCC then Done (XFNET_ERR, a) (sys_close s e) else Done (s, a) e)"

text \<open>\<^verbatim>\<open>__doTcpAccept\<close>: again after an interrupt.\<close>

function accept_loop :: "int \<Rightarrow> sock_env \<Rightarrow> int \<times> sock_env" where
  "accept_loop s e =
     (let (fd, e1) = sys (SysAccept s) e in
      if fd = -1 \<and> errno_of e1 = EINTR then accept_loop s e1
      else if fd = -1 then (XFNET_ERR, e1) else (fd, e1))"
  by pat_completeness auto
termination
  by (relation "measure (\<lambda>(s, e). length (replies e))") (auto simp: sys_def split: list.splits)

declare accept_loop.simps [simp del]

definition tcpAccept :: "int \<Rightarrow> xIpAddr \<Rightarrow> sock_env \<Rightarrow> (int \<times> xIpAddr, sock_env) outcome" where
  "tcpAccept fd peerAddr e =
     (let (s, e) = accept_loop fd e in
      if s = -1 then Done (XFNET_ERR, peerAddr) e
      else
        let sa = sys_out e in
        if family sa = AF_INET
        then bindS (liftS (mem_read sa 0 (of_nat sizeof_in)) e) (\<lambda>d e. Done (s, setSockAddrIn d peerAddr) e)
        else bindS (liftS (mem_read sa 0 (of_nat sizeof_in6)) e) (\<lambda>d e. Done (s, setSockAddrIn6 d peerAddr) e))"

definition tcpListen :: "int \<Rightarrow> sock_env \<Rightarrow> int \<times> sock_env" where
  "tcpListen fd e = (let (r, e1) = sys (SysListen fd SOMAXCONN) e in (if r = -1 then XFNET_ERR else XFNET_SUCC, e1))"

definition tcpBind :: "int \<Rightarrow> xIpAddr \<Rightarrow> sock_env \<Rightarrow> int \<times> sock_env" where
  "tcpBind fd localAddr e =
     (let (r, e1) = sys (SysBind fd localAddr (getSockLen localAddr)) e in (if r = -1 then XFNET_ERR else XFNET_SUCC, e1))"

definition tcpBindAndListen :: "int \<Rightarrow> xIpAddr \<Rightarrow> sock_env \<Rightarrow> int \<times> sock_env" where
  "tcpBindAndListen fd localAddr e =
     (let (r, e1) = tcpBind fd localAddr e in if r \<noteq> XFNET_SUCC then (XFNET_ERR, e1) else tcpListen fd e1)"

text \<open>\<open>fmt\<close> is the text that \<^verbatim>\<open>snprintf\<close> makes of the structure.\<close>

definition api_getTcpInfo :: "(byte list \<Rightarrow> string) \<Rightarrow> int \<Rightarrow> string \<Rightarrow> sock_env \<Rightarrow> (int \<times> string) \<times> sock_env" where
  "api_getTcpInfo fmt fd tcpInfo e =
     (let (r, e1) = sys (SysGetOpt fd TCP_INFO) e in
      if r \<noteq> 0 then ((XFNET_ERR, tcpInfo), e1) else ((XFNET_SUCC, fmt (sys_out e1)), e1))"

end
