(* ===== verification/Socket.thy ===== *)
theory Socket
  imports SockApi
begin

text \<open>
  \<^verbatim>\<open>net/include/socket.h\<close> and \<^verbatim>\<open>net/socket.cpp\<close>: the socket object, which owns a
  descriptor and closes it. The object is its descriptor; the operations that throw do so as
  \<open>SocketException\<close>.
\<close>

type_synonym xSocket = int

definition xSocket_new :: xSocket where
  "xSocket_new = INVALID_SOCK"

definition xSocket_of :: "int \<Rightarrow> xSocket" where
  "xSocket_of fd = fd"

definition valid :: "xSocket \<Rightarrow> bool" where
  "valid fd \<longleftrightarrow> fd \<noteq> INVALID_SOCK"

definition getFd :: "xSocket \<Rightarrow> int" where
  "getFd fd = fd"

text \<open>The constructor with a flag, which it does not look at: without a socket the process exits.\<close>

definition xSocket_die :: "bool \<Rightarrow> sock_env \<Rightarrow> (xSocket, sock_env) outcome" where
  "xSocket_die die e =
     bindS (createSocket (uint AF_INET) SOCK_STREAM 0 e) (\<lambda>fd e.
       if fd = INVALID_SOCK then Crash Exited else Done fd e)"

text \<open>Moving gives the descriptor away; move assignment closes the one held before.\<close>

definition move_construct :: "xSocket \<Rightarrow> xSocket \<times> xSocket" where
  "move_construct rth = (rth, INVALID_SOCK)"

definition move_assign :: "xSocket \<Rightarrow> xSocket \<Rightarrow> sock_env \<Rightarrow> (xSocket \<times> xSocket) \<times> sock_env" where
  "move_assign this rth e =
     (if this \<noteq> INVALID_SOCK then ((rth, INVALID_SOCK), sys_close this e) else ((rth, this), e))"

definition destroy :: "xSocket \<Rightarrow> sock_env \<Rightarrow> sock_env" where
  "destroy fd e = (if fd \<noteq> INVALID_SOCK then sys_close fd e else e)"

definition release :: "xSocket \<Rightarrow> int \<times> xSocket" where
  "release fd = (fd, INVALID_SOCK)"

text \<open>\<open>create\<close> does not look at its arguments, nor at the descriptor that the object may hold.\<close>

definition create :: "xSocket \<Rightarrow> int \<Rightarrow> int \<Rightarrow> sock_env \<Rightarrow> (xSocket, sock_env) outcome" where
  "create this domn socketType e =
     bindS (createSocket (uint AF_INET) SOCK_STREAM 0 e) (\<lambda>fd e.
       if \<not> valid fd then Raise SocketException e else Done fd e)"

definition xSocket_bind :: "xSocket \<Rightarrow> xIpAddr \<Rightarrow> sock_env \<Rightarrow> (int, sock_env) outcome" where
  "xSocket_bind fd localAddr e =
     (if \<not> valid fd then Raise SocketException e
      else let (r, e) = tcpBind fd localAddr e in if r \<noteq> XFNET_SUCC then Raise SocketException e else Done 0 e)"

definition xSocket_listen :: "xSocket \<Rightarrow> sock_env \<Rightarrow> (int, sock_env) outcome" where
  "xSocket_listen fd e =
     (if \<not> valid fd then Raise SocketException e
      else let (r, e) = tcpListen fd e in if r \<noteq> XFNET_SUCC then Raise SocketException e else Done 0 e)"

definition xSocket_accept :: "xSocket \<Rightarrow> xIpAddr \<Rightarrow> sock_env \<Rightarrow> (int \<times> xIpAddr, sock_env) outcome" where
  "xSocket_accept fd peerAddr e =
     (if \<not> valid fd then Done (INVALID_SOCK, peerAddr) e
      else bindS (tcpAccept fd peerAddr e) (\<lambda>(connfd, a) e.
             if connfd = XFNET_ERR then Done (INVALID_SOCK, a) e else Done (connfd, a) e))"

text \<open>The local variable of \<open>connectNonblock\<close>, a default address, is dropped.\<close>

definition connectNonblock :: "xIpAddr \<Rightarrow> xIpAddr \<Rightarrow> sock_env \<Rightarrow> (int, sock_env) outcome" where
  "connectNonblock junk serverAddr e =
     bindS (tcpConnect XFNET_CONNECT_NONBLOCK serverAddr (xIpAddr_port junk 0 False False) e) (\<lambda>(fd, a) e.
       if fd = XFNET_ERR then Done INVALID_SOCK e else Done fd e)"

definition xSocket_connect :: "xIpAddr \<Rightarrow> xIpAddr \<Rightarrow> sock_env \<Rightarrow> (int \<times> xIpAddr, sock_env) outcome" where
  "xSocket_connect serverAddr localAddr e =
     bindS (tcpConnect XFNET_CONNECT_NONE serverAddr localAddr e) (\<lambda>(fd, a) e.
       if fd = XFNET_ERR then Done (INVALID_SOCK, a) e else Done (fd, a) e)"

text \<open>The setters share one shape: an invalid socket and a failing call throw.\<close>

definition checked :: "(int \<Rightarrow> sock_env \<Rightarrow> int \<times> sock_env) \<Rightarrow> xSocket \<Rightarrow> sock_env \<Rightarrow> (unit, sock_env) outcome" where
  "checked api fd e =
     (if \<not> valid fd then Raise SocketException e
      else let (r, e) = api fd e in if r \<noteq> XFNET_SUCC then Raise SocketException e else Done () e)"

definition setTcpNoDelay :: "bool \<Rightarrow> xSocket \<Rightarrow> sock_env \<Rightarrow> (unit, sock_env) outcome" where
  "setTcpNoDelay on fd e = checked (if on then enableTcpNoDelay else disableTcpNoDelay) fd e"

definition setNonBlock :: "bool \<Rightarrow> xSocket \<Rightarrow> sock_env \<Rightarrow> (unit, sock_env) outcome" where
  "setNonBlock on fd e = checked (if on then nonBlock else block) fd e"

definition setReuseAddr :: "xSocket \<Rightarrow> sock_env \<Rightarrow> (unit, sock_env) outcome" where
  "setReuseAddr fd e = checked api_setReuseAddr fd e"

definition setReusePort :: "xSocket \<Rightarrow> sock_env \<Rightarrow> (unit, sock_env) outcome" where
  "setReusePort fd e = checked api_setReusePort fd e"

text \<open>The interval of \<open>setKeepAlive\<close> is the default, 0.\<close>

definition setKeepAlive :: "xSocket \<Rightarrow> sock_env \<Rightarrow> (unit, sock_env) outcome" where
  "setKeepAlive fd e = checked (\<lambda>fd. api_setKeepAlive fd 0) fd e"

definition getTcpInfo :: "(byte list \<Rightarrow> string) \<Rightarrow> xSocket \<Rightarrow> string \<Rightarrow> sock_env \<Rightarrow> (bool \<times> string) \<times> sock_env" where
  "getTcpInfo fmt fd tcpInfo e =
     (let ((r, t), e1) = api_getTcpInfo fmt fd tcpInfo e in ((r = XFNET_SUCC, t), e1))"

section \<open>Descriptors opened and closed\<close>

text \<open>The descriptors that a trace opens and those it closes, in order.\<close>

fun opened :: "(sys_call \<times> int) list \<Rightarrow> int list" where
  "opened [] = []"
| "opened ((SysSocket _ _ _, r) # t) = (if r = -1 then opened t else r # opened t)"
| "opened (_ # t) = opened t"

fun closed_fds :: "(sys_call \<times> int) list \<Rightarrow> int list" where
  "closed_fds [] = []"
| "closed_fds ((SysClose fd, _) # t) = fd # closed_fds t"
| "closed_fds (_ # t) = closed_fds t"

lemma opened_append [simp]: "opened (t @ u) = opened t @ opened u"
  by (induction t rule: opened.induct) simp_all

lemma closed_append [simp]: "closed_fds (t @ u) = closed_fds t @ closed_fds u"
  by (induction t rule: closed_fds.induct) simp_all

text \<open>\<open>held fd\<close>: what a call leaves open, as a list.\<close>

definition held :: "int \<Rightarrow> int list" where
  "held fd = (if fd = -1 then [] else [fd])"

text \<open>\<open>leaves e e' fd\<close>: between \<open>e\<close> and \<open>e'\<close> every opened descriptor was closed but \<open>fd\<close>.\<close>

definition leaves :: "sock_env \<Rightarrow> sock_env \<Rightarrow> int \<Rightarrow> bool" where
  "leaves e e' fd \<longleftrightarrow> (\<exists>t. trace e' = trace e @ t \<and> opened t = closed_fds t @ held fd)"

definition other_call :: "sys_call \<Rightarrow> bool" where
  "other_call c \<longleftrightarrow> (case c of SysSocket _ _ _ \<Rightarrow> False | SysClose _ \<Rightarrow> False | _ \<Rightarrow> True)"

lemma sys_trace: "trace (snd (sys c e)) = trace e @ [(c, fst (sys c e))]"
  by (simp add: sys_def split: list.split)

lemma sys_other: "sys c e = (r, e') \<Longrightarrow> other_call c \<Longrightarrow> leaves e0 e fd \<Longrightarrow> leaves e0 e' fd"
  using sys_trace [of c e] by (cases c) (auto simp: other_call_def leaves_def)

lemma sys_socket: "sys (SysSocket a b c) e = (r, e') \<Longrightarrow> leaves e0 e (-1) \<Longrightarrow> leaves e0 e' r"
  using sys_trace [of "SysSocket a b c" e] by (auto simp: leaves_def held_def)

lemma sys_close_leaves: "leaves e0 e fd \<Longrightarrow> fd \<noteq> -1 \<Longrightarrow> leaves e0 (sys_close fd e) (-1)"
  by (auto simp: leaves_def held_def sys_close_def)

lemma leaves_refl: "leaves e e (-1)"
  by (simp add: leaves_def held_def)

lemma set_option_leaves: "set_option fd opt v e = (r, e') \<Longrightarrow> leaves e0 e x \<Longrightarrow> leaves e0 e' x"
  by (auto simp: set_option_def other_call_def split: prod.splits intro: sys_other)

lemma nonBlock_leaves: "nonBlock fd e = (r, e') \<Longrightarrow> leaves e0 e x \<Longrightarrow> leaves e0 e' x"
proof -
  assume n: "nonBlock fd e = (r, e')" and l: "leaves e0 e x"
  obtain f e1 where f: "sys (SysGetFl fd) e = (f, e1)" by (cases "sys (SysGetFl fd) e")
  have l1: "leaves e0 e1 x" using sys_other [OF f _ l] by (simp add: other_call_def)
  obtain r2 e2 where r: "sys (SysSetFl fd (of_int f OR O_NONBLOCK)) e1 = (r2, e2)"
    by (cases "sys (SysSetFl fd (of_int f OR O_NONBLOCK)) e1")
  have "leaves e0 e2 x" using sys_other [OF r _ l1] by (simp add: other_call_def)
  then show ?thesis using n f r l1 by (auto simp: nonBlock_def setBlock_def split: if_splits)
qed

lemma createSocket_leaves:
  assumes "createSocket d t p e = Done s e'" and "leaves e0 e (-1)"
  shows "leaves e0 e' s"
proof -
  obtain r e1 where r: "sys (SysSocket d t p) e = (r, e1)" by (cases "sys (SysSocket d t p) e")
  have l1: "leaves e0 e1 r" using sys_socket [OF r assms(2)] .
  obtain q e2 where q: "api_setReuseAddr r e1 = (q, e2)" by (cases "api_setReuseAddr r e1")
  have l2: "leaves e0 e2 r" using set_option_leaves [OF q [unfolded api_setReuseAddr_def] l1] .
  have "s = -1 \<and> e' = e1 \<and> r = -1 \<or> s = -1 \<and> e' = sys_close r e2 \<and> r \<noteq> -1 \<or> s = r \<and> e' = e2"
    using assms(1) r q by (auto simp: createSocket_def INVALID_SOCK_def assertS_def split: if_splits)
  then show ?thesis
    using l1 l2 sys_close_leaves [OF l2] by auto
qed

end
