(* ===== verification/Socket_Props.thy ===== *)
theory Socket_Props
  imports Socket
begin

text \<open>The properties of socket addresses and of the socket functions.\<close>

section \<open>Addresses\<close>

lemma length_mem16 [simp]: "length (mem_bytes (x :: 16 word)) = 2" "length (mem_bytes (y :: 32 word)) = 4"
  by simp_all

lemma length_in6 [simp]: "length in6addr_loopback = 16" "length in6addr_any = 16"
  by (simp_all add: in6addr_loopback_def in6addr_any_def)

text \<open>
  The address built from a port and two flags, whatever the memory of the object held
  before: the family is the one asked for, the length passed to the kernel is that of the
  family's structure, the port reads back, and the IPv4 address is the loopback or the
  wildcard address in network byte order.
\<close>

lemma address_of_port:
  assumes "length junk = 28"
  shows "family (xIpAddr_port junk port lookback ipv6) = (if ipv6 then AF_INET6 else AF_INET) \<and>
    getSockLen (xIpAddr_port junk port lookback ipv6) = (if ipv6 then 28 else 16) \<and>
    toPort (xIpAddr_port junk port lookback ipv6) = port \<and>
    length (xIpAddr_port junk port lookback ipv6) = 28 \<and>
    (\<not> ipv6 \<longrightarrow> take 4 (drop 4 (xIpAddr_port junk port lookback ipv6)) =
       (if lookback then [127, 0, 0, 1] else [0, 0, 0, 0]))"
proof (cases ipv6)
  case True
  let ?a1 = "replicate sizeof_in6 0 :: byte list"
  let ?a2 = "patch 0 (mem_bytes AF_INET6) ?a1"
  let ?a3 = "patch 8 (if lookback then in6addr_loopback else in6addr_any) ?a2"
  have l: "length ?a1 = 28" "length ?a2 = 28" "length ?a3 = 28"
    by (simp_all add: sizeof_in6_def length_patch)
  have "family (patch 2 (mem_bytes (hostToNetwork16 port)) ?a3) = AF_INET6"
    using l by (simp add: family_patch family_patch0)
  moreover have "length (patch 2 (mem_bytes (hostToNetwork16 port)) ?a3) = 28"
    using l by (simp add: length_patch)
  ultimately show ?thesis
    using True l by (simp add: xIpAddr_port_def Let_def getSockLen_def toPort_patch2 sizeof_in6_def)
next
  case False
  let ?ip = "if lookback then INADDR_LOOPBACK else INADDR_ANY"
  let ?a1 = "patch 0 (replicate sizeof_in 0) junk"
  let ?a2 = "patch 0 (mem_bytes AF_INET) ?a1"
  let ?a3 = "patch 4 (mem_bytes (hostToNetwork32 ?ip)) ?a2"
  let ?a4 = "patch 2 (mem_bytes (hostToNetwork16 port)) ?a3"
  have l: "length ?a1 = 28" "length ?a2 = 28" "length ?a3 = 28" "length ?a4 = 28"
    using assms by (simp_all add: sizeof_in_def length_patch)
  have f: "family ?a4 = AF_INET"
    using l by (simp add: family_patch family_patch0)
  have "take 4 (drop 4 ?a4) = take 4 (drop 4 ?a3)"
    using patch_after [of 2 "mem_bytes (hostToNetwork16 port)" 4 ?a3 4] l by simp
  also have "\<dots> = net_bytes ?ip"
    using patch_get [of 4 "mem_bytes (hostToNetwork32 ?ip)" ?a2] l by (simp add: mem_bytes_hostToNetwork)
  also have "\<dots> = (if lookback then [127, 0, 0, 1] else [0, 0, 0, 0])"
  proof -
    have "net_bytes INADDR_LOOPBACK = [127, 0, 0, 1]" "net_bytes INADDR_ANY = [0, 0, 0, 0]"
      by code_simp+
    then show ?thesis by simp
  qed
  finally show ?thesis
    using False f l by (simp add: xIpAddr_port_def Let_def getSockLen_def toPort_patch2)
      (simp add: sizeof_in_def AF_INET_def AF_INET6_def)
qed

lemma address_of_port_witness:
  "toPort (xIpAddr_port (replicate 28 7) 8080 True False) = 8080"
  using address_of_port [of "replicate 28 7" 8080 True False] by simp

text \<open>
  The address built from a text that is no address is the wildcard address: the failure of
  \<^verbatim>\<open>inet_pton\<close> is only logged, so a server given a mistyped address listens on all
  interfaces.
\<close>

lemma bad_text_is_wildcard:
  assumes "pton4 ip = None" and "length junk = 28"
  shows "take 16 (xIpAddr_ip pton4 pton6 junk ip port False) = take 16 (xIpAddr_port junk port False False)"
proof -
  have z: "hostToNetwork32 INADDR_ANY = 0"
    by (simp add: hostToNetwork32_def byte_swap_def INADDR_ANY_def) code_simp
  let ?a2 = "patch 0 (mem_bytes AF_INET) (patch 0 (replicate sizeof_in 0) junk)"
  have "patch 4 (mem_bytes (0 :: 32 word)) ?a2 = ?a2"
  proof -
    have "mem_bytes (0 :: 32 word) = [0, 0, 0, 0]" "mem_bytes AF_INET = [2, 0]"
      by code_simp+
    moreover have "replicate sizeof_in (0 :: byte) = [0,0,0,0, 0,0,0,0, 0,0,0,0, 0,0,0,0]"
      by (simp add: sizeof_in_def numeral_eq_Suc)
    ultimately show ?thesis by (simp add: patch_def)
  qed
  then show ?thesis
    using assms(1) z by (simp add: xIpAddr_ip_def fromIpPort4_def xIpAddr_port_def Let_def)
qed

lemma bad_text_is_wildcard_witness:
  "take 16 (xIpAddr_ip (\<lambda>_. None) (\<lambda>_. None) (replicate 28 0) ''localhost'' 80 False) =
   take 16 (xIpAddr_port (replicate 28 0) 80 False False)"
  using bad_text_is_wildcard [of "\<lambda>_. None" "''localhost''" "replicate 28 0" "\<lambda>_. None" 80] by simp

section \<open>Descriptors\<close>

lemma leaves_back: "leaves e0 e fd \<Longrightarrow> fd = -1 \<Longrightarrow> leaves e0 e (-1)"
  by simp

lemma nb_leaves:
  assumes "(if nb then nonBlock s e else (XFNET_SUCC, e)) = (r, e1)" and "leaves e0 e s"
  shows "leaves e0 e1 s"
  using assms nonBlock_leaves [of s e r e1] by (auto split: if_splits)

lemma tcpConnect_leaves:
  assumes "tcpConnect flags svr a e = Done (s, a') e'"
  shows "leaves e e' s"
proof -
  let ?nb = "flags AND XFNET_CONNECT_NONBLOCK \<noteq> 0"
  obtain fd e1 where c: "createSocket (uint (family svr)) SOCK_STREAM 0 e = Done fd e1"
    using assms by (cases "createSocket (uint (family svr)) SOCK_STREAM 0 e") (simp_all add: tcpConnect_def)
  have l1: "leaves e e1 fd" using createSocket_leaves [OF c leaves_refl] .
  show ?thesis
  proof (cases "fd = -1")
    case True
    then show ?thesis using assms c l1 by (auto simp: tcpConnect_def sock_consts)
  next
    case False
    obtain r e2 where n: "(if ?nb then nonBlock fd e1 else (XFNET_SUCC, e1)) = (r, e2)"
      by (cases "if ?nb then nonBlock fd e1 else (XFNET_SUCC, e1)")
    have l2: "leaves e e2 fd" using nb_leaves [OF n l1] .
    obtain q e3 where q: "sys (SysConnect fd svr (getSockLen svr)) e2 = (q, e3)"
      by (cases "sys (SysConnect fd svr (getSockLen svr)) e2")
    have l3: "leaves e e3 fd" using sys_other [OF q _ l2] by (simp add: other_call_def)
    obtain g e4 where g: "sys (SysGetSockName fd 0) e3 = (g, e4)"
      by (cases "sys (SysGetSockName fd 0) e3")
    have l4: "leaves e e4 fd" using sys_other [OF g _ l3] by (simp add: other_call_def)
    have "(s = -1 \<and> (e' = sys_close fd e2 \<or> e' = sys_close fd e3 \<or> e' = sys_close fd e4)) \<or> s = fd \<and> e' = e4"
      using assms c n q g False
      by (auto simp: tcpConnect_def getLocalAddr_def sock_consts Let_def split: if_splits)
    then show ?thesis
      using l2 l3 l4 False sys_close_leaves by blast
  qed
qed

lemma connect_loop_leaves:
  "connect_loop flags ps a e = Done (s, a') e' \<Longrightarrow> leaves e0 e (-1) \<Longrightarrow> leaves e0 e' s"
proof (induction flags ps a e rule: connect_loop.induct)
  case (1 flags a e)
  then show ?case by (simp add: sock_consts)
next
  case (2 flags fam ty proto addr ps a e)
  let ?nb = "flags AND XFNET_CONNECT_NONBLOCK \<noteq> 0"
  obtain fd e1 where c: "createSocket (uint fam) ty proto e = Done fd e1"
    using "2.prems"(1) by (cases "createSocket (uint fam) ty proto e") simp_all
  have l1: "leaves e0 e1 fd" using createSocket_leaves [OF c "2.prems"(2)] .
  show ?case
  proof (cases "fd = -1")
    case True
    then show ?thesis
      using "2.prems"(1) c l1 "2.IH"(1) [of fd e1] by (simp add: sock_consts)
  next
    case False
    obtain r e2 where n: "(if ?nb then nonBlock fd e1 else (XFNET_SUCC, e1)) = (r, e2)"
      by (cases "if ?nb then nonBlock fd e1 else (XFNET_SUCC, e1)")
    have l2: "leaves e0 e2 fd" using nb_leaves [OF n l1] .
    obtain q e3 where q: "sys (SysConnect fd addr (length addr)) e2 = (q, e3)"
      by (cases "sys (SysConnect fd addr (length addr)) e2")
    have l3: "leaves e0 e3 fd" using sys_other [OF q _ l2] by (simp add: other_call_def)
    show ?thesis
    proof (cases "r = 0 \<and> q = -1 \<and> \<not> (errno_of e3 = EINPROGRESS \<and> ?nb)")
      case True
      then have "connect_loop flags ps a (sys_close fd e3) = Done (s, a') e'"
        using "2.prems"(1) c n q False by (auto simp: sock_consts Let_def split: if_splits)
      then show ?thesis
        using "2.IH"(2) [OF _ refl n [symmetric] refl _ q [symmetric] refl] True False l3 sys_close_leaves
        by (simp add: sock_consts)
    next
      case other: False
      have "s = -1 \<and> e' = sys_close fd e2 \<or> s = fd \<and> e' = e3"
        using "2.prems"(1) c n q False other
        by (cases "setAddrInfo (Some (fam, addr)) a")
          (auto simp: sock_consts Let_def liftS_def split: if_splits fault.splits)
      then show ?thesis
        using l2 l3 False sys_close_leaves by blast
    qed
  qed
qed

text \<open>
  C30. Connecting leaks no descriptor. Whichever calls to the kernel fail, every socket opened
  on the way is closed again, in order, but the one that is returned; a failure returns
  \<open>-1\<close> with all of them closed.
\<close>

theorem connect_leaks_nothing:
  assumes "tcpConnect flags svr a e = Done (s, a') e' \<or> tcpConnect_name flags infos a e = Done (s, a') e'"
  shows "\<exists>t. trace e' = trace e @ t \<and> opened t = closed_fds t @ (if s = -1 then [] else [s])"
proof -
  have "leaves e e' s"
    using assms
  proof
    assume "tcpConnect_name flags infos a e = Done (s, a') e'"
    then show ?thesis
      using connect_loop_leaves [OF _ leaves_refl] leaves_refl
      by (auto simp: tcpConnect_name_def sock_consts split: option.splits)
  qed (rule tcpConnect_leaves)
  then show ?thesis
    by (auto simp: leaves_def held_def)
qed

definition env_of :: "(int \<times> errno \<times> byte list) list \<Rightarrow> sock_env" where
  "env_of rs = \<lparr>replies = rs, trace = [], errno_of = EINVAL, sys_out = []\<rparr>"

lemma connect_leaks_nothing_witness:
  "\<exists>a e'. tcpConnect 1 (replicate 28 0) (replicate 28 0)
      (env_of [(5, EINVAL, []), (0, EINVAL, []), (0, EINVAL, []), (0, EINVAL, []), (-1, EINPROGRESS, []), (-1, EINVAL, [])]) =
      Done (-1, a) e' \<and> opened (trace e') = [5] \<and> closed_fds (trace e') = [5]"
proof -
  let ?e = "env_of [(5, EINVAL, []), (0, EINVAL, []), (0, EINVAL, []), (0, EINVAL, []), (-1, EINPROGRESS, []), (-1, EINVAL, [])]"
  obtain a e' where r: "tcpConnect 1 (replicate 28 0) (replicate 28 0) ?e = Done (-1, a) e'" "opened (trace e') = [5]"
    by (simp add: env_of_def tcpConnect_def createSocket_def api_setReuseAddr_def set_option_def sys_def nonBlock_def
        setBlock_def getLocalAddr_def SOCK_STREAM_def sock_consts XFNET_CONNECT_NONBLOCK_def sys_close_def Let_def)
  moreover have "trace ?e = []" by (simp add: env_of_def)
  ultimately show ?thesis
    using connect_leaks_nothing [of 1 "replicate 28 0" "replicate 28 0" ?e "-1" a e'] by auto
qed

text \<open>
  The local address is never obtained: \<^verbatim>\<open>getsockname\<close> is called with a buffer
  length of 0, so whatever the kernel answers, a successful call leaves an address of family 0
  and port 0.
\<close>

lemma local_address_is_empty:
  assumes "getLocalAddr s fam a e = ((XFNET_SUCC, a'), e')" and "length a = 28"
  shows "family a' = 0 \<and> toPort a' = 0"
proof -
  have z16: "replicate sizeof_in (0 :: byte) = [0,0,0,0, 0,0,0,0, 0,0,0,0, 0,0,0,0]"
    by (simp add: sizeof_in_def numeral_eq_Suc)
  have z28: "replicate sizeof_in6 (0 :: byte) = [0,0,0,0] @ replicate 24 0"
    by (simp add: sizeof_in6_def numeral_eq_Suc)
  have "a' = (if fam = AF_INET6 then replicate sizeof_in6 0 else patch 0 (replicate sizeof_in 0) a)"
    using assms(1) by (auto simp: getLocalAddr_def setSockAddrIn_def setSockAddrIn6_def patch_def sock_consts
        Let_def split: prod.splits if_splits)
  then obtain rest where "a' = [0, 0, 0, 0] @ rest"
    using z16 z28 by (cases "fam = AF_INET6") (simp_all add: patch_def)
  then have "take 2 a' = [0, 0]" "take 2 (drop 2 a') = [0, 0]"
    by (simp_all add: numeral_2_eq_2)
  then show ?thesis
    by (simp add: family_def toPort_def portNetEndian_def networkToHost16_def) code_simp
qed

lemma local_address_is_empty_witness:
  "case getLocalAddr 5 AF_INET (replicate 28 1) (env_of [(0, EINVAL, [2, 0, 31, 144, 127, 0, 0, 1])]) of
     ((r, a), e') \<Rightarrow> r = 0 \<and> family a = 0 \<and> toPort a = 0"
proof -
  let ?e = "env_of [(0, EINVAL, [2, 0, 31, 144, 127, 0, 0, 1])]"
  obtain r a e' where g: "getLocalAddr 5 AF_INET (replicate 28 1) ?e = ((r, a), e')"
    by (metis surj_pair)
  then have "r = XFNET_SUCC"
    by (auto simp: getLocalAddr_def env_of_def sys_def Let_def split: if_splits)
  then show ?thesis
    using local_address_is_empty [of 5 AF_INET "replicate 28 1" ?e a e'] g by (simp add: XFNET_SUCC_def)
qed

section \<open>Accepting and creating\<close>

text \<open>
  \<open>accept\<close> skips any number of interrupted calls and returns the first other answer: the
  new descriptor with the peer's address copied out of what the kernel wrote, or the failure
  with the address unchanged.
\<close>

lemma accept_skips_interrupts:
  assumes "replies e = map (\<lambda>x. (-1, EINTR, x)) xs @ (r, er, out) # rs" and "er \<noteq> EINTR" and "length peer = 28"
    and "r \<noteq> -1 \<longrightarrow> family out = AF_INET \<and> 16 \<le> length out"
  shows "\<exists>e'. tcpAccept fd peer e =
      Done (r, if r = -1 then peer else take 16 out @ drop 16 peer) e' \<and> replies e' = rs"
proof -
  have "\<exists>e'. accept_loop fd e = (r, e') \<and> replies e' = rs \<and> sys_out e' = out"
    using assms(1)
  proof (induction xs arbitrary: e)
    case Nil
    then show ?case
      using assms(2) by (subst accept_loop.simps) (auto simp: sys_def sock_consts)
  next
    case (Cons out1 xs)
    let ?e1 = "snd (sys (SysAccept fd) e)"
    have "replies ?e1 = map (\<lambda>x. (-1, EINTR, x)) xs @ (r, er, out) # rs"
      using Cons.prems by (simp add: sys_def)
    moreover have "accept_loop fd e = accept_loop fd ?e1"
      using Cons.prems by (subst accept_loop.simps) (simp add: sys_def)
    ultimately show ?case
      using Cons.IH by simp
  qed
  then obtain e' where e': "accept_loop fd e = (r, e')" "replies e' = rs" "sys_out e' = out"
    by blast
  have u: "unat (of_nat sizeof_in :: size_t) = 16"
    by (simp add: sizeof_in_def)
  show ?thesis
  proof (cases "r = -1")
    case True
    then show ?thesis using e' by (simp add: tcpAccept_def sock_consts)
  next
    case False
    then show ?thesis
      using e' assms(4) u by (simp add: tcpAccept_def mem_read_def setSockAddrIn_def patch_def)
  qed
qed

lemma accept_skips_interrupts_witness:
  "\<exists>e'. tcpAccept 3 (replicate 28 0) (env_of [(-1, EINTR, []), (8, EINVAL, [2, 0] @ replicate 14 1)]) =
    Done (8, [2, 0] @ replicate 14 1 @ replicate 12 0) e'"
proof -
  have "family ([2, 0] @ replicate 14 1) = AF_INET"
    by code_simp
  then show ?thesis
    using accept_skips_interrupts [of "env_of [(-1, EINTR, []), (8, EINVAL, [2, 0] @ replicate 14 1)]" "[[]]" 8 EINVAL
      "[2, 0] @ replicate 14 1" "[]" "replicate 28 0" 3]
    by (auto simp: env_of_def)
qed

text \<open>
  \<open>create\<close> always asks for an IPv4 stream socket, whatever domain and type it is given, so
  an IPv6 listener gets an IPv4 socket; and it overwrites the descriptor that the object may
  already hold without closing it.
\<close>

lemma create_ignores_its_arguments:
  assumes "create this domn ty e = Done fd e'"
  shows "create 7 d t e = Done fd e' \<and>
    (\<exists>t. trace e' = trace e @ (SysSocket 2 SOCK_STREAM 0, fd) # t \<and> closed_fds t = [])"
proof
  show "create 7 d t e = Done fd e'"
    using assms by (simp add: create_def)
  have af: "uint AF_INET = 2" by (simp add: AF_INET_def)
  obtain s e1 where c: "createSocket 2 SOCK_STREAM 0 e = Done s e1" and s: "valid s" "s = fd" "e1 = e'"
    using assms by (auto simp: create_def af bindS_def split: outcome.splits if_splits)
  obtain r e2 where r: "sys (SysSocket 2 SOCK_STREAM 0) e = (r, e2)" by (cases "sys (SysSocket 2 SOCK_STREAM 0) e")
  obtain q e3 where q: "sys (SysSetOpt r SO_REUSEADDR (IntVal 1)) e2 = (q, e3)"
    by (cases "sys (SysSetOpt r SO_REUSEADDR (IntVal 1)) e2")
  have "r = fd \<and> e' = e3"
    using c r q s by (auto simp: createSocket_def api_setReuseAddr_def set_option_def valid_def sock_consts split: if_splits)
  then show "\<exists>t. trace e' = trace e @ (SysSocket 2 SOCK_STREAM 0, fd) # t \<and> closed_fds t = []"
    using sys_trace [of "SysSocket 2 SOCK_STREAM 0" e] sys_trace [of "SysSetOpt r SO_REUSEADDR (IntVal 1)" e2] r q
    by auto
qed

lemma create_ignores_its_arguments_witness:
  "\<exists>e'. create 4 10 2 (env_of [(5, EINVAL, []), (0, EINVAL, [])]) = Done 5 e' \<and> 4 \<notin> set (closed_fds (trace e'))"
proof -
  let ?e = "env_of [(5, EINVAL, []), (0, EINVAL, [])]"
  obtain e' where c: "create 4 10 2 ?e = Done 5 e'"
    by (simp add: create_def createSocket_def api_setReuseAddr_def set_option_def sys_def env_of_def valid_def
        SOCK_STREAM_def sock_consts)
  obtain t where "trace e' = trace ?e @ (SysSocket 2 SOCK_STREAM 0, 5) # t" "closed_fds t = []"
    using create_ignores_its_arguments [OF c] by blast
  then show ?thesis using c by (simp add: env_of_def)
qed

end
