(* ===== verification/Listener.thy ===== *)
theory Listener
  imports Connection Socket
begin

text \<open>
  \<^verbatim>\<open>net/include/listener.h\<close> and \<^verbatim>\<open>net/listener.cpp\<close>: the listening socket and the
  acceptance of connections. \<open>env\<close> is the kernel's side of the socket calls (\<open>SockApi\<close>).
\<close>

section \<open>State\<close>

record 'k listener_state = "'k net_state" +
  env :: sock_env
  isListen :: bool
  listenSock :: xSocket
  newConnectionCb :: "closure option"

text \<open>A socket function run on the socket part of the state.\<close>

definition with_env ::
    "(sock_env \<Rightarrow> ('a, sock_env) outcome) \<Rightarrow> ('k, 'z) listener_state_scheme \<Rightarrow> ('a, ('k, 'z) listener_state_scheme) outcome" where
  "with_env f s =
     (case f (env s) of
        Done x e \<Rightarrow> Done x (s\<lparr>env := e\<rparr>)
      | Raise x e \<Rightarrow> Raise x (s\<lparr>env := e\<rparr>)
      | Crash c \<Rightarrow> Crash c
      | Diverge \<Rightarrow> Diverge)"

definition close_fd :: "int \<Rightarrow> ('k, 'z) listener_state_scheme \<Rightarrow> ('k, 'z) listener_state_scheme" where
  "close_fd fd s = s\<lparr>env := sys_close fd (env s)\<rparr>"

lemma with_env_Done: "f (env s) = Done x e \<Longrightarrow> with_env f s = Done x (s\<lparr>env := e\<rparr>)"
  by (simp add: with_env_def)

lemma with_env_Raise: "f (env s) = Raise x e \<Longrightarrow> with_env f s = Raise x (s\<lparr>env := e\<rparr>)"
  by (simp add: with_env_def)

definition xListener_new :: "closure option \<Rightarrow> ('k, 'z) listener_state_scheme \<Rightarrow> ('k, 'z) listener_state_scheme" where
  "xListener_new cb s = s\<lparr>isListen := False, listenSock := xSocket_new, newConnectionCb := cb\<rparr>"

definition setNewConnectionCb :: "closure option \<Rightarrow> ('k, 'z) listener_state_scheme \<Rightarrow> ('k, 'z) listener_state_scheme" where
  "setNewConnectionCb cb s = s\<lparr>newConnectionCb := cb\<rparr>"

section \<open>Operations\<close>

definition addEventsForAccept ::
    "'k epoll_ctl \<Rightarrow> ('k, 'z) listener_state_scheme \<Rightarrow> (unit, ('k, 'z) listener_state_scheme) outcome" where
  "addEventsForAccept ctl s =
     bindS (loop_reg ctl (listenSock s) 0 XE_READABLE ListenerHandleEvent s) (\<lambda>_ s. Done () s)"

text \<open>An exception on the way to the listening state ends the process.\<close>

definition doListen ::
    "(closure \<Rightarrow> ('k, 'z) listener_state_scheme \<Rightarrow> (unit, ('k, 'z) listener_state_scheme) outcome) \<Rightarrow>
     xIpAddr \<Rightarrow> ('k, 'z) listener_state_scheme \<Rightarrow> (int, ('k, 'z) listener_state_scheme) outcome" where
  "doListen call listenAddr s =
     bindS (catchS
       (bindS (with_env (create (listenSock s) (uint (family listenAddr)) SOCK_STREAM) s) (\<lambda>fd s.
        let s = s\<lparr>listenSock := fd\<rparr> in
        bindS (with_env (setReuseAddr fd) s) (\<lambda>_ s.
        bindS (with_env (setReusePort fd) s) (\<lambda>_ s.
        bindS (with_env (xSocket_bind fd listenAddr) s) (\<lambda>_ s.
        bindS (with_env (xSocket_listen fd) s) (\<lambda>_ s.
        bindS (with_env (setNonBlock True fd) s) (\<lambda>_ s.
        scheduleToLoopThread call (FCall ListenerAddEvents) (s\<lparr>isListen := True\<rparr>))))))))
       (\<lambda>e s. Crash Exited)) (\<lambda>_ s. Done 0 s)"

text \<open>
  \<open>new_conn\<close> is the call of the callback for a new connection, which takes the socket over. An
  exception that comes out of it makes the listener close the descriptor.
\<close>

definition handleAccept ::
    "(closure \<Rightarrow> int \<Rightarrow> xIpAddr \<Rightarrow> ('k, 'z) listener_state_scheme \<Rightarrow> (unit, ('k, 'z) listener_state_scheme) outcome) \<Rightarrow>
     xIpAddr \<Rightarrow> ('k, 'z) listener_state_scheme \<Rightarrow> (unit, ('k, 'z) listener_state_scheme) outcome" where
  "handleAccept new_conn junk s =
     bindS (with_env (xSocket_accept (listenSock s) (xIpAddr_port junk 0 False False)) s) (\<lambda>(connfd, peerAddr) s.
       if connfd \<ge> 0
       then case newConnectionCb s of
              Some f \<Rightarrow> catchS (new_conn f connfd peerAddr s) (\<lambda>e s. Done () (close_fd connfd s))
            | None \<Rightarrow> Done () (close_fd connfd s)
       else Done () s)"

definition listener_HandleEvent ::
    "'k epoll_ctl \<Rightarrow>
     (closure \<Rightarrow> int \<Rightarrow> xIpAddr \<Rightarrow> ('k, 'z) listener_state_scheme \<Rightarrow> (unit, ('k, 'z) listener_state_scheme) outcome) \<Rightarrow>
     xIpAddr \<Rightarrow> xEvent \<Rightarrow> ('k, 'z) listener_state_scheme \<Rightarrow> (unit, ('k, 'z) listener_state_scheme) outcome" where
  "listener_HandleEvent ctl new_conn junk xe s =
     bindS (if has (emask xe) XE_ERROR \<or> has (emask xe) XE_HUP
            then bindS (loop_remove ctl (efd xe) s) (\<lambda>_ s. Done () (s\<lparr>isListen := False\<rparr>))
            else if has (emask xe) XE_READABLE then handleAccept new_conn junk s
            else Done () s) (\<lambda>_ s.
       assertS (\<not> has (emask xe) XE_WRITABLE) s)"

end
