(* ===== verification/HandlerGroup.thy ===== *)
theory HandlerGroup
  imports Listener
begin

text \<open>
  \<^verbatim>\<open>net/include/handler.h\<close>, \<^verbatim>\<open>net/handler.cpp\<close>,
  \<^verbatim>\<open>net/include/handler_group.h\<close> and \<^verbatim>\<open>net/handler_group.cpp\<close>: the worker threads
  and the queue of messages between them and the loop thread. A message carries the number of its
  connection in front. \<open>dispatch\<close> and \<open>Connected\<close>, the virtual functions of a handler, and
  the server's \<open>sendResponse\<close> are arguments.
\<close>

section \<open>State\<close>

text \<open>
  \<open>hasGroup\<close>: the weak pointer to the group can be locked. It is set after the constructor has
  started the thread.
\<close>

record xHandler =
  isTerminate :: bool
  hasGroup :: bool

record 'k group_state = "'k listener_state" +
  msgQueue :: "xBuffer xChan"
  handleWorkers :: "xHandler list"
  serverAlive :: bool

definition xHandler_new :: xHandler where
  "xHandler_new = \<lparr>isTerminate = False, hasGroup = False\<rparr>"

definition setHandlerGroup :: "xHandler \<Rightarrow> xHandler" where
  "setHandlerGroup h = h\<lparr>hasGroup := True\<rparr>"

definition isRunning :: "xHandler \<Rightarrow> bool" where
  "isRunning h \<longleftrightarrow> \<not> isTerminate h"

definition handler_stop :: "xHandler \<Rightarrow> xHandler" where
  "handler_stop h = h\<lparr>isTerminate := True\<rparr>"

section \<open>The group\<close>

definition registerHandler :: "nat \<Rightarrow> ('k, 'z) group_state_scheme \<Rightarrow> ('k, 'z) group_state_scheme" where
  "registerHandler handlerNum s =
     s\<lparr>handleWorkers := handleWorkers s @ replicate handlerNum (setHandlerGroup xHandler_new)\<rparr>"

definition addMsg :: "xBuffer \<Rightarrow> ('k, 'z) group_state_scheme \<Rightarrow> ('k, 'z) group_state_scheme" where
  "addMsg buf s = s\<lparr>msgQueue := chan_push_back buf (msgQueue s)\<rparr>"

text \<open>\<open>buf\<close> is the buffer that the message is copied to; it stays as it is without a message.\<close>

definition group_readMsg ::
    "xBuffer \<Rightarrow> ('k, 'z) group_state_scheme \<Rightarrow> (bool \<times> xBuffer, ('k, 'z) group_state_scheme) outcome" where
  "group_readMsg buf s =
     bindS (liftS (chan_pop_front 0 id (msgQueue s)) s) (\<lambda>(r, c) s.
       let s = s\<lparr>msgQueue := c\<rparr> in
       case r of None \<Rightarrow> Done (False, buf) s | Some b \<Rightarrow> Done (True, b) s)"

definition getMsgCount :: "('k, 'z) group_state_scheme \<Rightarrow> size_t" where
  "getMsgCount s = chan_size (msgQueue s)"

fun count_running :: "xHandler list \<Rightarrow> size_t" where
  "count_running [] = 0"
| "count_running (h # hs) = (if isRunning h then 1 + count_running hs else count_running hs)"

definition getActiveHandleCount :: "('k, 'z) group_state_scheme \<Rightarrow> size_t" where
  "getActiveHandleCount s = count_running (handleWorkers s)"

definition stopAllWorkers :: "('k, 'z) group_state_scheme \<Rightarrow> ('k, 'z) group_state_scheme" where
  "stopAllWorkers s = s\<lparr>handleWorkers := map handler_stop (handleWorkers s)\<rparr>"

text \<open>The destructor stops the workers; each is joined when its own destructor runs.\<close>

definition group_destroy :: "('k, 'z) group_state_scheme \<Rightarrow> ('k, 'z) group_state_scheme" where
  "group_destroy s = s\<lparr>handleWorkers := map handler_stop (handleWorkers s)\<rparr>"

text \<open>The first running handler is told of the connection.\<close>

fun first_running :: "nat \<Rightarrow> xHandler list \<Rightarrow> nat option" where
  "first_running n [] = None"
| "first_running n (h # hs) = (if isRunning h then Some n else first_running (Suc n) hs)"

definition handleConnected ::
    "(nat \<Rightarrow> nat \<Rightarrow> ('k, 'z) group_state_scheme \<Rightarrow> (unit, ('k, 'z) group_state_scheme) outcome) \<Rightarrow>
     nat \<Rightarrow> ('k, 'z) group_state_scheme \<Rightarrow> (unit, ('k, 'z) group_state_scheme) outcome" where
  "handleConnected connected i s =
     (case first_running 0 (handleWorkers s) of None \<Rightarrow> Done () s | Some h \<Rightarrow> connected h i s)"

definition group_sendResponse ::
    "(int \<Rightarrow> xBuffer \<Rightarrow> ('k, 'z) group_state_scheme \<Rightarrow> (int, ('k, 'z) group_state_scheme) outcome) \<Rightarrow>
     int \<Rightarrow> xBuffer \<Rightarrow> ('k, 'z) group_state_scheme \<Rightarrow> (int, ('k, 'z) group_state_scheme) outcome" where
  "group_sendResponse srv uid buf s = (if serverAlive s then srv uid buf s else Done 0 s)"

section \<open>A handler thread\<close>

definition set_worker :: "nat \<Rightarrow> (xHandler \<Rightarrow> xHandler) \<Rightarrow> ('k, 'z) group_state_scheme \<Rightarrow> ('k, 'z) group_state_scheme" where
  "set_worker n f s = s\<lparr>handleWorkers := (handleWorkers s)[n := f (handleWorkers s ! n)]\<rparr>"

text \<open>
  \<open>handler_sendResponse\<close> and the loop of \<open>run\<close> stop the handler when the group is gone, and
  then use the null pointer all the same.
\<close>

definition handler_sendResponse ::
    "(int \<Rightarrow> xBuffer \<Rightarrow> ('k, 'z) group_state_scheme \<Rightarrow> (int, ('k, 'z) group_state_scheme) outcome) \<Rightarrow>
     nat \<Rightarrow> int \<Rightarrow> xBuffer \<Rightarrow> ('k, 'z) group_state_scheme \<Rightarrow> (int, ('k, 'z) group_state_scheme) outcome" where
  "handler_sendResponse srv n uid buf s =
     (if \<not> hasGroup (handleWorkers s ! n) then Crash Undefined else group_sendResponse srv uid buf s)"

definition handler_turn ::
    "(nat \<Rightarrow> int \<Rightarrow> xBuffer \<Rightarrow> ('k, 'z) group_state_scheme \<Rightarrow> (unit, ('k, 'z) group_state_scheme) outcome) \<Rightarrow>
     nat \<Rightarrow> ('k, 'z) group_state_scheme \<Rightarrow> (unit, ('k, 'z) group_state_scheme) outcome" where
  "handler_turn dispatch n s =
     (if \<not> hasGroup (handleWorkers s ! n) then Crash Undefined
      else
        bindS (liftS (xBuffer_new kInitialSize) s) (\<lambda>buffer s.
        bindS (group_readMsg buffer s) (\<lambda>(hasMsg, buffer) s.
          if hasMsg
          then catchS (bindS (liftS (readInt32 buffer) s) (\<lambda>(uid, buffer) s. dispatch n (sint uid) buffer s))
                 (\<lambda>e s. Done () s)
          else Done () s)))"

fun handler_run ::
    "(nat \<Rightarrow> int \<Rightarrow> xBuffer \<Rightarrow> ('k, 'z) group_state_scheme \<Rightarrow> (unit, ('k, 'z) group_state_scheme) outcome) \<Rightarrow>
     nat \<Rightarrow> nat \<Rightarrow> ('k, 'z) group_state_scheme \<Rightarrow> (unit, ('k, 'z) group_state_scheme) outcome" where
  "handler_run dispatch n 0 s = (if isTerminate (handleWorkers s ! n) then Done () s else Diverge)"
| "handler_run dispatch n (Suc fuel) s =
     (if isTerminate (handleWorkers s ! n) then Done () s
      else bindS (handler_turn dispatch n s) (\<lambda>_ s. handler_run dispatch n fuel s))"

text \<open>After a stop every worker ends at its next test, so that joining it returns.\<close>

lemma stopped_workers_end:
  assumes "n < length (handleWorkers s)"
  shows "handler_run dispatch n fuel (stopAllWorkers s) = Done () (stopAllWorkers s)"
    and "handler_run dispatch n fuel (group_destroy s) = Done () (group_destroy s)"
    and "getActiveHandleCount (stopAllWorkers s) = 0"
proof -
  show "handler_run dispatch n fuel (stopAllWorkers s) = Done () (stopAllWorkers s)"
    using assms by (cases fuel) (simp_all add: stopAllWorkers_def handler_stop_def)
  show "handler_run dispatch n fuel (group_destroy s) = Done () (group_destroy s)"
    using assms by (cases fuel) (simp_all add: group_destroy_def handler_stop_def)
  have "count_running (map handler_stop hs) = 0" for hs
    by (induction hs) (simp_all add: isRunning_def handler_stop_def)
  then show "getActiveHandleCount (stopAllWorkers s) = 0" by (simp add: getActiveHandleCount_def stopAllWorkers_def)
qed

end
