(* ===== verification/Server.thy ===== *)
theory Server
  imports HandlerGroup
begin

text \<open>
  \<^verbatim>\<open>net/include/xserver.h\<close> and \<^verbatim>\<open>net/xserver.cpp\<close>: the server ties the listener,
  the connections and the handler group together. At the end the closures of the server are
  given their meaning, so that its operations call each other as the code has them.
\<close>

section \<open>State\<close>

text \<open>
  \<open>nextConn\<close> is the number of the next connection object. The server keeps the callbacks of the
  user (those that only a user can supply by the number of the function); \<open>connections\<close> maps descriptors to connection objects.
\<close>

record 'k srv_state = "'k group_state" +
  connections :: "int \<Rightarrow> nat option"
  nextConn :: nat
  srv_addr :: xIpAddr
  newConnCb :: "closure option"
  srv_msgDecodeCb :: "nat option"
  srv_sentBytesCb :: "nat option"
  srv_connCloseCb :: "closure option"
  srv_connFinishedCb :: "closure option"

text \<open>
  What the functions of the user do; \<open>u_holds i\<close> says whether the user's code keeps a
  \<^verbatim>\<open>shared_ptr\<close> to connection \<open>i\<close> of its own.
\<close>

record 'w user_fns =
  u_decode :: "nat \<Rightarrow> byte list \<Rightarrow> int \<Rightarrow> 'w \<Rightarrow> (int, 'w) outcome"
  u_sent :: "nat \<Rightarrow> nat \<Rightarrow> nat \<Rightarrow> 'w \<Rightarrow> (unit, 'w) outcome"
  u_commit :: "nat \<Rightarrow> nat \<Rightarrow> xBuffer \<Rightarrow> 'w \<Rightarrow> (xBuffer, 'w) outcome"
  u_conn :: "nat \<Rightarrow> nat \<Rightarrow> 'w \<Rightarrow> (unit, 'w) outcome"
  u_run :: "nat \<Rightarrow> 'w \<Rightarrow> (unit, 'w) outcome"
  u_connected :: "nat \<Rightarrow> nat \<Rightarrow> 'w \<Rightarrow> (unit, 'w) outcome"
  u_holds :: "nat \<Rightarrow> 'w \<Rightarrow> bool"

definition xServer_new ::
    "xIpAddr \<Rightarrow> nat option \<Rightarrow> closure option \<Rightarrow> closure option \<Rightarrow> nat option \<Rightarrow>
     ('k, 'z) srv_state_scheme \<Rightarrow> ('k, 'z) srv_state_scheme" where
  "xServer_new addr mdcb nccb cccb sbcb s =
     s\<lparr>connections := Map.empty, srv_addr := addr, newConnCb := nccb, srv_msgDecodeCb := mdcb,
       srv_sentBytesCb := sbcb, srv_connCloseCb := cccb, srv_connFinishedCb := None\<rparr>"

definition srv_setMsgDecodeCallBack :: "nat option \<Rightarrow> ('k, 'z) srv_state_scheme \<Rightarrow> ('k, 'z) srv_state_scheme" where
  "srv_setMsgDecodeCallBack cb s = s\<lparr>srv_msgDecodeCb := cb\<rparr>"

definition srv_setNewConnectionCallBack :: "closure option \<Rightarrow> ('k, 'z) srv_state_scheme \<Rightarrow> ('k, 'z) srv_state_scheme" where
  "srv_setNewConnectionCallBack cb s = s\<lparr>newConnCb := cb\<rparr>"

definition srv_setConnectionClosedCallBack :: "closure option \<Rightarrow> ('k, 'z) srv_state_scheme \<Rightarrow> ('k, 'z) srv_state_scheme" where
  "srv_setConnectionClosedCallBack cb s = s\<lparr>srv_connCloseCb := cb\<rparr>"

definition srv_setSentBytesCallBack :: "nat option \<Rightarrow> ('k, 'z) srv_state_scheme \<Rightarrow> ('k, 'z) srv_state_scheme" where
  "srv_setSentBytesCallBack cb s = s\<lparr>srv_sentBytesCb := cb\<rparr>"

definition srv_setConnectionFinishedCallBack :: "closure option \<Rightarrow> ('k, 'z) srv_state_scheme \<Rightarrow> ('k, 'z) srv_state_scheme" where
  "srv_setConnectionFinishedCallBack cb s = s\<lparr>srv_connFinishedCb := cb\<rparr>"

definition server_init :: "('k, 'z) srv_state_scheme \<Rightarrow> ('k, 'z) srv_state_scheme" where
  "server_init s =
     (let s = s\<lparr>msgQueue := xChan_new, handleWorkers := [], serverAlive := True\<rparr>
      in xListener_new (Some ServerAcceptNew) s)"

definition server_registerHandler :: "nat \<Rightarrow> ('k, 'z) srv_state_scheme \<Rightarrow> ('k, 'z) srv_state_scheme" where
  "server_registerHandler handlerNum s = (registerHandler handlerNum s)\<lparr>srv_connFinishedCb := Some GroupHandleConnected\<rparr>"

definition server_start ::
    "(closure \<Rightarrow> ('k, 'z) srv_state_scheme \<Rightarrow> (unit, ('k, 'z) srv_state_scheme) outcome) \<Rightarrow>
     ('k, 'z) srv_state_scheme \<Rightarrow> (unit, ('k, 'z) srv_state_scheme) outcome" where
  "server_start call s =
     (let s = server_init s in bindS (doListen call (srv_addr s) s) (\<lambda>_ s. Done () s))"

section \<open>Connections\<close>

text \<open>
  The constructor of the connection puts the socket into non-blocking mode; when that throws, the
  socket, already a member, is destroyed.
\<close>

definition connection_of_socket ::
    "int \<Rightarrow> closure option \<Rightarrow> closure option \<Rightarrow> closure option \<Rightarrow> closure option \<Rightarrow> closure option \<Rightarrow>
     ('k, 'z) listener_state_scheme \<Rightarrow> (xConnection, ('k, 'z) listener_state_scheme) outcome" where
  "connection_of_socket fd dcb mccb scb ccb cfcb s =
     bindS (liftS (xConnection_new fd dcb mccb scb ccb cfcb) s) (\<lambda>c s.
     bindS (catchS (with_env (setNonBlock True fd) s) (\<lambda>x s. Raise x (close_fd fd s))) (\<lambda>_ s. Done c s))"

definition acceptNewConnection ::
    "(closure \<Rightarrow> ('k, 'z) srv_state_scheme \<Rightarrow> (unit, ('k, 'z) srv_state_scheme) outcome) \<Rightarrow>
     int \<Rightarrow> xIpAddr \<Rightarrow> ('k, 'z) srv_state_scheme \<Rightarrow> (unit, ('k, 'z) srv_state_scheme) outcome" where
  "acceptNewConnection call connSock peerAddr s =
     bindS (connection_of_socket connSock (Some ServerDecode) (Some ServerMessage) (Some ServerSentBytes)
              (Some ServerClosed) (Some ServerFinished) s) (\<lambda>c s.
       let i = nextConn s;
           s = put_conn i c (s\<lparr>nextConn := Suc i\<rparr>);
           s = s\<lparr>connections := (connections s)(conn_fd c \<mapsto> i)\<rparr>
       in scheduleToLoopThread call (FCall (ConnMakeConnected i)) s)"

definition server_defaultMsgDecode ::
    "('k, 'z) srv_state_scheme user_fns \<Rightarrow> byte list \<Rightarrow> int \<Rightarrow> ('k, 'z) srv_state_scheme \<Rightarrow>
     (int, ('k, 'z) srv_state_scheme) outcome" where
  "server_defaultMsgDecode U bs buffLen s =
     (case srv_msgDecodeCb s of Some f \<Rightarrow> u_decode U f bs buffLen s | None \<Rightarrow> Done buffLen s)"

definition server_defaultSentBytes ::
    "('k, 'z) srv_state_scheme user_fns \<Rightarrow> nat \<Rightarrow> nat \<Rightarrow> ('k, 'z) srv_state_scheme \<Rightarrow>
     (unit, ('k, 'z) srv_state_scheme) outcome" where
  "server_defaultSentBytes U i bytes s =
     (case srv_sentBytesCb s of Some f \<Rightarrow> u_sent U f i bytes s | None \<Rightarrow> Done () s)"

text \<open>
  The message gets the descriptor of its connection in front and goes to the handlers, if any is
  running.
\<close>

definition messageComing ::
    "nat \<Rightarrow> xBuffer \<Rightarrow> ('k, 'z) srv_state_scheme \<Rightarrow> (xBuffer, ('k, 'z) srv_state_scheme) outcome" where
  "messageComing i buf s =
     (if getActiveHandleCount s \<noteq> 0
      then bindS (get_conn i s) (\<lambda>c s.
           bindS (liftS (prependInt32 (of_int (conn_fd c)) buf) s) (\<lambda>buf s. Done buf (addMsg buf s)))
      else Done buf s)"

definition connectionClosed ::
    "(closure \<Rightarrow> ('k, 'z) srv_state_scheme \<Rightarrow> (unit, ('k, 'z) srv_state_scheme) outcome) \<Rightarrow>
     nat \<Rightarrow> ('k, 'z) srv_state_scheme \<Rightarrow> (unit, ('k, 'z) srv_state_scheme) outcome" where
  "connectionClosed call i s = scheduleToLoopThread call (FCall (ServerDoClose i)) s"

text \<open>A callback of the user that gets a connection; the group's is the one exception.\<close>

definition call_user_conn ::
    "('k, 'z) srv_state_scheme user_fns \<Rightarrow> closure \<Rightarrow> nat \<Rightarrow> ('k, 'z) srv_state_scheme \<Rightarrow>
     (unit, ('k, 'z) srv_state_scheme) outcome" where
  "call_user_conn U f i s =
     (case f of
        UserFn u \<Rightarrow> u_conn U u i s
      | GroupHandleConnected \<Rightarrow> handleConnected (u_connected U) i s
      | _ \<Rightarrow> Crash Undefined)"

definition connectionFinished ::
    "('k, 'z) srv_state_scheme user_fns \<Rightarrow> nat \<Rightarrow> ('k, 'z) srv_state_scheme \<Rightarrow>
     (unit, ('k, 'z) srv_state_scheme) outcome" where
  "connectionFinished U i s =
     (case srv_connFinishedCb s of None \<Rightarrow> Done () s | Some f \<Rightarrow> call_user_conn U f i s)"

definition doCloseConnection ::
    "('k, 'z) srv_state_scheme user_fns \<Rightarrow> nat \<Rightarrow> ('k, 'z) srv_state_scheme \<Rightarrow>
     (unit, ('k, 'z) srv_state_scheme) outcome" where
  "doCloseConnection U i s =
     bindS (get_conn i s) (\<lambda>c s.
       let n = (if connections s (conn_fd c) = None then 0 else 1 :: nat);
           s = s\<lparr>connections := (connections s)(conn_fd c := None)\<rparr>
       in bindS (assertS (n = 1) s) (\<lambda>_ s.
          bindS (case srv_connCloseCb s of
                   None \<Rightarrow> Done () s
                 | Some f \<Rightarrow> catchS (call_user_conn U f i s) (\<lambda>e s. Done () s)) (\<lambda>_ s.
            setClosed i s)))"

definition server_sendResponse ::
    "(closure \<Rightarrow> ('k, 'z) srv_state_scheme \<Rightarrow> (unit, ('k, 'z) srv_state_scheme) outcome) \<Rightarrow>
     int \<Rightarrow> xBuffer \<Rightarrow> ('k, 'z) srv_state_scheme \<Rightarrow> (int \<times> xBuffer, ('k, 'z) srv_state_scheme) outcome" where
  "server_sendResponse call uid resp s =
     bindS (liftS (readAll resp) s) (\<lambda>(buf, resp) s.
     bindS (scheduleToLoopThread call (FCall (ServerDoSend uid buf)) s) (\<lambda>_ s. Done (0, resp) s))"

definition doSendResponse ::
    "'k epoll_ctl \<Rightarrow> ('k, 'z) srv_state_scheme cbs \<Rightarrow>
     (closure \<Rightarrow> ('k, 'z) srv_state_scheme \<Rightarrow> (unit, ('k, 'z) srv_state_scheme) outcome) \<Rightarrow>
     int \<Rightarrow> byte list \<Rightarrow> ('k, 'z) srv_state_scheme \<Rightarrow> (unit, ('k, 'z) srv_state_scheme) outcome" where
  "doSendResponse ctl cb call uid buf s =
     (case connections s uid of None \<Rightarrow> Done () s | Some i \<Rightarrow> sendMsg_string ctl cb call i buf s)"

text \<open>The destructor closes the connections in the order of their descriptors.\<close>

fun close_all ::
    "(closure \<Rightarrow> ('k, 'z) srv_state_scheme \<Rightarrow> (unit, ('k, 'z) srv_state_scheme) outcome) \<Rightarrow>
     int list \<Rightarrow> ('k, 'z) srv_state_scheme \<Rightarrow> (unit, ('k, 'z) srv_state_scheme) outcome" where
  "close_all call [] s = Done () s"
| "close_all call (fd # fds) s =
     (case connections s fd of
        None \<Rightarrow> close_all call fds s
      | Some i \<Rightarrow>
          bindS (scheduleToLoopThread call (FCall (ConnCloseConnection i)) s) (\<lambda>_ s. close_all call fds s))"

definition server_destroy ::
    "(closure \<Rightarrow> ('k, 'z) srv_state_scheme \<Rightarrow> (unit, ('k, 'z) srv_state_scheme) outcome) \<Rightarrow>
     ('k, 'z) srv_state_scheme \<Rightarrow> (unit, ('k, 'z) srv_state_scheme) outcome" where
  "server_destroy call s =
     (let s = (stopAllWorkers s)\<lparr>serverAlive := False\<rparr>
      in close_all call (sorted_list_of_set (dom (connections s))) s)"

section \<open>The closures of the server\<close>

text \<open>What the callbacks of its connections do.\<close>

definition server_cbs ::
    "('k, 'z) srv_state_scheme user_fns \<Rightarrow>
     (closure \<Rightarrow> ('k, 'z) srv_state_scheme \<Rightarrow> (unit, ('k, 'z) srv_state_scheme) outcome) \<Rightarrow>
     ('k, 'z) srv_state_scheme cbs" where
  "server_cbs U call =
     \<lparr>decode_fn = \<lambda>f bs n s. (case f of ServerDecode \<Rightarrow> server_defaultMsgDecode U bs n s
                            | UserFn u \<Rightarrow> u_decode U u bs n s | _ \<Rightarrow> Crash Undefined),
      sent_fn = \<lambda>f i n s. (case f of ServerSentBytes \<Rightarrow> server_defaultSentBytes U i n s
                           | UserFn u \<Rightarrow> u_sent U u i n s | _ \<Rightarrow> Crash Undefined),
      commit_fn = \<lambda>f i b s. (case f of ServerMessage \<Rightarrow> messageComing i b s
                             | UserFn u \<Rightarrow> u_commit U u i b s | _ \<Rightarrow> Crash Undefined),
      conn_fn = \<lambda>f i s. (case f of ServerClosed \<Rightarrow> connectionClosed call i s
                         | ServerFinished \<Rightarrow> connectionFinished U i s
                         | _ \<Rightarrow> call_user_conn U f i s)\<rparr>"

text \<open>
  \<open>server_cbs\<close> is for a connection whose caller keeps a pointer to it: a functor that has bound one.
  The register's callback is deleted when the connection is unregistered, and \<open>doSendResponse\<close> calls
  through the map; for these \<open>server_lent_cbs\<close> asks at each return of the user's code that somebody still
  keeps the connection. The server's own handler of messages drops no pointer.
\<close>

definition srv_holds :: "('k, 'z) srv_state_scheme user_fns \<Rightarrow> nat \<Rightarrow> ('k, 'z) srv_state_scheme \<Rightarrow> bool" where
  "srv_holds U i s \<longleftrightarrow> u_holds U i s \<or> loop_holds i s \<or>
     (case conns s i of None \<Rightarrow> False | Some c \<Rightarrow> connections s (conn_fd c) = Some i)"

definition server_lent_cbs ::
    "('k, 'z) srv_state_scheme user_fns \<Rightarrow>
     (closure \<Rightarrow> ('k, 'z) srv_state_scheme \<Rightarrow> (unit, ('k, 'z) srv_state_scheme) outcome) \<Rightarrow>
     ('k, 'z) srv_state_scheme cbs" where
  "server_lent_cbs U call = (let cb = server_cbs U call in cb
     \<lparr>sent_fn := \<lambda>f i n s. returning (srv_holds U i) s (sent_fn cb f i n s),
      commit_fn := \<lambda>f i b s. (case f of UserFn u \<Rightarrow> returning (srv_holds U i) s (commit_fn cb f i b s) | _ \<Rightarrow> commit_fn cb f i b s)\<rparr>)"

text \<open>
  Running a closure. A closure can run others at once, in the loop thread; the fuel bounds that
  nesting.
\<close>

fun server_call ::
    "'k epoll_ctl \<Rightarrow> ('k, 'z) srv_state_scheme user_fns \<Rightarrow> nat \<Rightarrow> closure \<Rightarrow> ('k, 'z) srv_state_scheme \<Rightarrow>
     (unit, ('k, 'z) srv_state_scheme) outcome" where
  "server_call ctl U 0 f s = Diverge"
| "server_call ctl U (Suc n) f s =
     (let call = server_call ctl U n; cb = server_cbs U call in
      case f of
        ConnMakeConnected i \<Rightarrow> makeConnected ctl cb i s
      | ConnCloseConn i \<Rightarrow> bindS (closeConn ctl cb i s) (\<lambda>_ s. Done () s)
      | ConnCloseConnection i \<Rightarrow> closeConnection ctl cb call i s
      | ConnSendMsgToBuffer i msg \<Rightarrow> sendMsgToBuffer ctl cb i msg s
      | ConnSetClosed i \<Rightarrow> setClosed i s
      | ServerDoClose i \<Rightarrow> doCloseConnection U i s
      | ServerDoSend uid buf \<Rightarrow> doSendResponse ctl (server_lent_cbs U call) call uid buf s
      | ListenerAddEvents \<Rightarrow> addEventsForAccept ctl s
      | UserFn u \<Rightarrow> u_run U u s
      | _ \<Rightarrow> Crash Undefined)"

definition server_new_conn ::
    "'k epoll_ctl \<Rightarrow> ('k, 'z) srv_state_scheme user_fns \<Rightarrow> nat \<Rightarrow> closure \<Rightarrow> int \<Rightarrow> xIpAddr \<Rightarrow>
     ('k, 'z) srv_state_scheme \<Rightarrow> (unit, ('k, 'z) srv_state_scheme) outcome" where
  "server_new_conn ctl U n f connfd peer s =
     (case f of ServerAcceptNew \<Rightarrow> acceptNewConnection (server_call ctl U n) connfd peer s | _ \<Rightarrow> Crash Undefined)"

text \<open>What the loop calls for a fired event.\<close>

definition server_on_event ::
    "'k epoll_ctl \<Rightarrow> ('k, 'z) srv_state_scheme user_fns \<Rightarrow> nat \<Rightarrow> xIpAddr \<Rightarrow> closure \<Rightarrow> xEvent \<Rightarrow>
     ('k, 'z) srv_state_scheme \<Rightarrow> (unit, ('k, 'z) srv_state_scheme) outcome" where
  "server_on_event ctl U n junk f xe s =
     (case f of
        LoopWakeUp \<Rightarrow> wakeUpCallBack xe s
      | ConnHandleEvent i \<Rightarrow> HandleEvent ctl (server_lent_cbs U (server_call ctl U n)) n i xe s
      | ListenerHandleEvent \<Rightarrow> listener_HandleEvent ctl (server_new_conn ctl U n) junk xe s
      | _ \<Rightarrow> Crash Undefined)"

end
