(* ===== verification/Server_Laws.thy ===== *)
theory Server_Laws
  imports Server Framing
begin

text \<open>
  What the operations of the server do: accepting, closing, and the way of a message from a
  connection to a handler.
\<close>

section \<open>Fields\<close>

lemma put_conn_srv [simp]:
  "connections (put_conn i c s) = connections s" "srv_connCloseCb (put_conn i c s) = srv_connCloseCb s"
  "srv_connFinishedCb (put_conn i c s) = srv_connFinishedCb s" "nextConn (put_conn i c s) = nextConn s"
  "srv_state.more (put_conn i c s) = srv_state.more s" "msgQueue (put_conn i c s) = msgQueue s"
  "handleWorkers (put_conn i c s) = handleWorkers s" "env (put_conn i c s) = env s"
  "current (put_conn i c s) = current s" "threadId (put_conn i c s) = threadId s" "fired (put_conn i c s) = fired s"
  by (simp_all add: put_conn_def)

lemma mirror_srv [simp]:
  "mirror view (s\<lparr>connections := x\<rparr>) = mirror view s" "mirror view (s\<lparr>env := e\<rparr>) = mirror view s"
  "mirror view (s\<lparr>nextConn := n\<rparr>) = mirror view s"
  by (simp_all add: mirror_def)

lemma isLoopThread_srv [simp]:
  "isLoopThread (s\<lparr>connections := x\<rparr>) = isLoopThread s" "isLoopThread (s\<lparr>env := e\<rparr>) = isLoopThread s"
  "isLoopThread (s\<lparr>nextConn := n\<rparr>) = isLoopThread s"
  by (simp_all add: isLoopThread_def)

section \<open>Messages\<close>

lemma count_running_0: "length hs < 2 ^ 64 \<Longrightarrow> count_running hs = 0 \<longleftrightarrow> (\<forall>h \<in> set hs. \<not> isRunning h)"
proof -
  assume l: "length hs < 2 ^ 64"
  have "count_running hs = of_nat (length (filter isRunning hs))"
    by (induction hs) simp_all
  moreover have "unat (of_nat (length (filter isRunning hs)) :: size_t) = length (filter isRunning hs)"
    using l length_filter_le [of isRunning hs] by (intro unat_size_of_nat) linarith
  ultimately show ?thesis
    by (metis (no_types, lifting) filter_empty_conv length_0_conv unat_eq_zero)
qed

definition some_running :: "('k, 'z) group_state_scheme \<Rightarrow> bool" where
  "some_running s \<longleftrightarrow> length (handleWorkers s) < 2 ^ 64 \<and> (\<exists>h \<in> set (handleWorkers s). isRunning h)"

lemma some_running_active: "some_running s \<Longrightarrow> getActiveHandleCount s \<noteq> 0"
  by (auto simp: some_running_def getActiveHandleCount_def count_running_0)

text \<open>A message waits in the queue as its connection's descriptor and its bytes.\<close>

definition tagged :: "int \<Rightarrow> byte list \<Rightarrow> xBuffer \<Rightarrow> bool" where
  "tagged fd m b \<longleftrightarrow> bwf b \<and> content b = net_bytes (of_int fd :: int32) @ m"

lemma messageComing_ok:
  assumes "some_running s" and "conns s i = Some c" and "bwf buf" and "4 \<le> unat (readerIndex buf)"
  obtains b where "messageComing i buf s = Done b (addMsg b s)" and "tagged (conn_fd c) (content buf) b"
proof -
  have "unat (4 :: size_t) \<le> length (net_bytes (of_int (conn_fd c) :: int32))" "unat (4 :: size_t) \<le> unat (readerIndex buf)"
    using assms(4) by simp_all
  from prepend_ok [OF assms(3) this] obtain b where b: "prepend (net_bytes (of_int (conn_fd c) :: int32)) 4 buf = Inr b" "bwf b"
    "content b = take (unat (4 :: size_t)) (net_bytes (of_int (conn_fd c) :: int32)) @ content buf"
    by metis
  show ?thesis
  proof (rule that)
    show "messageComing i buf s = Done b (addMsg b s)"
      using assms(2) some_running_active [OF assms(1)] b(1)
      by (simp add: messageComing_def prependInt32_def mem_bytes_hostToNetwork)
    show "tagged (conn_fd c) (content buf) b"
      using b(2,3) by (simp add: tagged_def)
  qed
qed

lemma handler_turn_ok:
  assumes "hasGroup (handleWorkers s ! n)" and "chan_ok (msgQueue s)" and "queue (msgQueue s) = b # bs"
    and "tagged fd m b" and fd: "- (2 ^ 31) \<le> fd" "fd < 2 ^ 31"
  obtains b' q where "handler_turn dispatch n s = catchS (dispatch n fd b' (s\<lparr>msgQueue := q\<rparr>)) (\<lambda>e s. Done () s)"
    and "bwf b'" and "content b' = m" and "chan_ok q" and "queue q = bs"
proof -
  obtain nb where nb: "xBuffer_new kInitialSize = Inr nb"
    using xBuffer_new_ok [of kInitialSize] by (auto simp: kInitialSize_def vec_max_def)
  obtain q where q: "chan_pop_front 0 id (msgQueue s) = Inr (Some b, q)" "chan_ok q" "queue q = bs"
    using chan_pop_ok [OF assms(2), of id] assms(3) by auto
  obtain b' where b': "readInt32 b = Inr (of_int fd, b')" "bwf b'" "content b' = m"
    using int32.get_law [of b "of_int fd" m] assms(4) by (auto simp: tagged_def)
  have "sint (of_int fd :: int32) = fd"
    using fd int_word_sint [of fd, where 'a = 32] by simp
  then have "handler_turn dispatch n s = catchS (dispatch n fd b' (s\<lparr>msgQueue := q\<rparr>)) (\<lambda>e s. Done () s)"
    using assms(1) nb q(1) b'(1) by (simp add: handler_turn_def group_readMsg_def)
  then show ?thesis
    using b'(2,3) q(2,3) by (rule that)
qed

lemma addMsg_fields [simp]:
  "conns (addMsg b s) = conns s" "handleWorkers (addMsg b s) = handleWorkers s"
  "msgQueue (addMsg b s) = chan_push_back b (msgQueue s)" "srv_state.more (addMsg b t) = srv_state.more t"
  "some_running (addMsg b s) = some_running s"
  by (simp_all add: addMsg_def some_running_def)

text \<open>Several messages in the order in which the loop thread delivers them; several turns of handler \<open>n\<close>.\<close>

fun submit_all :: "(nat \<times> xBuffer) list \<Rightarrow> ('k, 'z) srv_state_scheme \<Rightarrow> (unit, ('k, 'z) srv_state_scheme) outcome" where
  "submit_all [] s = Done () s"
| "submit_all ((i, b) # ms) s = bindS (messageComing i b s) (\<lambda>_ s. submit_all ms s)"

fun turns ::
    "(nat \<Rightarrow> int \<Rightarrow> xBuffer \<Rightarrow> ('k, 'z) srv_state_scheme \<Rightarrow> (unit, ('k, 'z) srv_state_scheme) outcome) \<Rightarrow>
     nat \<Rightarrow> nat \<Rightarrow> ('k, 'z) srv_state_scheme \<Rightarrow> (unit, ('k, 'z) srv_state_scheme) outcome" where
  "turns dispatch n 0 s = Done () s"
| "turns dispatch n (Suc k) s = bindS (handler_turn dispatch n s) (\<lambda>_ s. turns dispatch n k s)"

text \<open>The descriptor and the bytes of a message that is delivered.\<close>

definition msg_tag :: "('k, 'z) net_state_scheme \<Rightarrow> nat \<times> xBuffer \<Rightarrow> int \<times> byte list" where
  "msg_tag s m = (conn_fd (the (conns s (fst m))), content (snd m))"

definition deliverable :: "('k, 'z) net_state_scheme \<Rightarrow> nat \<times> xBuffer \<Rightarrow> bool" where
  "deliverable s m \<longleftrightarrow> bwf (snd m) \<and> 4 \<le> unat (readerIndex (snd m)) \<and>
     (\<exists>c. conns s (fst m) = Some c \<and> - (2 ^ 31) \<le> conn_fd c \<and> conn_fd c < 2 ^ 31)"

definition tagged_as :: "(int \<times> byte list) \<Rightarrow> xBuffer \<Rightarrow> bool" where
  "tagged_as t b \<longleftrightarrow> tagged (fst t) (snd t) b"

lemma submit_all_ok:
  "some_running s \<Longrightarrow> chan_ok (msgQueue s) \<Longrightarrow> \<forall>m \<in> set ms. deliverable s m \<Longrightarrow>
    length (queue (msgQueue s)) + length ms < 2 ^ 31 \<Longrightarrow>
    \<exists>bs q. submit_all ms s = Done () (s\<lparr>msgQueue := q\<rparr>) \<and> chan_ok q \<and> queue q = queue (msgQueue s) @ bs \<and>
      list_all2 tagged_as (map (msg_tag s) ms) bs"
proof (induction ms arbitrary: s)
  case Nil
  then show ?case by (intro exI [of _ "[]"] exI [of _ "msgQueue s"]) simp
next
  case (Cons m ms)
  obtain i buf where m: "m = (i, buf)" by (cases m)
  obtain c where c: "conns s i = Some c" "bwf buf" "4 \<le> unat (readerIndex buf)"
    using Cons.prems(3) m by (auto simp: deliverable_def)
  obtain b where b: "messageComing i buf s = Done b (addMsg b s)" "tagged (conn_fd c) (content buf) b"
    using messageComing_ok [OF Cons.prems(1) c] by metis
  have "Suc (length (queue (msgQueue s))) < 2 ^ 31"
    using Cons.prems(4) by simp
  note q1 = chan_push_ok(1,2) [OF Cons.prems(2) this, of b]
  have "\<forall>m \<in> set ms. deliverable (addMsg b s) m"
    using Cons.prems(3) by (simp add: deliverable_def)
  moreover have "length (queue (msgQueue (addMsg b s))) + length ms < 2 ^ 31"
    using Cons.prems(4) q1(2) by simp
  moreover have "some_running (addMsg b s)" "chan_ok (msgQueue (addMsg b s))"
    using Cons.prems(1) q1(1) by simp_all
  ultimately obtain bs q where ih: "submit_all ms (addMsg b s) = Done () (addMsg b s\<lparr>msgQueue := q\<rparr>)" "chan_ok q"
    "queue q = queue (msgQueue (addMsg b s)) @ bs" "list_all2 tagged_as (map (msg_tag (addMsg b s)) ms) bs"
    using Cons.IH [of "addMsg b s"] by blast
  have "addMsg b s\<lparr>msgQueue := q\<rparr> = s\<lparr>msgQueue := q\<rparr>"
    by (simp add: addMsg_def)
  moreover have "msg_tag (addMsg b s) = msg_tag s"
    by (simp add: fun_eq_iff msg_tag_def)
  moreover have "tagged_as (msg_tag s (i, buf)) b"
    using b(2) c(1) by (simp add: msg_tag_def tagged_as_def)
  ultimately show ?case
    using ih b q1(2) m by (intro exI [of _ "b # bs"] exI [of _ q]) simp
qed

text \<open>A handler whose \<open>dispatch\<close> runs \<open>lg\<close> behind the state of the server, and may then throw.\<close>

definition dispatch_logs ::
    "(nat \<Rightarrow> int \<Rightarrow> xBuffer \<Rightarrow> ('k, 'z) srv_state_scheme \<Rightarrow> (unit, ('k, 'z) srv_state_scheme) outcome) \<Rightarrow>
     (int \<times> byte list \<Rightarrow> 'z \<Rightarrow> 'z) \<Rightarrow> bool" where
  "dispatch_logs dispatch lg \<longleftrightarrow> (\<forall>n fd b s. bwf b \<longrightarrow>
     dispatch n fd b s = Done () (srv_state.more_update (lg (fd, content b)) s) \<or>
     (\<exists>e. dispatch n fd b s = Raise e (srv_state.more_update (lg (fd, content b)) s)))"

lemma srv_more_group [simp]:
  "handleWorkers (srv_state.more_update g t) = handleWorkers t" "msgQueue (srv_state.more_update g t) = msgQueue t"
  by simp_all

lemma turns_ok:
  assumes d: "dispatch_logs dispatch lg"
  shows "hasGroup (handleWorkers s ! n) \<Longrightarrow> chan_ok (msgQueue s) \<Longrightarrow>
    list_all2 tagged_as ts (queue (msgQueue s)) \<Longrightarrow> \<forall>t \<in> set ts. - (2 ^ 31) \<le> fst t \<and> fst t < 2 ^ 31 \<Longrightarrow>
    \<exists>s'. turns dispatch n (length ts) s = Done () s' \<and> queue (msgQueue s') = [] \<and> chan_ok (msgQueue s') \<and>
      srv_state.more s' = fold lg ts (srv_state.more s)"
proof (induction ts arbitrary: s)
  case Nil
  then show ?case by simp
next
  case (Cons t ts)
  obtain b bs where q: "queue (msgQueue s) = b # bs" "tagged (fst t) (snd t) b" "list_all2 tagged_as ts bs"
    using Cons.prems(3) by (auto simp: list_all2_Cons1 tagged_as_def [of t])
  have fd: "- (2 ^ 31) \<le> fst t" "fst t < 2 ^ 31"
    using Cons.prems(4) by simp_all
  obtain b' q' where h: "handler_turn dispatch n s = catchS (dispatch n (fst t) b' (s\<lparr>msgQueue := q'\<rparr>)) (\<lambda>e s. Done () s)"
    "bwf b'" "content b' = snd t" "chan_ok q'" "queue q' = bs"
    using handler_turn_ok [OF Cons.prems(1,2) q(1,2) fd] by metis
  let ?s1 = "srv_state.more_update (lg t) (s\<lparr>msgQueue := q'\<rparr>)"
  have turn: "handler_turn dispatch n s = Done () ?s1"
    using d [unfolded dispatch_logs_def, rule_format, OF h(2), of n "fst t" "s\<lparr>msgQueue := q'\<rparr>"] h(1,3) by auto
  have "hasGroup (handleWorkers ?s1 ! n)" "chan_ok (msgQueue ?s1)" "list_all2 tagged_as ts (queue (msgQueue ?s1))"
    using Cons.prems(1) h(4,5) q(3) by simp_all
  from Cons.IH [OF this] Cons.prems(4) show ?case
    using turn by simp
qed

section \<open>From the wire to the queue\<close>

text \<open>The decoder of the server: the user's, a function of the bytes, or all of the bytes.\<close>

definition server_decodes :: "('k, 'z) srv_state_scheme user_fns \<Rightarrow> nat option \<Rightarrow> (byte list \<Rightarrow> int) \<Rightarrow> bool" where
  "server_decodes U d dec \<longleftrightarrow>
     (case d of None \<Rightarrow> (\<forall>bs. dec bs = int (length bs))
      | Some f \<Rightarrow> (\<forall>bs s. u_decode U f bs (int (length bs)) s = Done (dec bs) s))"

text \<open>
  Connection \<open>i\<close> on descriptor \<open>fd\<close> delivers to the handlers. The queue has room for what is
  buffered, as each message takes at least one byte of it.
\<close>

definition delivering ::
    "('k, 'z) srv_state_scheme user_fns \<Rightarrow> nat \<Rightarrow> int \<Rightarrow> (byte list \<Rightarrow> int) \<Rightarrow> ('k, 'z) srv_state_scheme \<Rightarrow> bool" where
  "delivering U i fd dec s \<longleftrightarrow>
     some_running s \<and> chan_ok (msgQueue s) \<and> (\<forall>b \<in> set (queue (msgQueue s)). bwf b) \<and> server_decodes U (srv_msgDecodeCb s) dec \<and>
     (\<exists>c. conns s i = Some c \<and> conn_fd c = fd \<and> decodeCb c = Some ServerDecode \<and> msgCommitCb c = Some ServerMessage \<and>
        length (queue (msgQueue s)) + length (content (readBuff c)) < 2 ^ 31)"

text \<open>
  What the deliveries are seen by: the bytes of the queued messages, and the rest of the state,
  without what a read event changes besides: the connection objects and the data to be read.
\<close>

definition rest_of :: "('k, 'z) srv_state_scheme \<Rightarrow> ('k, 'z) srv_state_scheme" where
  "rest_of s = s\<lparr>msgQueue := xChan_new, conns := Map.empty, rx := \<lambda>_. []\<rparr>"

definition queued :: "('k, 'z) srv_state_scheme \<Rightarrow> byte list list \<times> ('k, 'z) srv_state_scheme" where
  "queued s = (map content (queue (msgQueue s)), rest_of s)"

lemma rest_of_put [simp]: "rest_of (put_conn i c s) = rest_of s" "rest_of (addMsg b s) = rest_of s" "rest_of (s\<lparr>rx := r\<rparr>) = rest_of s"
  by (simp_all add: rest_of_def put_conn_def addMsg_def)

lemma rest_of_fields:
  assumes "rest_of s = rest_of t"
  shows "handleWorkers s = handleWorkers t" "srv_state.more s = srv_state.more t" "connections s = connections t"
    "wire s = wire t" "tx s = tx t" "register s = register t" "kern s = kern t" "isLoopThread s = isLoopThread t"
    "threadId s = threadId t" "wakeupFd s = wakeupFd t" "extraEvents s = extraEvents t" "serverAlive s = serverAlive t"
    "srv_sentBytesCb s = srv_sentBytesCb t" "mirror view s = mirror view t"
  using assms by (cases s; cases t; simp add: rest_of_def isLoopThread_def mirror_def)+

definition enqueue :: "int \<Rightarrow> byte list \<Rightarrow> byte list list \<times> 'a \<Rightarrow> byte list list \<times> 'a" where
  "enqueue fd m q = (fst q @ [net_bytes (of_int fd :: int32) @ m], snd q)"

lemma fold_enqueue: "fold (enqueue fd) ms q = (fst q @ map (\<lambda>m. net_bytes (of_int fd :: int32) @ m) ms, snd q)"
  by (induction ms arbitrary: q) (simp_all add: enqueue_def)

lemma queued_tagged:
  assumes "map content bs = map (\<lambda>m. net_bytes (of_int fd :: int32) @ m) ms" and "\<forall>b \<in> set bs. bwf b"
  shows "list_all2 tagged_as (map (Pair fd) ms) bs"
  using assms by (induction bs arbitrary: ms) (auto simp: Cons_eq_map_conv tagged_as_def tagged_def)

lemma put_conn_group [simp]:
  "some_running (put_conn i c s) = some_running s" "srv_msgDecodeCb (put_conn i c s) = srv_msgDecodeCb s"
  by (simp_all add: some_running_def put_conn_def)

lemma server_lent_fns [simp]:
  "decode_fn (server_lent_cbs U call) = decode_fn (server_cbs U call)" "conn_fn (server_lent_cbs U call) = conn_fn (server_cbs U call)"
  "call_conn (server_lent_cbs U call) = call_conn (server_cbs U call)"
  "commit_fn (server_lent_cbs U call) ServerMessage = commit_fn (server_cbs U call) ServerMessage"
  "sent_fn (server_lent_cbs U call) f i n s = returning (srv_holds U i) s (sent_fn (server_cbs U call) f i n s)"
  by (simp_all add: server_lent_cbs_def Let_def call_conn_def fun_eq_iff split: option.split)

interpretation server: message_sink "server_lent_cbs U call" i dec "enqueue fd" "delivering U i fd dec" queued
  for U :: "('k, 'z) srv_state_scheme user_fns" and call i dec fd
proof unfold_locales
  fix s :: "('k, 'z) srv_state_scheme" and c f bs
  assume "delivering U i fd dec s" "conns s i = Some c" "decodeCb c = Some f"
  then show "decode_fn (server_lent_cbs U call) f bs (int (length bs)) s = Done (dec bs) s"
    by (cases "srv_msgDecodeCb s") (auto simp: delivering_def server_cbs_def server_defaultMsgDecode_def server_decodes_def)
next
  fix s :: "('k, 'z) srv_state_scheme" and c f b rb
  assume a: "delivering U i fd dec s" "conns s i = Some c" "msgCommitCb c = Some f" "bwf b" "4 \<le> unat (readerIndex b)"
    "content b \<noteq> []" "content (readBuff c) = content b @ content rb"
  let ?s = "put_conn i (c\<lparr>readBuff := rb\<rparr>) s"
  have d: "some_running ?s" "chan_ok (msgQueue ?s)" "f = ServerMessage" "conn_fd c = fd"
    "length (queue (msgQueue ?s)) + length (content (readBuff c)) < 2 ^ 31" "conns ?s i = Some (c\<lparr>readBuff := rb\<rparr>)"
    using a(1-3) by (auto simp: delivering_def)
  have room: "Suc (length (queue (msgQueue ?s))) + length (content rb) < 2 ^ 31"
    using d(5) a(6,7) by (cases "content b") simp_all
  obtain b' where b': "messageComing i b ?s = Done b' (addMsg b' ?s)" "tagged fd (content b) b'"
    using messageComing_ok [OF d(1,6) a(4,5)] d(4) by auto
  have "Suc (length (queue (msgQueue ?s))) < 2 ^ 31" using room by simp
  note q = chan_push_ok(1,2) [OF d(2) this, of b']
  have "delivering U i fd dec (addMsg b' ?s)"
    using a(1,2) d(4) q b'(2) room by (auto simp: delivering_def tagged_def addMsg_def some_running_def put_conn_def)
  moreover have "queued (addMsg b' ?s) = enqueue fd (content b) (queued s)"
    using q(2) b'(2) by (simp add: queued_def enqueue_def tagged_def)
  ultimately show "\<exists>b' s'. commit_fn (server_lent_cbs U call) f i b ?s = Done b' s' \<and> bwf b' \<and>
      conns s' = (conns s)(i \<mapsto> c\<lparr>readBuff := rb\<rparr>) \<and> delivering U i fd dec s' \<and> queued s' = enqueue fd (content b) (queued s)"
    using b' d(3) by (intro exI [of _ b'] exI [of _ "addMsg b' ?s"]) (simp add: server_cbs_def tagged_def)
next
  fix s :: "('k, 'z) srv_state_scheme" and c and rb :: xBuffer
  assume "delivering U i fd dec s" "conns s i = Some c" "content rb = []"
  then show "delivering U i fd dec (put_conn i (c\<lparr>readBuff := rb\<rparr>) s) \<and> queued (put_conn i (c\<lparr>readBuff := rb\<rparr>) s) = queued s"
    by (auto simp: delivering_def queued_def)
qed

text \<open>A read event queues the messages that have arrived, and changes nothing else.\<close>

lemma read_event_delivers:
  assumes "\<forall>bs. bs \<noteq> [] \<longrightarrow> dec bs = -1 \<or> dec bs = -2 \<or> 0 < dec bs" and "server_decodes U (srv_msgDecodeCb s) dec"
    and "conns s i = Some c" and "decodeCb c = Some ServerDecode" and "msgCommitCb c = Some ServerMessage"
    and "bwf (readBuff c)"
    and "rx s (conn_fd c) = map RData ch" and "ch \<noteq> []" and "\<forall>ds \<in> set ch. ds \<noteq> [] \<and> length ds \<le> 8192"
    and "unat (writerIndex (readBuff c)) + length (concat ch) \<le> vec_max"
    and "length (content (readBuff c)) + length (concat ch) < 2 ^ 31" and "length (content (readBuff c)) + length (concat ch) < n"
    and "some_running s" and "chan_ok (msgQueue s)" and "queue (msgQueue s) = []"
    and "split_frames dec (content (readBuff c) @ concat ch) = (msgs, rest)"
  obtains s1 rb where "server_on_event ctl U n junk (ConnHandleEvent i) \<lparr>efd = conn_fd c, emask = XE_READABLE, edata = d\<rparr> s = Done () s1"
    and "conns s1 = (conns s)(i \<mapsto> c\<lparr>readBuff := rb\<rparr>)" and "content rb = rest" and "chan_ok (msgQueue s1)"
    and "list_all2 tagged_as (map (Pair (conn_fd c)) msgs) (queue (msgQueue s1))" and "rest_of s1 = rest_of s"
proof -
  let ?cb = "server_lent_cbs U (server_call ctl U n)" and ?fd = "conn_fd c"
  have proto: "bs \<noteq> [] \<Longrightarrow> dec bs = -1 \<or> dec bs = -2 \<or> 0 < dec bs" for bs
    using assms(1) by blast
  have filled: "delivering U i ?fd dec (put_conn i (c\<lparr>readBuff := rb\<rparr>) (s\<lparr>rx := (rx s)(?fd := [])\<rparr>)) \<and>
      queued (put_conn i (c\<lparr>readBuff := rb\<rparr>) (s\<lparr>rx := (rx s)(?fd := [])\<rparr>)) = queued s"
    if "content rb = content (readBuff c) @ concat ch" for rb
    using assms(2-5,11,13-15) that by (simp add: delivering_def queued_def some_running_def)
  obtain s1 rb where s1: "readMsg ?cb n i s = Done (int (length (concat ch))) s1"
    "conns s1 = (conns s)(i \<mapsto> c\<lparr>readBuff := rb\<rparr>)" "delivering U i ?fd dec s1" "content rb = rest"
    "queued s1 = fold (enqueue ?fd) msgs (queued s)"
    by (rule server.readMsg_commits [where U = U and fd = ?fd and call = "server_call ctl U n",
          OF proto assms(3-12) filled]) (use assms(16) in simp_all)
  have event: "server_on_event ctl U n junk (ConnHandleEvent i) \<lparr>efd = ?fd, emask = XE_READABLE, edata = d\<rparr> s = Done () s1"
    using s1(1) by (simp add: server_on_event_def HandleEvent_def has_def mask_defs)
  have q: "map content (queue (msgQueue s1)) = map (\<lambda>m. net_bytes (of_int ?fd :: int32) @ m) msgs"
    and rest: "rest_of s1 = rest_of s"
    using s1(5) assms(15) by (simp_all add: queued_def fold_enqueue)
  have "list_all2 tagged_as (map (Pair ?fd) msgs) (queue (msgQueue s1))" "chan_ok (msgQueue s1)"
    using queued_tagged [OF q] s1(3) by (simp_all add: delivering_def)
  then show ?thesis
    using event s1(2,4) rest by (intro that [of s1 rb])
qed

section \<open>Closing\<close>

text \<open>User callbacks for connections that run \<open>h\<close> behind the state of the server, and may then throw.\<close>

definition u_conn_logs :: "('k, 'z) srv_state_scheme user_fns \<Rightarrow> (nat \<Rightarrow> nat \<Rightarrow> 'z \<Rightarrow> 'z) \<Rightarrow> bool" where
  "u_conn_logs U h \<longleftrightarrow> (\<forall>u i s. u_conn U u i s = Done () (srv_state.more_update (h u i) s) \<or>
     (\<exists>e. u_conn U u i s = Raise e (srv_state.more_update (h u i) s)))"

lemma srv_more_fields [simp]:
  "conns (srv_state.more_update g t) = conns t" "connections (srv_state.more_update g t) = connections t"
  "register (srv_state.more_update g t) = register t" "kern (srv_state.more_update g t) = kern t"
  "mirror view (srv_state.more_update g t) = mirror view t" "isLoopThread (srv_state.more_update g t) = isLoopThread t"
  by (simp_all add: mirror_def isLoopThread_def)

lemma doCloseConnection_ok:
  assumes "conns s i = Some c" and "connections s (conn_fd c) = Some j"
    and "srv_connCloseCb s = Some (UserFn u)" and "u_conn_logs U h"
  shows "doCloseConnection U i s = Done () (put_conn i (c\<lparr>connStatus := XF_CONN_STATUS_DISCONNECTED\<rparr>)
    (srv_state.more_update (h u i) (s\<lparr>connections := (connections s)(conn_fd c := None)\<rparr>)))"
proof -
  let ?s1 = "s\<lparr>connections := (connections s)(conn_fd c := None)\<rparr>"
  have "u_conn U u i ?s1 = Done () (srv_state.more_update (h u i) ?s1) \<or>
      (\<exists>e. u_conn U u i ?s1 = Raise e (srv_state.more_update (h u i) ?s1))"
    using assms(4) unfolding u_conn_logs_def by blast
  then have k: "catchS (call_user_conn U (UserFn u) i ?s1) (\<lambda>e s. Done () s) = Done () (srv_state.more_update (h u i) ?s1)"
    by (auto simp: call_user_conn_def)
  have c1: "conns (srv_state.more_update (h u i) ?s1) i = Some c"
    using assms(1) by simp
  show ?thesis
    using assms(1-3) k c1 by (simp add: doCloseConnection_def Let_def setClosed_def)
qed

section \<open>Accepting\<close>

text \<open>The replies of the kernel to one \<open>accept\<close> and to \<open>fcntl\<close> for the new socket, all successful.\<close>

definition accept_replies :: "int \<Rightarrow> byte list \<Rightarrow> (int \<times> errno \<times> byte list) list \<Rightarrow> bool" where
  "accept_replies fd sa rs \<longleftrightarrow> 0 \<le> fd \<and> length sa = 28 \<and>
     (\<exists>e1 fl e2 o2 r e3 o3. rs = [(fd, e1, sa), (fl, e2, o2), (r, e3, o3)] \<and> fl \<noteq> -1 \<and> r \<noteq> -1)"

lemma accept_taken:
  assumes "accept_loop ls e = (fd, e1)" and "fd \<noteq> -1" and "length (sys_out e1) = 28" and "valid ls"
  obtains peer where "xSocket_accept ls junk e = Done (fd, peer) e1"
proof -
  have mem: "mem_read (sys_out e1) 0 (of_nat sizeof_in) = Inr (take sizeof_in (sys_out e1))"
    "mem_read (sys_out e1) 0 (of_nat sizeof_in6) = Inr (sys_out e1)"
    using assms(3) by (simp_all add: mem_read_def sizeof_in_def sizeof_in6_def)
  obtain peer where "tcpAccept ls junk e = Done (fd, peer) e1"
    using assms(1,2) by (cases "family (sys_out e1) = AF_INET") (simp_all add: tcpAccept_def mem)
  then show ?thesis using assms(2,4) that by (simp add: xSocket_accept_def sock_consts)
qed

lemma accept_ok:
  assumes "accept_replies fd sa rs" and "replies e = rs @ rest" and "valid ls"
  obtains peer e' where "xSocket_accept ls junk e = Done (fd, peer) e'" and "replies e' = drop 1 rs @ rest"
    and "trace e' = trace e @ [(SysAccept ls, fd)]"
proof -
  obtain e1 fl e2 o2 r e3 o3 where rs: "rs = [(fd, e1, sa), (fl, e2, o2), (r, e3, o3)]" "0 \<le> fd" "length sa = 28"
    using assms(1) unfolding accept_replies_def by blast
  let ?e = "snd (sys (SysAccept ls) e)"
  have a: "accept_loop ls e = (fd, ?e)"
    using assms(2) rs by (subst accept_loop.simps) (simp add: sys_def)
  have out: "sys_out ?e = sa"
    using assms(2) rs by (simp add: sys_def)
  obtain peer where "xSocket_accept ls junk e = Done (fd, peer) ?e"
    using accept_taken [OF a] out rs(2,3) assms(3) by auto
  then show ?thesis
    using assms(2) rs(1) by (intro that [of peer ?e]) (simp_all add: sys_def)
qed

lemma setNonBlock_ok:
  assumes "accept_replies fd sa rs" and "replies e = drop 1 rs @ rest"
  obtains e' where "setNonBlock True fd e = Done () e'" and "replies e' = rest"
    and "closed_fds (trace e') = closed_fds (trace e)"
proof -
  obtain e1 fl e2 o2 r e3 o3 where rs: "rs = [(fd, e1, sa), (fl, e2, o2), (r, e3, o3)]" "0 \<le> fd" "fl \<noteq> -1" "r \<noteq> -1"
    using assms(1) unfolding accept_replies_def by blast
  show ?thesis
    using assms(2) rs
    by (intro that [of "snd (sys (SysSetFl fd (of_int fl OR O_NONBLOCK)) (snd (sys (SysGetFl fd) e)))"])
      (simp_all add: setNonBlock_def checked_def valid_def nonBlock_def setBlock_def sys_def sock_consts)
qed

text \<open>
  Up to the callback of the user: the connection is in the map, connected and registered for
  reading. \<open>s'\<close> is the state in which the callback for finished connections is called.
\<close>

lemma isLoopThread_env_conn [simp]: "nextConn (close_fd fd s) = nextConn s" "conns (close_fd fd s) = conns s"
  "connections (close_fd fd s) = connections s" "register (close_fd fd s) = register s"
  "kern (close_fd fd s) = kern s" "env (close_fd fd s) = sys_close fd (env s)"
  "srv_state.more (close_fd fd t) = srv_state.more t"
  by (simp_all add: close_fd_def)

lemma env_fields [simp]:
  "conns (s\<lparr>env := e\<rparr>) = conns s" "register (s\<lparr>env := e\<rparr>) = register s" "kern (s\<lparr>env := e\<rparr>) = kern s"
  by simp_all

text \<open>An accepted socket that becomes non-blocking.\<close>

lemma handleAccept_taken:
  assumes ctl: "epoll_ctl_spec ctl view usable" and m: "mirror view s" and loop: "isLoopThread s"
    and a: "xSocket_accept (listenSock s) (xIpAddr_port junk 0 False False) (env s) = Done (fd, peer) e1"
    and nb: "setNonBlock True fd e1 = Done () e2"
    and new: "newConnectionCb s = Some ServerAcceptNew" and fd: "usable fd" "0 \<le> fd"
  obtains s4 c k where "handleAccept (server_new_conn ctl U (Suc n)) junk s =
      catchS (connectionFinished U (nextConn s) s4) (\<lambda>e s. Done () (close_fd fd s))"
    and "s4 = put_conn (nextConn s) c s\<lparr>env := e2, nextConn := Suc (nextConn s),
        connections := (connections s)(fd \<mapsto> nextConn s), register := (register s)(fd \<mapsto>
          \<lparr>es_mask = XE_READABLE, es_data = 0, es_callback = ConnHandleEvent (nextConn s)\<rparr>), kern := k\<rparr>" and "mirror view s4"
    and "isConnected c" and "conn_fd c = fd" and "content (readBuff c) = []" and "content (writeBuff c) = []"
    and "decodeCb c = Some ServerDecode" and "msgCommitCb c = Some ServerMessage" and "sentBytesCb c = Some ServerSentBytes"
    and "connCloseCb c = Some ServerClosed" and "bwf (readBuff c)" and "bwf (writeBuff c)"
    and "length (buffer (readBuff c)) \<le> 2 ^ 33" and "length (buffer (writeBuff c)) \<le> 2 ^ 33"
proof -
  let ?i = "nextConn s" and ?cb = "server_cbs U (server_call ctl U n)"
  obtain c where c: "xConnection_new fd (Some ServerDecode) (Some ServerMessage) (Some ServerSentBytes) (Some ServerClosed)
      (Some ServerFinished) = Inr c" "conn_fd c = fd" "connFinishCb c = Some ServerFinished" "content (readBuff c) = []"
    "content (writeBuff c) = []" "decodeCb c = Some ServerDecode" "msgCommitCb c = Some ServerMessage"
    "sentBytesCb c = Some ServerSentBytes" "connCloseCb c = Some ServerClosed" "bwf (readBuff c)" "bwf (writeBuff c)"
    "length (buffer (readBuff c)) \<le> 2 ^ 33" "length (buffer (writeBuff c)) \<le> 2 ^ 33"
    using xConnection_new_ok by metis
  let ?s3 = "put_conn ?i c (s\<lparr>env := e2, nextConn := Suc ?i\<rparr>)\<lparr>connections := (connections s)(fd \<mapsto> ?i)\<rparr>"
  have "mirror view ?s3" "isLoopThread ?s3" "conns ?s3 ?i = Some c" "usable (conn_fd c)"
    using m loop fd(1) c(2) by simp_all
  from makeConnected_ok [OF ctl this, of ?cb] obtain k where k:
    "makeConnected ctl ?cb ?i ?s3 = call_conn ?cb (connFinishCb c) ?i
      (put_conn ?i (c\<lparr>connStatus := XF_CONN_STATUS_CONNECTED\<rparr>) ?s3\<lparr>register := (register ?s3)(conn_fd c \<mapsto>
         \<lparr>es_mask = XE_READABLE, es_data = 0, es_callback = ConnHandleEvent ?i\<rparr>), kern := k\<rparr>)"
    "mirror view (?s3\<lparr>register := (register ?s3)(conn_fd c \<mapsto>
         \<lparr>es_mask = XE_READABLE, es_data = 0, es_callback = ConnHandleEvent ?i\<rparr>), kern := k\<rparr>)"
    by metis
  let ?s4 = "put_conn ?i (c\<lparr>connStatus := XF_CONN_STATUS_CONNECTED\<rparr>) ?s3\<lparr>register := (register ?s3)(conn_fd c \<mapsto>
         \<lparr>es_mask = XE_READABLE, es_data = 0, es_callback = ConnHandleEvent ?i\<rparr>), kern := k\<rparr>"
  have "acceptNewConnection (server_call ctl U (Suc n)) fd peer (s\<lparr>env := e1\<rparr>) = makeConnected ctl ?cb ?i ?s3"
    using c(1,2) with_env_Done [of "setNonBlock True fd" "s\<lparr>env := e1\<rparr>", simplified, OF nb] loop
    by (simp add: acceptNewConnection_def connection_of_socket_def scheduleToLoopThread_def run_functor_def Let_def)
  also have "\<dots> = connectionFinished U ?i ?s4"
    using k(1) c(3) by (simp add: call_conn_def server_cbs_def)
  finally have "handleAccept (server_new_conn ctl U (Suc n)) junk s =
      catchS (connectionFinished U ?i ?s4) (\<lambda>e s. Done () (close_fd fd s))"
    using with_env_Done [of "xSocket_accept (listenSock s) (xIpAddr_port junk 0 False False)" s, OF a] fd(2) new
    by (simp add: handleAccept_def server_new_conn_def)
  then show ?thesis
    by (rule_tac that [where ?s4.0 = ?s4 and c = "c\<lparr>connStatus := XF_CONN_STATUS_CONNECTED\<rparr>" and k = k])
      (use c k(2) in \<open>simp_all add: isConnected_def mirror_def put_conn_def\<close>)
qed

text \<open>
  An accepted socket that does not: the exception of the connection's constructor reaches the listener,
  after the socket has been closed, and the listener closes the descriptor again.
\<close>

lemma handleAccept_refused:
  assumes a: "xSocket_accept (listenSock s) (xIpAddr_port junk 0 False False) (env s) = Done (fd, peer) e1"
    and nb: "setNonBlock True fd e1 = Raise x e2" and new: "newConnectionCb s = Some ServerAcceptNew" and fd: "0 \<le> fd"
  shows "handleAccept (server_new_conn ctl U n) junk s = Done () (close_fd fd (close_fd fd (s\<lparr>env := e2\<rparr>)))"
proof -
  obtain c where c: "xConnection_new fd (Some ServerDecode) (Some ServerMessage) (Some ServerSentBytes) (Some ServerClosed)
      (Some ServerFinished) = Inr c"
    using xConnection_new_ok by metis
  show ?thesis
    using with_env_Done [of "xSocket_accept (listenSock s) (xIpAddr_port junk 0 False False)" s, OF a] fd new c
      with_env_Raise [of "setNonBlock True fd" "s\<lparr>env := e1\<rparr>", simplified, OF nb]
    by (simp add: handleAccept_def server_new_conn_def acceptNewConnection_def connection_of_socket_def)
qed

lemma handleAccept_state:
  assumes ctl: "epoll_ctl_spec ctl view usable" and m: "mirror view s" and loop: "isLoopThread s"
    and acc: "accept_replies fd sa rs" and rep: "replies (env s) = rs @ rest" and ls: "valid (listenSock s)"
    and new: "newConnectionCb s = Some ServerAcceptNew" and fd: "usable fd"
  obtains s4 c e k where "handleAccept (server_new_conn ctl U (Suc n)) junk s =
      catchS (connectionFinished U (nextConn s) s4) (\<lambda>e s. Done () (close_fd fd s))"
    and "conns s4 = (conns s)(nextConn s \<mapsto> c)" and "isConnected c" and "conn_fd c = fd"
    and "content (readBuff c) = []" and "content (writeBuff c) = []"
    and "connections s4 = (connections s)(fd \<mapsto> nextConn s)" and "nextConn s4 = Suc (nextConn s)"
    and "register s4 = (register s)(fd \<mapsto> \<lparr>es_mask = XE_READABLE, es_data = 0, es_callback = ConnHandleEvent (nextConn s)\<rparr>)"
    and "mirror view s4" and "replies (env s4) = rest" and "closed_fds (trace (env s4)) = closed_fds (trace (env s))"
    and "srv_state.more s4 = srv_state.more s" and "srv_connFinishedCb s4 = srv_connFinishedCb s"
    and "s4 = put_conn (nextConn s) c s\<lparr>env := e, nextConn := Suc (nextConn s), connections := (connections s)(fd \<mapsto> nextConn s),
      register := (register s)(fd \<mapsto> \<lparr>es_mask = XE_READABLE, es_data = 0, es_callback = ConnHandleEvent (nextConn s)\<rparr>), kern := k\<rparr>"
    and "decodeCb c = Some ServerDecode" and "msgCommitCb c = Some ServerMessage" and "sentBytesCb c = Some ServerSentBytes"
    and "connCloseCb c = Some ServerClosed" and "bwf (readBuff c)" and "bwf (writeBuff c)"
    and "length (buffer (readBuff c)) \<le> 2 ^ 33" and "length (buffer (writeBuff c)) \<le> 2 ^ 33"
proof -
  obtain peer e1 where a: "xSocket_accept (listenSock s) (xIpAddr_port junk 0 False False) (env s) = Done (fd, peer) e1"
    "replies e1 = drop 1 rs @ rest" "trace e1 = trace (env s) @ [(SysAccept (listenSock s), fd)]"
    using acc rep ls by (rule accept_ok)
  obtain e2 where nb: "setNonBlock True fd e1 = Done () e2" "replies e2 = rest" "closed_fds (trace e2) = closed_fds (trace e1)"
    using acc a(2) by (rule setNonBlock_ok)
  have fd0: "0 \<le> fd" using acc by (auto simp: accept_replies_def)
  show ?thesis
    by (rule handleAccept_taken [OF ctl m loop a(1) nb(1) new fd fd0, of U n], rule that) (use a nb in simp_all)
qed

lemma handleAccept_calls:
  assumes ctl: "epoll_ctl_spec ctl view usable" and m: "mirror view s" and loop: "isLoopThread s"
    and acc: "accept_replies fd sa rs" and rep: "replies (env s) = rs @ rest" and ls: "valid (listenSock s)"
    and new: "newConnectionCb s = Some ServerAcceptNew" and fd: "usable fd"
  obtains s4 c where "handleAccept (server_new_conn ctl U (Suc n)) junk s =
      catchS (connectionFinished U (nextConn s) s4) (\<lambda>e s. Done () (close_fd fd s))"
    and "conns s4 = (conns s)(nextConn s \<mapsto> c)" and "isConnected c" and "conn_fd c = fd"
    and "content (readBuff c) = []" and "content (writeBuff c) = []"
    and "connections s4 = (connections s)(fd \<mapsto> nextConn s)" and "nextConn s4 = Suc (nextConn s)"
    and "register s4 = (register s)(fd \<mapsto> \<lparr>es_mask = XE_READABLE, es_data = 0, es_callback = ConnHandleEvent (nextConn s)\<rparr>)"
    and "mirror view s4" and "replies (env s4) = rest" and "closed_fds (trace (env s4)) = closed_fds (trace (env s))"
    and "srv_state.more s4 = srv_state.more s" and "srv_connFinishedCb s4 = srv_connFinishedCb s"
  using assms by (rule handleAccept_state) (rule that)

end
