(* ===== verification/Server_Props.thy ===== *)
theory Server_Props
  imports Server_Laws
begin

text \<open>
  The properties of the server: how connections come and go, how messages reach a handler, and
  where responses go.
\<close>

section \<open>A server for the witnesses\<close>

text \<open>
  A listening socket on descriptor 5, connection 0 on descriptor 7, one handler; behind the state
  of the server a log of numbers.
\<close>

definition sbuf :: "byte list \<Rightarrow> xBuffer" where
  "sbuf bs = \<lparr>buffer = replicate 4 0 @ bs, readerIndex = 4, writerIndex = of_nat (4 + length bs)\<rparr>"

definition sconn :: xConnection where
  "sconn = \<lparr>connStatus = XF_CONN_STATUS_CONNECTED, writeEnabled = False, conn_fd = 7, readBuff = sbuf [],
     writeBuff = sbuf [], sentBytesCb = Some ServerSentBytes, decodeCb = Some ServerDecode,
     msgCommitCb = Some ServerMessage, connCloseCb = Some ServerClosed, connFinishCb = Some ServerFinished\<rparr>"

definition srv0 :: "(int \<Rightarrow> int32 option, (int \<times> byte list) list) srv_state_scheme" where
  "srv0 = \<lparr>theap = Map.empty, timers = [], nextSerial = 0, clock = [], last_now = 0,
     kern = [7 \<mapsto> 1], poller = \<lparr>ep_fd = 3, max_connections = 1023, ep_events = Some 1024\<rparr>, epoll_answers = [],
     stop = False, wakeupFd = 4, threadId = 0, current = 0,
     register = [7 \<mapsto> \<lparr>es_mask = XE_READABLE, es_data = 0, es_callback = ConnHandleEvent 0\<rparr>],
     fired = [], extraEvents = [], rx = \<lambda>_. [], tx = \<lambda>_. [WAccept 100], wire = \<lambda>_. [],
     conns = [0 \<mapsto> sconn],
     env = \<lparr>replies = [(8, EINVAL, replicate 28 0), (2, EINVAL, []), (0, EINVAL, [])], trace = [], errno_of = EINVAL, sys_out = []\<rparr>,
     isListen = True, listenSock = 5, newConnectionCb = Some ServerAcceptNew,
     msgQueue = xChan_new, handleWorkers = [\<lparr>isTerminate = False, hasGroup = True\<rparr>], serverAlive = True,
     connections = [7 \<mapsto> 0], nextConn = 1, srv_addr = [], newConnCb = None, srv_msgDecodeCb = None,
     srv_sentBytesCb = None, srv_connCloseCb = Some (UserFn 0), srv_connFinishedCb = Some (UserFn 1), \<dots> = []\<rparr>"

definition ufns0 :: "(int \<Rightarrow> int32 option, (int \<times> byte list) list) srv_state_scheme user_fns" where
  "ufns0 = \<lparr>u_decode = \<lambda>f bs n s. Done n s, u_sent = \<lambda>f i n s. Done () s, u_commit = \<lambda>f i b s. Done b s,
     u_conn = \<lambda>f i s. Done () (srv_state.more_update (\<lambda>l. l @ [(int f, [])]) s), u_run = \<lambda>f s. Done () s,
     u_connected = \<lambda>n i s. Done () s, u_holds = \<lambda>i s. False\<rparr>"

lemma bwf_sbuf: "length bs < 100 \<Longrightarrow> bwf (sbuf bs) \<and> content (sbuf bs) = bs \<and> unat (readerIndex (sbuf bs)) = 4"
proof -
  assume l: "length bs < 100"
  have "unat (of_nat (4 + length bs) :: size_t) = 4 + length bs"
    using l by (intro unat_size_of_nat) simp
  then show ?thesis
    using l by (simp add: sbuf_def bwf_def content_def seg_def vec_max_def)
qed

lemma srv0_fields [simp]:
  "conns srv0 0 = Some sconn" "connections srv0 7 = Some 0" "srv_connCloseCb srv0 = Some (UserFn 0)"
  "srv_connFinishedCb srv0 = Some (UserFn 1)" "nextConn srv0 = 1" "srv_state.more srv0 = []"
  "msgQueue srv0 = xChan_new" "handleWorkers srv0 = [\<lparr>isTerminate = False, hasGroup = True\<rparr>]"
  "conn_fd sconn = 7" "connCloseCb sconn = Some ServerClosed" "isConnected sconn" "listenSock srv0 = 5"
  "newConnectionCb srv0 = Some ServerAcceptNew" "wire srv0 fd = []" "extraEvents srv0 = []" "wakeupFd srv0 = 4"
  by (simp_all add: srv0_def sconn_def isConnected_def)

lemma srv0_ok: "mirror (\<lambda>m. m) srv0" "isLoopThread srv0" "some_running srv0"
  by (auto simp: mirror_def srv0_def isLoopThread_def some_running_def isRunning_def events_of_mask_def has_def mask_defs)

lemma ufns0_ok: "u_conn_logs ufns0 (\<lambda>f i l. l @ [(int f, [])])"
  by (simp add: u_conn_logs_def ufns0_def)

section \<open>Messages\<close>

text \<open>
  Messages that the loop thread delivers, from any of its connections, reach a running
  handler exactly once and in order: \<open>dispatch\<close> gets the descriptor of the connection and the
  bytes of the message, also when an earlier call has thrown, and then the queue is empty.
\<close>

lemma messages_reach_the_handler:
  assumes "some_running s" and "hasGroup (handleWorkers s ! n)" and "chan_ok (msgQueue s)"
    and "queue (msgQueue s) = []" and "length ms < 2 ^ 31" and "\<forall>m \<in> set ms. deliverable s m"
    and "dispatch_logs dispatch lg"
  shows "\<exists>s1 s2. submit_all ms s = Done () s1 \<and> length (queue (msgQueue s1)) = length ms \<and>
    turns dispatch n (length ms) s1 = Done () s2 \<and> queue (msgQueue s2) = [] \<and>
    srv_state.more s2 = fold lg (map (msg_tag s) ms) (srv_state.more s)"
proof -
  have "length (queue (msgQueue s)) + length ms < 2 ^ 31" using assms(4,5) by simp
  from submit_all_ok [OF assms(1,3,6) this] obtain bs q where q: "submit_all ms s = Done () (s\<lparr>msgQueue := q\<rparr>)"
    "chan_ok q" "queue q = bs" "list_all2 tagged_as (map (msg_tag s) ms) bs"
    using assms(4) by auto
  have "\<forall>t \<in> set (map (msg_tag s) ms). - (2 ^ 31) \<le> fst t \<and> fst t < 2 ^ 31"
    using assms(6) by (auto simp: msg_tag_def deliverable_def)
  then obtain s2 where "turns dispatch n (length (map (msg_tag s) ms)) (s\<lparr>msgQueue := q\<rparr>) = Done () s2"
    "queue (msgQueue s2) = []" "srv_state.more s2 = fold lg (map (msg_tag s) ms) (srv_state.more (s\<lparr>msgQueue := q\<rparr>))"
    using turns_ok [OF assms(7), of "s\<lparr>msgQueue := q\<rparr>" n "map (msg_tag s) ms"] assms(2) q(2-4) by auto
  then show ?thesis
    using q(1,3) list_all2_lengthD [OF q(4)] by (intro exI [of _ "s\<lparr>msgQueue := q\<rparr>"] exI [of _ s2]) simp
qed

lemma messages_reach_the_handler_witness:
  "\<exists>s1 s2. submit_all [(0, sbuf [1, 2]), (0, sbuf [3])] srv0 = Done () s1 \<and>
    turns (\<lambda>n fd b s. Done () (srv_state.more_update (\<lambda>l. l @ [(fd, content b)]) s)) 0 (Suc (Suc 0)) s1 = Done () s2 \<and>
    srv_state.more s2 = [(7, [1, 2]), (7, [3])]"
proof -
  have "\<forall>m \<in> set [(0, sbuf [1, 2]), (0, sbuf [3])]. deliverable srv0 m"
    by (simp add: deliverable_def bwf_sbuf)
  moreover have "dispatch_logs (\<lambda>n fd b s. Done () (srv_state.more_update (\<lambda>l. l @ [(fd, content b)]) s)) (\<lambda>t l. l @ [t])"
    by (simp add: dispatch_logs_def)
  ultimately show ?thesis
    using messages_reach_the_handler [OF srv0_ok(3), of 0 "[(0, sbuf [1, 2]), (0, sbuf [3])]"
        "\<lambda>n fd b s. Done () (srv_state.more_update (\<lambda>l. l @ [(fd, content b)]) s)" "\<lambda>t l. l @ [t]"]
    by (auto simp: xChan_new_def chan_ok_def atomic_new_def msg_tag_def bwf_sbuf
        simp del: submit_all.simps turns.simps)
qed

text \<open>
  C6. From the wire to the handler. A read event on a connection of the server, as the loop
  dispatches it, cuts the bytes that have arrived, in whatever chunks, and those that were left
  before, into messages by the decoder; each is queued once, in order, with the descriptor of the
  connection in front, and the rest stays in the read buffer. The turns of a handler thread then
  call \<open>dispatch\<close> once for each message, in order, with that descriptor and the bytes of the message
  and nothing else, also when an earlier call has thrown, and leave the queue empty.
\<close>

theorem requests_reach_the_handler:
  assumes "\<forall>bs. bs \<noteq> [] \<longrightarrow> dec bs = -1 \<or> dec bs = -2 \<or> 0 < dec bs" and "server_decodes U (srv_msgDecodeCb s) dec"
    and "conns s i = Some c" and "decodeCb c = Some ServerDecode" and "msgCommitCb c = Some ServerMessage"
    and "bwf (readBuff c)" and "- (2 ^ 31) \<le> conn_fd c" and "conn_fd c < 2 ^ 31"
    and "rx s (conn_fd c) = map RData ch" and "ch \<noteq> []" and "\<forall>ds \<in> set ch. ds \<noteq> [] \<and> length ds \<le> 8192"
    and "unat (writerIndex (readBuff c)) + length (concat ch) \<le> vec_max"
    and "length (content (readBuff c)) + length (concat ch) < 2 ^ 31" and "length (content (readBuff c)) + length (concat ch) < n"
    and "some_running s" and "hasGroup (handleWorkers s ! h)" and "chan_ok (msgQueue s)" and "queue (msgQueue s) = []"
    and "dispatch_logs dispatch lg" and "split_frames dec (content (readBuff c) @ concat ch) = (msgs, rest)"
  shows "\<exists>s1 s2 c1. server_on_event ctl U n junk (ConnHandleEvent i) \<lparr>efd = conn_fd c, emask = XE_READABLE, edata = d\<rparr> s = Done () s1 \<and>
    conns s1 i = Some c1 \<and> content (readBuff c1) = rest \<and> length (queue (msgQueue s1)) = length msgs \<and>
    turns dispatch h (length msgs) s1 = Done () s2 \<and> queue (msgQueue s2) = [] \<and>
    srv_state.more s2 = fold lg (map (Pair (conn_fd c)) msgs) (srv_state.more s)"
proof -
  let ?fd = "conn_fd c"
  obtain s1 rb where s1: "server_on_event ctl U n junk (ConnHandleEvent i) \<lparr>efd = ?fd, emask = XE_READABLE, edata = d\<rparr> s = Done () s1"
    "conns s1 = (conns s)(i \<mapsto> c\<lparr>readBuff := rb\<rparr>)" "content rb = rest" "chan_ok (msgQueue s1)"
    "list_all2 tagged_as (map (Pair ?fd) msgs) (queue (msgQueue s1))" "rest_of s1 = rest_of s"
    using assms(1-6,9-15,17,18,20) by (rule read_event_delivers)
  have "hasGroup (handleWorkers s1 ! h)" using assms(16) rest_of_fields(1) [OF s1(6)] by simp
  moreover have "\<forall>t \<in> set (map (Pair ?fd) msgs). - (2 ^ 31) \<le> fst t \<and> fst t < 2 ^ 31"
    using assms(7,8) by auto
  ultimately obtain s2 where "turns dispatch h (length (map (Pair ?fd) msgs)) s1 = Done () s2" "queue (msgQueue s2) = []"
    "srv_state.more s2 = fold lg (map (Pair ?fd) msgs) (srv_state.more s1)"
    using turns_ok [OF assms(19), of s1 h "map (Pair ?fd) msgs"] s1(4,5) by auto
  then show ?thesis
    using s1(1-3) list_all2_lengthD [OF s1(5)] rest_of_fields(2) [OF s1(6)]
    by (intro exI [of _ s1] exI [of _ s2] exI [of _ "c\<lparr>readBuff := rb\<rparr>"]) simp
qed

definition frame_length :: "byte list \<Rightarrow> int" where
  "frame_length bs = (let n = uint (hd bs) in if n = 0 then -1 else if int (length bs) < n then -2 else n)"

lemma requests_reach_the_handler_witness:
  "\<exists>s1 s2. server_on_event map_ctl (ufns0\<lparr>u_decode := \<lambda>f bs n s. Done (frame_length bs) s\<rparr>) 10 [] (ConnHandleEvent 0)
      \<lparr>efd = 7, emask = XE_READABLE, edata = 0\<rparr> (srv0\<lparr>rx := \<lambda>_. map RData [[3, 8], [9, 2], [7, 4, 1]], srv_msgDecodeCb := Some 0\<rparr>) = Done () s1 \<and>
    turns (\<lambda>n fd b s. Done () (srv_state.more_update (\<lambda>l. l @ [(fd, content b)]) s)) 0 (Suc (Suc 0)) s1 = Done () s2 \<and>
    srv_state.more s2 = [(7, [3, 8, 9]), (7, [2, 7])]"
proof -
  let ?s = "srv0\<lparr>rx := \<lambda>_. map RData [[3, 8], [9, 2], [7, 4, 1]], srv_msgDecodeCb := Some 0\<rparr>"
  let ?U = "ufns0\<lparr>u_decode := \<lambda>f bs n s. Done (frame_length bs) s\<rparr>" and ?bs = "[3, 8, 9, 2, 7, 4, 1] :: byte list"
  have split: "split_frames frame_length (content (readBuff sconn) @ concat [[3, 8], [9, 2], [7, 4, 1]]) = ([[3, 8, 9], [2, 7]], [4, 1])"
    by (simp add: sconn_def bwf_sbuf split_frames.simps [of _ ?bs] split_frames.simps [of _ "[2, 7, 4, 1]"]
        split_frames.simps [of _ "[4, 1]"] frame_length_def Let_def)
  have dec: "\<forall>bs. bs \<noteq> [] \<longrightarrow> frame_length bs = -1 \<or> frame_length bs = -2 \<or> 0 < frame_length bs"
    using uint_ge_0 by (auto simp: frame_length_def Let_def order_less_le)
  have u: "server_decodes ?U (srv_msgDecodeCb ?s) frame_length" by (simp add: server_decodes_def)
  have c: "conns ?s 0 = Some sconn" "decodeCb sconn = Some ServerDecode" "msgCommitCb sconn = Some ServerMessage"
    "readBuff sconn = sbuf []" "unat (writerIndex (sbuf [])) = 4" "some_running ?s"
    by (simp_all add: sconn_def sbuf_def) (use srv0_ok(3) in \<open>simp add: some_running_def\<close>)
  have d: "dispatch_logs (\<lambda>n fd b s. Done () (srv_state.more_update (\<lambda>l. l @ [(fd, content b)]) s)) (\<lambda>t l. l @ [t])"
    by (simp add: dispatch_logs_def)
  have "chan_ok (msgQueue ?s)" "queue (msgQueue ?s) = []" "hasGroup (handleWorkers ?s ! 0)" "conn_fd sconn = 7" "srv_state.more ?s = []"
    by (simp_all add: xChan_new_def chan_ok_def atomic_new_def)
  then show ?thesis
    using requests_reach_the_handler [where n = 10 and h = 0 and ctl = map_ctl and junk = "[]" and d = 0,
        OF dec u c(1-3) _ _ _ _ _ _ _ _ _ c(6) _ _ _ d split]
    by (auto simp: c(4,5) bwf_sbuf vec_max_def simp del: turns.simps)
qed

section \<open>Connections\<close>

text \<open>Closing a connection of the server, from its status to the callback of the user.\<close>

lemma server_closes:
  assumes "epoll_ctl_spec ctl view usable" and "mirror view s" and "isLoopThread s"
    and "conns s i = Some c" and "isConnected c" and "connCloseCb c = Some ServerClosed"
    and "connections s (conn_fd c) = Some i" and "srv_connCloseCb s = Some (UserFn u)" and "u_conn_logs U h"
    and cb: "call_conn cb = call_conn (server_cbs U (server_call ctl U (Suc m)))"
  obtains t where "closeConn ctl cb i s = Done 0 t" and "connections t = (connections s)(conn_fd c := None)"
    and "register t = (register s)(conn_fd c := None)" and "view (kern t) (conn_fd c) = None"
    and "srv_state.more t = h u i (srv_state.more s)" and "conns t = (conns s)(i \<mapsto> c\<lparr>connStatus := XF_CONN_STATUS_DISCONNECTED\<rparr>)"
    and "extraEvents t = extraEvents s" and "timers t = timers s"
proof -
  let ?c = "c\<lparr>connStatus := XF_CONN_STATUS_DISCONNECTING\<rparr>"
  let ?s1 = "put_conn i ?c s"
  have "mirror view ?s1" "isLoopThread ?s1" using assms(2,3) by simp_all
  from loop_remove_ok [OF assms(1) this] obtain k where k:
    "loop_remove ctl (conn_fd c) ?s1 = Done 0 (?s1\<lparr>register := (register ?s1)(conn_fd c := None), kern := k\<rparr>)"
    "mirror view (?s1\<lparr>register := (register ?s1)(conn_fd c := None), kern := k\<rparr>)"
    by metis
  let ?s2 = "?s1\<lparr>register := (register ?s1)(conn_fd c := None), kern := k\<rparr>"
  let ?s3 = "put_conn i (?c\<lparr>connStatus := XF_CONN_STATUS_DISCONNECTED\<rparr>)
    (srv_state.more_update (h u i) (?s2\<lparr>connections := (connections ?s2)(conn_fd ?c := None)\<rparr>))"
  have "doCloseConnection U i ?s2 = Done () ?s3"
    by (rule doCloseConnection_ok) (use assms in simp_all)
  then have "call_conn cb (Some ServerClosed) i ?s2 = Done () ?s3"
    using assms(3) by (simp add: cb call_conn_def server_cbs_def connectionClosed_def scheduleToLoopThread_def run_functor_def)
  then have "closeConn ctl cb i s = Done 0 ?s3"
    using assms(3-6) k(1) by (simp add: closeConn_def isConnected_def Let_def)
  then show ?thesis
    using mirror_view [OF k(2), of "conn_fd c"] by (intro that [of ?s3]) (simp_all add: put_conn_def)
qed

text \<open>
  C26. A hang-up or error event on a connection of the server, as the loop dispatches it, takes
  the connection out of the map of connections, of the registered descriptors and of the kernel's
  interest list, runs the user's close callback exactly once (it may throw), and leaves the
  object disconnected, other connections untouched.
\<close>

theorem hangup_closes_the_connection:
  assumes "epoll_ctl_spec ctl view usable" and "mirror view s" and "isLoopThread s"
    and "conns s i = Some c" and "isConnected c" and "connCloseCb c = Some ServerClosed"
    and "connections s (conn_fd c) = Some i" and "srv_connCloseCb s = Some (UserFn u)" and "u_conn_logs U h"
    and "has (emask xe) XE_ERROR \<or> has (emask xe) XE_HUP" and "2 \<le> n"
  shows "\<exists>s'. server_on_event ctl U n junk (ConnHandleEvent i) xe s = Done () s' \<and>
    connections s' = (connections s)(conn_fd c := None) \<and> register s' = (register s)(conn_fd c := None) \<and>
    view (kern s') (conn_fd c) = None \<and> srv_state.more s' = h u i (srv_state.more s) \<and>
    conns s' = (conns s)(i \<mapsto> c\<lparr>connStatus := XF_CONN_STATUS_DISCONNECTED\<rparr>)"
proof -
  obtain m where n: "n = Suc m" using assms(11) by (cases n) auto
  obtain t where "closeConn ctl (server_lent_cbs U (server_call ctl U n)) i s = Done 0 t" "connections t = (connections s)(conn_fd c := None)"
    "register t = (register s)(conn_fd c := None)" "view (kern t) (conn_fd c) = None"
    "srv_state.more t = h u i (srv_state.more s)" "conns t = (conns s)(i \<mapsto> c\<lparr>connStatus := XF_CONN_STATUS_DISCONNECTED\<rparr>)"
    by (rule server_closes [OF assms(1-9), of "server_lent_cbs U (server_call ctl U n)" m]) (simp_all add: n)
  then show ?thesis
    using assms(10) by (intro exI [of _ t]) (simp add: server_on_event_def HandleEvent_def)
qed

lemma hangup_closes_the_connection_witness:
  "\<exists>s'. server_on_event map_ctl ufns0 2 [] (ConnHandleEvent 0) \<lparr>efd = 7, emask = XE_HUP, edata = 0\<rparr> srv0 = Done () s' \<and>
    connections s' 7 = None \<and> kern s' 7 = None \<and> srv_state.more s' = [(0, [])]"
  using hangup_closes_the_connection [OF map_ctl_spec srv0_ok(1,2) srv0_fields(1) _ _ _ srv0_fields(3) ufns0_ok,
      of "\<lparr>efd = 7, emask = XE_HUP, edata = 0\<rparr>" 2 "[]"]
  by (auto simp: has_def mask_defs)

text \<open>
  C13. A callback for sent bytes that closes its connection, as \<^verbatim>\<open>closeConnection\<close> invites to. The loop
  deletes the callback of the descriptor, the server takes the connection out of its map, and when the callback
  has returned, the temporary pointer that \<^verbatim>\<open>sendMsg\<close> had lent to it was the last one. When no functor or timer is
  waiting and the user keeps no pointer of its own, a write event that sends bytes ends in undefined behaviour:
  \<^verbatim>\<open>sendMsg\<close> goes on with the members of the destroyed connection. (Closing needs of the user's functions
  only those for connections, which \<open>V\<close> has in common with \<open>U\<close>.)
\<close>

theorem closing_in_the_sent_callback_is_undefined:
  assumes "epoll_ctl_spec ctl view usable" and "mirror view s" and "isLoopThread s"
    and "conns s i = Some c" and "isConnected c" and "connCloseCb c = Some ServerClosed" and "sentBytesCb c = Some ServerSentBytes"
    and "connections s (conn_fd c) = Some i" and "extraEvents s = []" and "timers s = []"
    and "srv_connCloseCb s = Some (UserFn u)" and "u_conn_logs U h" and "srv_sentBytesCb s = Some f"
    and "\<forall>n t. u_sent U f i n t = closeConnection ctl (server_cbs V (server_call ctl V (Suc m))) (server_call ctl V (Suc m)) i t"
    and "u_conn V = u_conn U" and "\<forall>t. \<not> u_holds U i t"
    and "bwf (writeBuff c)" and "content (writeBuff c) \<noteq> []" and "length (content (writeBuff c)) < 2 ^ 31"
    and "write_loop (tx s (conn_fd c)) (content (writeBuff c)) 0 = (Bytes k, acc, ws)"
  shows "server_on_event ctl U n junk (ConnHandleEvent i) \<lparr>efd = conn_fd c, emask = XE_WRITABLE, edata = d\<rparr> s = Crash Undefined"
proof -
  let ?fd = "conn_fd c" and ?cb = "server_lent_cbs U (server_call ctl U n)" and ?own = "server_cbs V (server_call ctl V (Suc m))"
  let ?s1 = "s\<lparr>tx := (tx s)(?fd := ws), wire := (wire s)(?fd := wire s ?fd @ acc)\<rparr>"
  have k: "k = length acc" "acc = take (length acc) (content (writeBuff c))"
    using write_loop_count [OF assms(20)] write_loop_prefix [OF assms(20)] by simp_all
  then have le: "k \<le> length (content (writeBuff c))" by (metis length_take min.cobounded1)
  then have "unat (of_nat k :: size_t) = k" using assms(19) by (intro unat_size_of_nat) simp
  then obtain b where b: "moveOver (of_nat k) (writeBuff c) = Inr b"
    using moveOver_ok [OF assms(17), of "of_nat k"] le by metis
  let ?c = "c\<lparr>writeBuff := b\<rparr>" and ?t = "put_conn i (c\<lparr>writeBuff := b\<rparr>) ?s1"
  have more: "srv_sentBytesCb ?t = srv_sentBytesCb s" "srv_connCloseCb ?t = srv_connCloseCb s" "extraEvents ?t = []" "timers ?t = []"
    using assms(9,10) by (simp_all add: put_conn_def)
  have pre: "mirror view ?t" "isLoopThread ?t" "conns ?t i = Some ?c" "isConnected ?c" "connCloseCb ?c = Some ServerClosed"
    "connections ?t (conn_fd ?c) = Some i" "srv_connCloseCb ?t = Some (UserFn u)"
    using assms more by (simp_all add: isConnected_def)
  have log: "u_conn_logs V h" using assms(12,15) by (simp add: u_conn_logs_def)
  obtain v where v: "closeConn ctl ?own i ?t = Done 0 v" "connections v = (connections ?t)(conn_fd ?c := None)"
    "register v = (register ?t)(conn_fd ?c := None)" "conns v = (conns ?t)(i \<mapsto> ?c\<lparr>connStatus := XF_CONN_STATUS_DISCONNECTED\<rparr>)"
    "extraEvents v = extraEvents ?t" "timers v = timers ?t"
    using server_closes [OF assms(1) pre log refl, of m] by metis
  have held: "srv_holds U i ?t" "\<not> srv_holds U i v"
    using pre(3,6) v(2-6) more(3,4) assms(16) by (simp_all add: srv_holds_def loop_holds_def register_holds_def)
  have "u_sent U f i k ?t = Done () v"
    using assms(14) v(1) pre(2-4) by (simp add: closeConnection_def isConnected_def)
  then have "sent_fn ?cb ServerSentBytes i k ?t = Crash Undefined"
    using held more(1) assms(13) by (simp add: server_cbs_def server_defaultSentBytes_def returning_def drops_def)
  then have "conn_sendMsg ctl ?cb i s = Crash Undefined"
    using assms(4,5,7,18) readable_0 [OF assms(17)] sys_write_content [OF assms(17,19), of ?fd s] assms(20) b
    by (simp add: conn_sendMsg_def Let_def)
  then show ?thesis by (simp add: server_on_event_def HandleEvent_def has_def mask_defs)
qed

lemma closing_in_the_sent_callback_is_undefined_witness:
  "server_on_event map_ctl
     (ufns0\<lparr>u_sent := \<lambda>f i n t. closeConnection map_ctl (server_cbs ufns0 (server_call map_ctl ufns0 2)) (server_call map_ctl ufns0 2) i t\<rparr>)
     5 [] (ConnHandleEvent 0) \<lparr>efd = 7, emask = XE_WRITABLE, edata = 0\<rparr>
     (srv0\<lparr>conns := [0 \<mapsto> sconn\<lparr>writeBuff := sbuf [1, 2]\<rparr>], srv_sentBytesCb := Some 0\<rparr>) = Crash Undefined"
proof -
  let ?U = "ufns0\<lparr>u_sent := \<lambda>f i n t. closeConnection map_ctl (server_cbs ufns0 (server_call map_ctl ufns0 2)) (server_call map_ctl ufns0 2) i t\<rparr>"
  let ?c = "sconn\<lparr>writeBuff := sbuf [1, 2]\<rparr>"
  let ?s = "srv0\<lparr>conns := [0 \<mapsto> sconn\<lparr>writeBuff := sbuf [1, 2]\<rparr>], srv_sentBytesCb := Some 0\<rparr>"
  have c: "conns ?s 0 = Some ?c" "isConnected ?c" "connCloseCb ?c = Some ServerClosed" "sentBytesCb ?c = Some ServerSentBytes"
    "connections ?s (conn_fd ?c) = Some 0" "extraEvents ?s = []" "timers ?s = []" "srv_connCloseCb ?s = Some (UserFn 0)"
    "srv_sentBytesCb ?s = Some 0" "mirror (\<lambda>m. m) ?s" "isLoopThread ?s"
    using srv0_ok(1,2) by (simp_all add: mirror_def isLoopThread_def) (simp_all add: srv0_def sconn_def isConnected_def)
  have u: "u_conn_logs ?U (\<lambda>u i l. l @ [(int u, [])])" using ufns0_ok by (simp add: u_conn_logs_def)
  have h: "\<not> u_holds ufns0 0 t" for t by (simp add: ufns0_def)
  have w: "write_loop (tx ?s (conn_fd ?c)) (content (writeBuff ?c)) 0 = (Bytes 2, [1, 2], [])"
    by (simp add: bwf_sbuf) (simp add: srv0_def)
  show ?thesis
    using closing_in_the_sent_callback_is_undefined [OF map_ctl_spec c(10,11,1-8) u c(9) _ _ _ _ _ _ w, of ufns0 1 5 "[]" 0]
    using h by (simp add: bwf_sbuf del: One_nat_def)
qed

text \<open>
  C27. A readable listening socket: the accepted descriptor becomes a new connection object that
  is connected, empty, entered under its descriptor, registered for reading with the loop and
  the kernel, and reported once to the user. No descriptor is closed on the way.
\<close>

theorem accept_establishes_a_connection:
  assumes "epoll_ctl_spec ctl view usable" and "mirror view s" and "isLoopThread s"
    and "accept_replies fd sa rs" and "replies (env s) = rs @ rest" and "valid (listenSock s)"
    and "newConnectionCb s = Some ServerAcceptNew" and "usable fd" and "srv_connFinishedCb s = Some (UserFn u)"
    and "\<forall>i t. u_conn U u i t = Done () (srv_state.more_update (h i) t)" and "2 \<le> n"
  shows "\<exists>s' c. server_on_event ctl U n junk ListenerHandleEvent \<lparr>efd = listenSock s, emask = XE_READABLE, edata = d\<rparr> s = Done () s' \<and>
    conns s' = (conns s)(nextConn s \<mapsto> c) \<and> isConnected c \<and> conn_fd c = fd \<and>
    content (readBuff c) = [] \<and> content (writeBuff c) = [] \<and>
    connections s' = (connections s)(fd \<mapsto> nextConn s) \<and> nextConn s' = Suc (nextConn s) \<and>
    register s' = (register s)(fd \<mapsto> \<lparr>es_mask = XE_READABLE, es_data = 0, es_callback = ConnHandleEvent (nextConn s)\<rparr>) \<and>
    mirror view s' \<and> closed_fds (trace (env s')) = closed_fds (trace (env s)) \<and>
    srv_state.more s' = h (nextConn s) (srv_state.more s)"
proof -
  obtain m where n: "n = Suc m" using assms(11) by (cases n) auto
  obtain s4 c where h: "handleAccept (server_new_conn ctl U (Suc m)) junk s =
      catchS (connectionFinished U (nextConn s) s4) (\<lambda>e s. Done () (close_fd fd s))"
    and s4: "conns s4 = (conns s)(nextConn s \<mapsto> c)" "isConnected c" "conn_fd c = fd"
    "content (readBuff c) = []" "content (writeBuff c) = []"
    "connections s4 = (connections s)(fd \<mapsto> nextConn s)" "nextConn s4 = Suc (nextConn s)"
    "register s4 = (register s)(fd \<mapsto> \<lparr>es_mask = XE_READABLE, es_data = 0, es_callback = ConnHandleEvent (nextConn s)\<rparr>)"
    "mirror view s4" "replies (env s4) = rest" "closed_fds (trace (env s4)) = closed_fds (trace (env s))"
    "srv_state.more s4 = srv_state.more s" "srv_connFinishedCb s4 = srv_connFinishedCb s"
    using assms(1-8) by (rule handleAccept_calls)
  let ?s' = "srv_state.more_update (h (nextConn s)) s4"
  have "handleAccept (server_new_conn ctl U (Suc m)) junk s = Done () ?s'"
    using h s4(13) assms(9,10) by (simp add: connectionFinished_def call_user_conn_def)
  then have "server_on_event ctl U n junk ListenerHandleEvent \<lparr>efd = listenSock s, emask = XE_READABLE, edata = d\<rparr> s = Done () ?s'"
    using n by (simp add: server_on_event_def listener_HandleEvent_def has_def mask_defs)
  then show ?thesis
    using s4 by (intro exI [of _ ?s'] exI [of _ c]) simp
qed

lemma accept_establishes_a_connection_witness:
  "\<exists>s'. server_on_event map_ctl ufns0 2 [] ListenerHandleEvent \<lparr>efd = 5, emask = XE_READABLE, edata = 0\<rparr> srv0 = Done () s' \<and>
    connections s' 8 = Some 1 \<and> srv_state.more s' = [(1, [])]"
proof -
  have "accept_replies 8 (replicate 28 0) (replies (env srv0))" "valid (listenSock srv0)"
    by (simp_all add: accept_replies_def srv0_def valid_def sock_consts)
  then show ?thesis
    using accept_establishes_a_connection [OF map_ctl_spec srv0_ok(1,2), of 8 "replicate 28 0" "replies (env srv0)" "[]" 1
        ufns0 "\<lambda>i l. l @ [(1, [])]" 2 "[]" 0]
    by (auto simp: ufns0_def)
qed

text \<open>
  C28. When the user's callback for a new connection throws, the listener closes the descriptor of
  a connection that has been established already: the object stays connected, in the map, in the
  register and in the interest list, on a descriptor that the process no longer owns.
\<close>

theorem throwing_callback_closes_a_live_socket:
  assumes "epoll_ctl_spec ctl view usable" and "mirror view s" and "isLoopThread s"
    and "accept_replies fd sa rs" and "replies (env s) = rs @ rest" and "valid (listenSock s)"
    and "newConnectionCb s = Some ServerAcceptNew" and "usable fd" and "srv_connFinishedCb s = Some (UserFn u)"
    and "\<forall>i t. u_conn U u i t = Raise e (srv_state.more_update (h i) t)" and "2 \<le> n"
  shows "\<exists>s' c. server_on_event ctl U n junk ListenerHandleEvent \<lparr>efd = listenSock s, emask = XE_READABLE, edata = d\<rparr> s = Done () s' \<and>
    closed_fds (trace (env s')) = closed_fds (trace (env s)) @ [fd] \<and>
    connections s' fd = Some (nextConn s) \<and> conns s' (nextConn s) = Some c \<and> isConnected c \<and> conn_fd c = fd \<and>
    register s' fd = Some \<lparr>es_mask = XE_READABLE, es_data = 0, es_callback = ConnHandleEvent (nextConn s)\<rparr>"
proof -
  obtain m where n: "n = Suc m" using assms(11) by (cases n) auto
  obtain s4 c where h: "handleAccept (server_new_conn ctl U (Suc m)) junk s =
      catchS (connectionFinished U (nextConn s) s4) (\<lambda>e s. Done () (close_fd fd s))"
    and s4: "conns s4 = (conns s)(nextConn s \<mapsto> c)" "isConnected c" "conn_fd c = fd"
    "content (readBuff c) = []" "content (writeBuff c) = []"
    "connections s4 = (connections s)(fd \<mapsto> nextConn s)" "nextConn s4 = Suc (nextConn s)"
    "register s4 = (register s)(fd \<mapsto> \<lparr>es_mask = XE_READABLE, es_data = 0, es_callback = ConnHandleEvent (nextConn s)\<rparr>)"
    "mirror view s4" "replies (env s4) = rest" "closed_fds (trace (env s4)) = closed_fds (trace (env s))"
    "srv_state.more s4 = srv_state.more s" "srv_connFinishedCb s4 = srv_connFinishedCb s"
    using assms(1-8) by (rule handleAccept_calls)
  let ?s' = "close_fd fd (srv_state.more_update (h (nextConn s)) s4)"
  have "handleAccept (server_new_conn ctl U (Suc m)) junk s = Done () ?s'"
    using h s4(13) assms(9,10) by (simp add: connectionFinished_def call_user_conn_def)
  then have "server_on_event ctl U n junk ListenerHandleEvent \<lparr>efd = listenSock s, emask = XE_READABLE, edata = d\<rparr> s = Done () ?s'"
    using n by (simp add: server_on_event_def listener_HandleEvent_def has_def mask_defs)
  then show ?thesis
    using s4 by (intro exI [of _ ?s'] exI [of _ c]) (simp add: sys_close_def)
qed

lemma throwing_callback_closes_a_live_socket_witness:
  "\<exists>s'. server_on_event map_ctl (ufns0\<lparr>u_conn := \<lambda>f i t. Raise LengthError (srv_state.more_update (\<lambda>l. l) t)\<rparr>) 2 []
      ListenerHandleEvent \<lparr>efd = 5, emask = XE_READABLE, edata = 0\<rparr> srv0 = Done () s' \<and>
    connections s' 8 = Some 1 \<and> closed_fds (trace (env s')) = [8]"
proof -
  have "accept_replies 8 (replicate 28 0) (replies (env srv0))" "valid (listenSock srv0)" "trace (env srv0) = []"
    by (simp_all add: accept_replies_def srv0_def valid_def sock_consts)
  then show ?thesis
    using throwing_callback_closes_a_live_socket [OF map_ctl_spec srv0_ok(1,2), of 8 "replicate 28 0" "replies (env srv0)" "[]" 1
        "ufns0\<lparr>u_conn := \<lambda>f i t. Raise LengthError (srv_state.more_update (\<lambda>l. l) t)\<rparr>" LengthError "\<lambda>i l. l" 2 "[]" 0]
    by auto
qed

section \<open>Responses\<close>

text \<open>
  C29. A response that a handler thread sends is only queued for the loop thread, with its
  descriptor as the only name of the connection. When the loop thread runs it, in any later state
  \<open>t\<close>, the bytes go to the connection that holds the descriptor then, which need not be the one
  that sent the request; without one they are dropped.
\<close>

theorem response_follows_the_descriptor:
  assumes "\<not> isLoopThread s" and "bwf resp" and "length (content resp) < 2 ^ 31"
    and "epoll_ctl_spec ctl view usable" and "mirror view t" and "isLoopThread t"
    and "connections t uid = Some j" and "conns t j = Some c" and "isConnected c"
    and "quiet_sent (server_lent_cbs U (server_call ctl U n)) c" and "bwf (writeBuff c)" and "content (writeBuff c) = []"
    and "unat (writerIndex (writeBuff c)) + length (content resp) \<le> vec_max"
    and "write_loop (tx t (conn_fd c)) (content resp) 0 = (Bytes m, content resp, ws)"
  shows "\<exists>s' resp' t'. server_sendResponse call uid resp s = Done (0, resp') s' \<and> content resp' = [] \<and>
    extraEvents s' = extraEvents s @ [FCall (ServerDoSend uid (content resp))] \<and>
    (\<forall>fd. fd \<noteq> wakeupFd s \<longrightarrow> wire s' fd = wire s fd) \<and>
    server_call ctl U (Suc n) (ServerDoSend uid (content resp)) t = Done () t' \<and>
    wire t' = (wire t)(conn_fd c := wire t (conn_fd c) @ content resp) \<and>
    (\<forall>t0. connections t0 uid = None \<longrightarrow> server_call ctl U (Suc n) (ServerDoSend uid (content resp)) t0 = Done () t0)"
proof -
  obtain resp' where r: "readAll resp = Inr (content resp, resp')" "content resp' = []"
    using readAll_ok [OF assms(2)] by metis
  let ?s1 = "s\<lparr>extraEvents := extraEvents s @ [FCall (ServerDoSend uid (content resp))]\<rparr>"
  obtain t1 w where nt: "notify ?s1 = Done () (?s1\<lparr>tx := t1, wire := w\<rparr>)" "\<And>fd. fd \<noteq> wakeupFd ?s1 \<Longrightarrow> t1 fd = tx ?s1 fd \<and> w fd = wire ?s1 fd"
    using notify_wire [of ?s1] by blast
  have send: "server_sendResponse call uid resp s = Done (0, resp') (?s1\<lparr>tx := t1, wire := w\<rparr>)"
    using r(1) nt(1) assms(1) by (simp add: server_sendResponse_def scheduleToLoopThread_def)
  let ?cb = "server_lent_cbs U (server_call ctl U n)"
  obtain b where b: "append_string (content resp) (writeBuff c) = Inr b" "bwf b" "content b = content resp"
    using append_string_ok [OF assms(11,13)] assms(12) by (metis append_Nil)
  let ?c = "c\<lparr>writeBuff := b\<rparr>" and ?t = "put_conn j (c\<lparr>writeBuff := b\<rparr>) t"
  have pre: "mirror view ?t" "isLoopThread ?t" "quiet_sent ?cb ?c" "conns ?t j = Some ?c" "isConnected ?c" "bwf (writeBuff ?c)"
    "length (content (writeBuff ?c)) < 2 ^ 31"
    "write_loop (tx ?t (conn_fd ?c)) (content (writeBuff ?c)) 0 = (Bytes m, content resp, ws)"
    using assms b by (simp_all add: isConnected_def)
  obtain t' where t': "conn_sendMsg ctl ?cb j ?t = Done (int m) t'" "wire t' = (wire ?t)(conn_fd ?c := wire ?t (conn_fd ?c) @ content resp)"
    using conn_sendMsg_taken [OF assms(4) pre] by metis
  have "server_call ctl U (Suc n) (ServerDoSend uid (content resp)) t = Done () t'"
    using assms(6-9) b(1) t'(1)
    by (simp add: doSendResponse_def sendMsg_string_def sendMsgToBuffer_def isConnected_def Let_def)
  then show ?thesis
    using send r(2) nt(2) t'(2)
    by (intro exI [of _ "?s1\<lparr>tx := t1, wire := w\<rparr>"] exI [of _ resp'] exI [of _ t']) (simp add: doSendResponse_def Let_def)
qed

lemma response_follows_the_descriptor_witness:
  "\<exists>s' resp' t'. server_sendResponse (\<lambda>c s. Done () s) 7 (sbuf [1, 2, 3]) (srv0\<lparr>current := 9\<rparr>) = Done (0, resp') s' \<and>
    extraEvents s' = [FCall (ServerDoSend 7 [1, 2, 3])] \<and>
    server_call map_ctl ufns0 3 (ServerDoSend 7 [1, 2, 3]) srv0 = Done () t' \<and> wire t' 7 = [1, 2, 3]"
proof -
  have w: "write_loop (tx srv0 (conn_fd sconn)) (content (sbuf [1, 2, 3])) 0 = (Bytes 3, content (sbuf [1, 2, 3]), [])"
    by (simp add: bwf_sbuf) (simp add: srv0_def)
  have q: "quiet_sent (server_lent_cbs ufns0 (server_call map_ctl ufns0 2)) sconn"
    unfolding quiet_sent_def
    by (intro allI impI exI [of _ "\<lambda>x. x"]) (simp add: sconn_def server_cbs_def server_defaultSentBytes_def ufns0_def net_more_id split: option.split)
  have l: "\<not> isLoopThread (srv0\<lparr>current := 9\<rparr>)" "unat (writerIndex (sbuf [])) = 4" "writeBuff sconn = sbuf []"
    by (simp_all add: isLoopThread_def srv0_def sbuf_def sconn_def)
  show ?thesis
    using response_follows_the_descriptor [OF l(1) _ _ map_ctl_spec srv0_ok(1,2) srv0_fields(2,1) srv0_fields(11) q _ _ _ w, of "\<lambda>c s. Done () s"]
    by (auto simp: bwf_sbuf l(2,3) vec_max_def numeral_3_eq_3 simp del: server_call.simps)
qed

end
