(* ===== verification/Server_Echo.thy ===== *)
theory Server_Echo
  imports Server_Props
begin

text \<open>
  The whole way of a request through the server: read event, queue, handler thread, response,
  and the functor that the loop thread runs. The handler is one that answers with what it got.
\<close>

section \<open>A handler that answers\<close>

text \<open>\<open>dispatch\<close> calls \<^verbatim>\<open>sendResponse\<close> with the message, in its own thread.\<close>

definition echo_dispatch ::
    "(closure \<Rightarrow> ('k, 'z) srv_state_scheme \<Rightarrow> (unit, ('k, 'z) srv_state_scheme) outcome) \<Rightarrow>
     nat \<Rightarrow> int \<Rightarrow> xBuffer \<Rightarrow> ('k, 'z) srv_state_scheme \<Rightarrow> (unit, ('k, 'z) srv_state_scheme) outcome" where
  "echo_dispatch call n fd b s =
     bindS (handler_sendResponse (\<lambda>uid buf s. bindS (server_sendResponse call uid buf s) (\<lambda>(r, _) s. Done r s)) n fd b s)
       (\<lambda>_ s. Done () s)"

text \<open>The functor that a response leaves for the loop thread.\<close>

definition response :: "int \<times> byte list \<Rightarrow> xFunctor" where
  "response t = FCall (ServerDoSend (fst t) (snd t))"

lemma echo_turn:
  assumes "\<not> isLoopThread s" and "hasGroup (handleWorkers s ! h)" and "serverAlive s" and "bwf b"
  obtains t w where "echo_dispatch call h fd b s =
      Done () (s\<lparr>extraEvents := extraEvents s @ [response (fd, content b)], tx := t, wire := w\<rparr>)"
    and "\<And>x. x \<noteq> wakeupFd s \<Longrightarrow> t x = tx s x \<and> w x = wire s x"
proof -
  obtain b' where b': "readAll b = Inr (content b, b')" using readAll_ok [OF assms(4)] by metis
  let ?s = "s\<lparr>extraEvents := extraEvents s @ [FCall (ServerDoSend fd (content b))]\<rparr>"
  obtain t w where n: "notify ?s = Done () (?s\<lparr>tx := t, wire := w\<rparr>)" "\<And>x. x \<noteq> wakeupFd ?s \<Longrightarrow> t x = tx ?s x \<and> w x = wire ?s x"
    using notify_wire [of ?s] by blast
  show ?thesis
    using assms(1-3) b' n
    by (intro that [of w t]) (simp_all add: echo_dispatch_def handler_sendResponse_def group_sendResponse_def
        server_sendResponse_def scheduleToLoopThread_def response_def)
qed

text \<open>The turns of the handler: one functor per message, in order; nothing else changes but the wake-up descriptor.\<close>

lemma echo_turns:
  "\<not> isLoopThread s \<Longrightarrow> hasGroup (handleWorkers s ! h) \<Longrightarrow> serverAlive s \<Longrightarrow> chan_ok (msgQueue s) \<Longrightarrow>
    list_all2 tagged_as ts (queue (msgQueue s)) \<Longrightarrow> \<forall>t \<in> set ts. - (2 ^ 31) \<le> fst t \<and> fst t < 2 ^ 31 \<Longrightarrow>
    \<exists>t w q. turns (echo_dispatch call) h (length ts) s =
        Done () (s\<lparr>msgQueue := q, extraEvents := extraEvents s @ map response ts, tx := t, wire := w\<rparr>) \<and>
      queue q = [] \<and> (\<forall>x. x \<noteq> wakeupFd s \<longrightarrow> t x = tx s x \<and> w x = wire s x)"
proof (induction ts arbitrary: s)
  case Nil
  then show ?case by (intro exI [of _ "tx s"] exI [of _ "wire s"] exI [of _ "msgQueue s"]) simp
next
  case (Cons t ts)
  obtain b bs where q: "queue (msgQueue s) = b # bs" "tagged (fst t) (snd t) b" "list_all2 tagged_as ts bs"
    using Cons.prems(5) by (auto simp: list_all2_Cons1 tagged_as_def [of t])
  have fd: "- (2 ^ 31) \<le> fst t" "fst t < 2 ^ 31"
    using Cons.prems(6) by simp_all
  obtain b' q' where h: "handler_turn (echo_dispatch call) h s = catchS (echo_dispatch call h (fst t) b' (s\<lparr>msgQueue := q'\<rparr>)) (\<lambda>e s. Done () s)"
    "bwf b'" "content b' = snd t" "chan_ok q'" "queue q' = bs"
    using handler_turn_ok [OF Cons.prems(2,4) q(1,2) fd] by metis
  let ?s = "s\<lparr>msgQueue := q'\<rparr>"
  have ready: "\<not> isLoopThread ?s" "hasGroup (handleWorkers ?s ! h)" "serverAlive ?s"
    using Cons.prems(1-3) by (simp_all add: isLoopThread_def)
  obtain t1 w1 where e: "echo_dispatch call h (fst t) b' ?s =
      Done () (?s\<lparr>extraEvents := extraEvents ?s @ [response (fst t, content b')], tx := t1, wire := w1\<rparr>)"
    "\<And>x. x \<noteq> wakeupFd ?s \<Longrightarrow> t1 x = tx ?s x \<and> w1 x = wire ?s x"
    using ready h(2) by (rule echo_turn [where call = call and fd = "fst t"]) (rule that)
  let ?s1 = "?s\<lparr>extraEvents := extraEvents ?s @ [response t], tx := t1, wire := w1\<rparr>"
  have turn: "handler_turn (echo_dispatch call) h s = Done () ?s1"
    using h(1,3) e(1) by simp
  have "\<not> isLoopThread ?s1" "hasGroup (handleWorkers ?s1 ! h)" "serverAlive ?s1" "chan_ok (msgQueue ?s1)"
    "list_all2 tagged_as ts (queue (msgQueue ?s1))"
    using Cons.prems(1-3) h(4,5) q(3) by (simp_all add: isLoopThread_def)
  from Cons.IH [OF this] Cons.prems(6) obtain t2 w2 q2 where ih: "turns (echo_dispatch call) h (length ts) ?s1 =
      Done () (?s1\<lparr>msgQueue := q2, extraEvents := extraEvents ?s1 @ map response ts, tx := t2, wire := w2\<rparr>)"
    "queue q2 = []" "\<forall>x. x \<noteq> wakeupFd ?s1 \<longrightarrow> t2 x = tx ?s1 x \<and> w2 x = wire ?s1 x"
    by auto
  then show ?case
    using turn e(2) by (intro exI [of _ t2] exI [of _ w2] exI [of _ q2]) simp
qed

section \<open>The loop thread sends\<close>

text \<open>
  The responses to one connection, one functor after the other, while each is taken whole by the
  kernel: \<open>ks\<close> are its answers.
\<close>

lemma connections_more: "net_state.more (s :: ('k, 'z) srv_state_scheme) = net_state.more t \<Longrightarrow> connections s = connections t"
  by (cases s; cases t; simp)

definition send_ready :: "'k epoll_ctl \<Rightarrow> (('k \<Rightarrow> int \<Rightarrow> int32 option)) \<Rightarrow> (int \<Rightarrow> bool) \<Rightarrow> ('k, 'z) srv_state_scheme cbs \<Rightarrow>
    int \<Rightarrow> nat \<Rightarrow> ('k, 'z) srv_state_scheme \<Rightarrow> bool" where
  "send_ready ctl view usable cb fd i s \<longleftrightarrow>
     epoll_ctl_spec ctl view usable \<and> mirror view s \<and> isLoopThread s \<and> connections s fd = Some i \<and>
     (\<exists>c. conns s i = Some c \<and> isConnected c \<and> conn_fd c = fd \<and> silent_sent cb c \<and> bwf (writeBuff c) \<and>
        content (writeBuff c) = [] \<and> unat (writerIndex (writeBuff c)) < 2 ^ 31)"

lemma response_sent:
  assumes "send_ready ctl view usable (server_lent_cbs U (server_call ctl U n)) fd i s" and "m \<noteq> []" and "length m < 2 ^ 31"
    and "length m \<le> k" and "tx s fd = WAccept k # ws"
  obtains s' where "run_functor (server_call ctl U (Suc n)) (response (fd, m)) s = Done () s'"
    and "send_ready ctl view usable (server_lent_cbs U (server_call ctl U n)) fd i s'"
    and "wire s' = (wire s)(fd := wire s fd @ m)" and "tx s' fd = ws"
proof -
  let ?cb = "server_lent_cbs U (server_call ctl U n)"
  obtain c where c: "epoll_ctl_spec ctl view usable" "mirror view s" "isLoopThread s" "connections s fd = Some i"
    "conns s i = Some c" "isConnected c" "conn_fd c = fd" "silent_sent ?cb c" "bwf (writeBuff c)" "content (writeBuff c) = []"
    "unat (writerIndex (writeBuff c)) < 2 ^ 31"
    using assms(1) by (auto simp: send_ready_def)
  have "unat (writerIndex (writeBuff c)) + length m \<le> vec_max"
    using c(11) assms(3) by (simp add: vec_max_def)
  from append_string_ok [OF c(9) this] c(10) obtain b where b: "append_string m (writeBuff c) = Inr b" "bwf b" "content b = m"
    by (metis append_Nil)
  let ?c = "c\<lparr>writeBuff := b\<rparr>" and ?s = "put_conn i (c\<lparr>writeBuff := b\<rparr>) s"
  have "write_loop (WAccept k # ws) m 0 = (Bytes (length m), m, ws)"
    using assms(2,4) by (cases m) (simp_all add: Let_def min_def)
  then have w: "write_loop (tx ?s (conn_fd ?c)) (content (writeBuff ?c)) 0 = (Bytes (length m), m, ws)"
    using assms(5) c(7) b(3) by simp
  have pre: "mirror view ?s" "isLoopThread ?s" "quiet_sent ?cb ?c" "conns ?s i = Some ?c" "isConnected ?c" "bwf (writeBuff ?c)"
    "length (content (writeBuff ?c)) < 2 ^ 31"
    using c b assms(3) silent_quiet [of ?cb ?c] by (simp_all add: isConnected_def)
  obtain s' b' where s': "conn_sendMsg ctl ?cb i ?s = Done (int (length m)) s'" "bwf b'" "content b' = drop (length m) (content (writeBuff ?c))"
    "conns s' = (conns ?s)(i \<mapsto> ?c\<lparr>writeBuff := b', writeEnabled := content b' \<noteq> []\<rparr>)"
    "wire s' = (wire ?s)(conn_fd ?c := wire ?s (conn_fd ?c) @ m)" "tx s' = (tx ?s)(conn_fd ?c := ws)"
    "mirror view s'" "isLoopThread s'"
    "content (writeBuff ?c) \<noteq> [] \<Longrightarrow> moveOver (of_nat (length m)) (writeBuff ?c) = Inr b'"
    "silent_sent ?cb ?c \<Longrightarrow> net_state.more s' = net_state.more ?s"
    using c(1) pre w by (rule conn_sendMsg_taken_all) metis
  have "unat (readableBytes b) = length m" using unat_readableBytes [OF b(2)] b(3) by simp
  moreover have "unat (of_nat (length m) :: size_t) = length m" using assms(3) by (intro unat_size_of_nat) simp
  ultimately have "b' = reset b"
    using s'(9) b assms(2) by (auto simp: moveOver_def bindE_assertE word_less_nat_alt split: if_splits)
  then have w4: "unat (writerIndex b') < 2 ^ 31" by (simp add: reset_def kDiscardableSize_def)
  have more: "connections s' = connections s"
    using connections_more [of s' ?s] s'(10) c(8) by simp
  have empty: "content b' = []" using s'(3) b(3) by simp
  have ready: "send_ready ctl view usable ?cb fd i s'"
    unfolding send_ready_def
    using c(1,4,6-8) s'(2,4,7,8) more empty w4 by (simp add: isConnected_def)
  have "run_functor (server_call ctl U (Suc n)) (response (fd, m)) s = Done () s'"
    using c(3-6) b(1) s'(1)
    by (simp add: run_functor_def response_def doSendResponse_def sendMsg_string_def sendMsgToBuffer_def isConnected_def Let_def)
  then show ?thesis
    using ready s'(5,6) c(7) by (intro that [of s']) simp_all
qed

lemma responses_sent:
  "send_ready ctl view usable (server_lent_cbs U (server_call ctl U n)) fd i s \<Longrightarrow>
    list_all2 (\<lambda>m k. m \<noteq> [] \<and> length m < 2 ^ 31 \<and> length m \<le> k) ms ks \<Longrightarrow> tx s fd = map WAccept ks @ ws \<Longrightarrow>
    \<exists>s'. run_functors (server_call ctl U (Suc n)) (map response (map (Pair fd) ms)) s = Done () s' \<and>
      wire s' = (wire s)(fd := wire s fd @ concat ms) \<and> tx s' fd = ws \<and>
      send_ready ctl view usable (server_lent_cbs U (server_call ctl U n)) fd i s'"
proof (induction ms arbitrary: ks s)
  case Nil
  then show ?case by (intro exI [of _ s]) simp
next
  case (Cons m ms)
  obtain k ks' where k: "ks = k # ks'" "m \<noteq> []" "length m < 2 ^ 31" "length m \<le> k"
    "list_all2 (\<lambda>m k. m \<noteq> [] \<and> length m < 2 ^ 31 \<and> length m \<le> k) ms ks'"
    using Cons.prems(2) by (auto simp: list_all2_Cons1)
  have tx: "tx s fd = WAccept k # (map WAccept ks' @ ws)" using Cons.prems(3) k(1) by simp
  obtain s1 where s1: "run_functor (server_call ctl U (Suc n)) (response (fd, m)) s = Done () s1"
    "send_ready ctl view usable (server_lent_cbs U (server_call ctl U n)) fd i s1"
    "wire s1 = (wire s)(fd := wire s fd @ m)" "tx s1 fd = map WAccept ks' @ ws"
    using Cons.prems(1) k(2-4) tx by (rule response_sent)
  obtain s' where "run_functors (server_call ctl U (Suc n)) (map response (map (Pair fd) ms)) s1 = Done () s'"
    "wire s' = (wire s1)(fd := wire s1 fd @ concat ms)" "tx s' fd = ws"
    "send_ready ctl view usable (server_lent_cbs U (server_call ctl U n)) fd i s'"
    using Cons.IH [OF s1(2) k(5) s1(4)] by blast
  then show ?case
    using s1(1,3) by (intro exI [of _ s']) (simp del: server_call.simps)
qed

section \<open>The whole way\<close>

text \<open>
  C5. Requests and answers. Bytes that arrive on a connection, in whatever chunks, are cut into
  messages; a handler that answers each message with its own bytes takes them in its own thread; and the
  functors that the answers leave for the loop thread put them on the wire of that same connection, each
  once, in the order of the requests, with nothing in between. This holds under three conditions: the
  connection is open with nothing buffered for sending, the callback for sent bytes changes nothing, and
  the kernel takes each answer whole. When it takes a part and then asks to wait, the part is sent
  again: C24.
\<close>

theorem requests_are_answered:
  assumes "\<forall>bs. bs \<noteq> [] \<longrightarrow> dec bs = -1 \<or> dec bs = -2 \<or> 0 < dec bs" and "server_decodes U (srv_msgDecodeCb s) dec"
    and "conns s i = Some c" and "decodeCb c = Some ServerDecode" and "msgCommitCb c = Some ServerMessage"
    and "bwf (readBuff c)" and "- (2 ^ 31) \<le> conn_fd c" and "conn_fd c < 2 ^ 31"
    and "rx s (conn_fd c) = map RData ch" and "ch \<noteq> []" and "\<forall>ds \<in> set ch. ds \<noteq> [] \<and> length ds \<le> 8192"
    and "unat (writerIndex (readBuff c)) + length (concat ch) \<le> vec_max"
    and "length (content (readBuff c)) + length (concat ch) < 2 ^ 31" and "length (content (readBuff c)) + length (concat ch) < n"
    and "some_running s" and "hasGroup (handleWorkers s ! h)" and "serverAlive s" and "chan_ok (msgQueue s)" and "queue (msgQueue s) = []"
    and "split_frames dec (content (readBuff c) @ concat ch) = (msgs, rest)"
    and "send_ready ctl view usable (server_lent_cbs U (server_call ctl U n)) (conn_fd c) i s"
    and "extraEvents s = []" and "conn_fd c \<noteq> wakeupFd s" and "w \<noteq> threadId s"
    and "tx s (conn_fd c) = map WAccept ks @ ws"
    and "list_all2 (\<lambda>m k. m \<noteq> [] \<and> length m < 2 ^ 31 \<and> length m \<le> k) msgs ks"
  shows "\<exists>s1 s2 s3. server_on_event ctl U n junk (ConnHandleEvent i) \<lparr>efd = conn_fd c, emask = XE_READABLE, edata = d\<rparr> s = Done () s1 \<and>
    turns (echo_dispatch call) h (length msgs) (s1\<lparr>current := w\<rparr>) = Done () s2 \<and> queue (msgQueue s2) = [] \<and>
    run_functors (server_call ctl U (Suc n)) (extraEvents s2) (s2\<lparr>current := threadId s2\<rparr>) = Done () s3 \<and>
    wire s3 (conn_fd c) = wire s (conn_fd c) @ concat msgs"
proof -
  let ?fd = "conn_fd c" and ?cb = "server_lent_cbs U (server_call ctl U n)"
  obtain s1 rb where s1: "server_on_event ctl U n junk (ConnHandleEvent i) \<lparr>efd = ?fd, emask = XE_READABLE, edata = d\<rparr> s = Done () s1"
    "conns s1 = (conns s)(i \<mapsto> c\<lparr>readBuff := rb\<rparr>)" "content rb = rest" "chan_ok (msgQueue s1)"
    "list_all2 tagged_as (map (Pair ?fd) msgs) (queue (msgQueue s1))" "rest_of s1 = rest_of s"
    using assms(1-6,9-15,18-20) by (rule read_event_delivers)
  note r = rest_of_fields [OF s1(6)]
  let ?t1 = "s1\<lparr>current := w\<rparr>"
  have "\<not> isLoopThread ?t1" "hasGroup (handleWorkers ?t1 ! h)" "serverAlive ?t1" "chan_ok (msgQueue ?t1)"
    "list_all2 tagged_as (map (Pair ?fd) msgs) (queue (msgQueue ?t1))"
    "\<forall>t \<in> set (map (Pair ?fd) msgs). - (2 ^ 31) \<le> fst t \<and> fst t < 2 ^ 31"
    using assms(7,8,16,17,24) s1(4,5) r by (auto simp: isLoopThread_def)
  from echo_turns [OF this, of call] obtain t v q where e:
    "turns (echo_dispatch call) h (length msgs) ?t1 =
      Done () (?t1\<lparr>msgQueue := q, extraEvents := map response (map (Pair ?fd) msgs), tx := t, wire := v\<rparr>)"
    "queue q = []" "t ?fd = tx s ?fd" "v ?fd = wire s ?fd"
    using assms(22,23) r by auto
  let ?s2 = "?t1\<lparr>msgQueue := q, extraEvents := map response (map (Pair ?fd) msgs), tx := t, wire := v\<rparr>"
  let ?t2 = "?s2\<lparr>current := threadId ?s2\<rparr>"
  have "send_ready ctl view usable ?cb ?fd i ?t2"
    using assms(3,21) s1(2) r by (auto simp: send_ready_def isLoopThread_def mirror_def isConnected_def silent_sent_def)
  moreover have "tx ?t2 ?fd = map WAccept ks @ ws"
    using e(3) assms(25) by simp
  ultimately obtain s3 where "run_functors (server_call ctl U (Suc n)) (map response (map (Pair ?fd) msgs)) ?t2 = Done () s3"
    "wire s3 = (wire ?t2)(?fd := wire ?t2 ?fd @ concat msgs)"
    using responses_sent [OF _ assms(26)] by blast
  then show ?thesis
    using s1(1) e by (intro exI [of _ s1] exI [of _ ?s2] exI [of _ s3]) (simp del: server_call.simps)
qed

lemma requests_are_answered_witness:
  "\<exists>s1 s2 s3. server_on_event map_ctl (ufns0\<lparr>u_decode := \<lambda>f bs n s. Done (frame_length bs) s\<rparr>) 10 [] (ConnHandleEvent 0)
      \<lparr>efd = 7, emask = XE_READABLE, edata = 0\<rparr>
      (srv0\<lparr>rx := \<lambda>_. map RData [[3, 8], [9, 2], [7, 4, 1]], tx := \<lambda>_. [WAccept 3, WAccept 5], srv_msgDecodeCb := Some 0\<rparr>) = Done () s1 \<and>
    turns (echo_dispatch (\<lambda>c s. Done () s)) 0 (Suc (Suc 0)) (s1\<lparr>current := 1\<rparr>) = Done () s2 \<and>
    run_functors (server_call map_ctl (ufns0\<lparr>u_decode := \<lambda>f bs n s. Done (frame_length bs) s\<rparr>) 11) (extraEvents s2)
      (s2\<lparr>current := threadId s2\<rparr>) = Done () s3 \<and> wire s3 7 = [3, 8, 9, 2, 7]"
proof -
  let ?s = "srv0\<lparr>rx := \<lambda>_. map RData [[3, 8], [9, 2], [7, 4, 1]], tx := \<lambda>_. [WAccept 3, WAccept 5], srv_msgDecodeCb := Some 0\<rparr>"
  let ?U = "ufns0\<lparr>u_decode := \<lambda>f bs n s. Done (frame_length bs) s\<rparr>" and ?bs = "[3, 8, 9, 2, 7, 4, 1] :: byte list"
  let ?cb = "server_lent_cbs ?U (server_call map_ctl ?U 10)"
  have split: "split_frames frame_length (content (readBuff sconn) @ concat [[3, 8], [9, 2], [7, 4, 1]]) = ([[3, 8, 9], [2, 7]], [4, 1])"
    by (simp add: sconn_def bwf_sbuf split_frames.simps [of _ ?bs] split_frames.simps [of _ "[2, 7, 4, 1]"]
        split_frames.simps [of _ "[4, 1]"] frame_length_def Let_def)
  have dec: "\<forall>bs. bs \<noteq> [] \<longrightarrow> frame_length bs = -1 \<or> frame_length bs = -2 \<or> 0 < frame_length bs"
    using uint_ge_0 by (auto simp: frame_length_def Let_def order_less_le)
  have u: "server_decodes ?U (srv_msgDecodeCb ?s) frame_length" by (simp add: server_decodes_def)
  have c: "conns ?s 0 = Some sconn" "decodeCb sconn = Some ServerDecode" "msgCommitCb sconn = Some ServerMessage"
    "readBuff sconn = sbuf []" "writeBuff sconn = sbuf []" "unat (writerIndex (sbuf [])) = 4" "some_running ?s"
    by (simp_all add: sconn_def sbuf_def) (use srv0_ok(3) in \<open>simp add: some_running_def\<close>)
  have m: "chan_ok (msgQueue ?s)" "queue (msgQueue ?s) = []" "hasGroup (handleWorkers ?s ! 0)" "conn_fd sconn = 7"
    "serverAlive ?s" "extraEvents ?s = []" "wakeupFd ?s = 4" "threadId ?s = 0" "tx ?s 7 = map WAccept [3, 5] @ []" "wire ?s 7 = []"
    by (simp_all add: xChan_new_def chan_ok_def atomic_new_def) (simp_all add: srv0_def)
  have silent: "silent_sent ?cb sconn"
    by (simp add: silent_sent_def sconn_def server_cbs_def server_defaultSentBytes_def ufns0_def split: option.split)
  have ready: "send_ready map_ctl (\<lambda>m. m) (\<lambda>fd. True) ?cb 7 0 ?s"
    unfolding send_ready_def
    using map_ctl_spec srv0_ok(1,2) silent c m by (simp add: bwf_sbuf mirror_def isLoopThread_def)
  show ?thesis
    using requests_are_answered [where n = 10 and h = 0 and ctl = map_ctl and junk = "[]" and d = 0 and w = 1 and call = "\<lambda>c s. Done () s"
        and view = "\<lambda>m. m" and usable = "\<lambda>fd. True" and ks = "[3, 5]" and ws = "[]", OF dec u c(1-3) _ _ _ _ _ _ _ _ _ c(7) _ _ _ _ split] m ready c
    by (simp add: bwf_sbuf vec_max_def del: turns.simps run_functors.simps server_call.simps) blast
qed

end
