(* ===== verification/Conn_Host.thy ===== *)
theory Conn_Host
  imports Framing
begin

text \<open>
  The owner of connections, the server or the client, as an interface. A connection calls its owner
  back for each message, for sent bytes and when it closes; in return for these callbacks keeping
  the owner's invariant, every operation of \<^verbatim>\<open>net/connection.cpp\<close> ends normally and keeps
  it, on any answers of the kernel.
\<close>

section \<open>Buffers of bounded size\<close>

text \<open>
  A buffer that holds fewer than 2 ^ 31 bytes has a vector of at most twice that and a bit, so
  its indices never come near the end of \<^verbatim>\<open>size_t\<close>.
\<close>

definition sized :: "xBuffer \<Rightarrow> bool" where
  "sized b \<longleftrightarrow> bwf b \<and> length (content b) < 2 ^ 31 \<and> length (buffer b) \<le> 2 ^ 33"

lemma sizedD: "sized b \<Longrightarrow> bwf b" "sized b \<Longrightarrow> length (content b) < 2 ^ 31"
  "sized b \<Longrightarrow> unat (writerIndex b) \<le> 2 ^ 33"
  using bwfD(2) [of b] by (auto simp: sized_def)

lemma sized_grown:
  assumes "sized b" and "bwf b'" and "length (content b') < 2 ^ 31"
    and "length (buffer b') \<le> max (length (buffer b)) (2 * length (content b') + 4)"
  shows "sized b'"
proof -
  have "length (buffer b) \<le> 2 ^ 33" "2 * length (content b') + 4 \<le> 2 ^ 33"
    using assms(1,3) by (simp_all add: sized_def)
  then have "length (buffer b') \<le> 2 ^ 33" using assms(4) by linarith
  then show ?thesis using assms(2,3) by (simp add: sized_def)
qed

lemma sized_taken: "sized b \<Longrightarrow> bwf b' \<Longrightarrow> length (content b') \<le> length (content b) \<Longrightarrow> buffer b' = buffer b \<Longrightarrow> sized b'"
  by (auto simp: sized_def)

lemma append_string_sized:
  assumes "sized b" and "length (content b) + length str < 2 ^ 31"
  obtains b' where "append_string str b = Inr b'" and "sized b'" and "content b' = content b @ str"
proof -
  have w: "unat (writerIndex b) + length str \<le> vec_max" and n: "unat (of_nat (length str) :: size_t) = length str"
    using sizedD(3) [OF assms(1)] assms(2) by (auto simp: vec_max_def intro!: unat_size_of_nat)
  obtain b' where b': "append_string str b = Inr b'" "bwf b'" "content b' = content b @ str"
    "length (buffer b') \<le> max (length (buffer b)) (2 * length (content b @ str) + 4)"
    using append_grows [OF sizedD(1) [OF assms(1)] n w] by (auto simp: append_string_def)
  have "sized b'"
    by (rule sized_grown [OF assms(1) b'(2)]) (use b'(3,4) assms(2) in simp_all)
  with b'(1) show ?thesis using b'(3) by (rule that)
qed

text \<open>What the kernel will deliver on a descriptor.\<close>

fun data_bytes :: "rd_res list \<Rightarrow> nat" where
  "data_bytes [] = 0"
| "data_bytes (RData ds # rs) = length ds + data_bytes rs"
| "data_bytes (RErr e # rs) = data_bytes rs"

text \<open>Filling the read buffer ends well on any answers: data, errors and the end of the stream, in any order.\<close>

lemma fill_loop_any:
  "sized b \<Longrightarrow> length (content b) + data_bytes rs < 2 ^ 31 \<Longrightarrow> k + data_bytes rs < 2 ^ 31 \<Longrightarrow>
    \<exists>r b' rs'. fill_loop rs b k = Inr (r, b', rs') \<and> sized b' \<and> length (content b') \<le> length (content b) + data_bytes rs \<and>
      data_bytes rs' \<le> data_bytes rs"
proof (induction rs b k rule: fill_loop.induct)
  case (1 b readSize)
  then show ?case by simp
next
  case (2 r rs b k)
  show ?case
  proof (cases r)
    case (RErr e)
    then show ?thesis
      using 2(2,3) fillFromFd_error [of b e] by (cases "e = EAGAIN") (auto simp: sizedD)
  next
    case (RData ds)
    define got where "got = take (fill_room b) ds"
    have le: "length got \<le> length ds" by (simp add: got_def)
    have "unat (writerIndex b) + length got \<le> vec_max"
      using sizedD(3) [OF 2(2)] 2(3) RData le by (simp add: vec_max_def)
    then obtain b1 where b1: "fillFromFd (RData ds) b = Inr (Bytes (length got), b1)" "bwf b1" "content b1 = content b @ got"
      "length (buffer b1) \<le> max (length (buffer b)) (2 * length (content b1) + 4)"
      using fillFromFd_ok [OF sizedD(1) [OF 2(2)], of ds, folded got_def] by metis
    have c1: "length (content b1) = length (content b) + length got" using b1(3) by simp
    have s1: "sized b1"
      by (rule sized_grown [OF 2(2) b1(2) _ b1(4)]) (use c1 le 2(3) RData in simp)
    show ?thesis
    proof (cases "length got = 0")
      case True
      then show ?thesis using RData b1(1) s1 c1 by simp
    next
      case False
      have "\<not> 2 ^ 31 \<le> k + length got" using le 2(4) RData by simp
      moreover have "length (content b1) + data_bytes rs < 2 ^ 31" "k + length got + data_bytes rs < 2 ^ 31"
        using c1 le 2(3,4) RData by simp_all
      ultimately obtain r' b' rs' where "fill_loop rs b1 (k + length got) = Inr (r', b', rs')" "sized b'"
        "length (content b') \<le> length (content b1) + data_bytes rs" "data_bytes rs' \<le> data_bytes rs"
        using "2.IH" [OF refl False _ s1] RData b1(1) by auto
      moreover have "fill_loop (r # rs) b k = fill_loop rs b1 (k + length got)"
        using b1(1) False \<open>\<not> 2 ^ 31 \<le> k + length got\<close> RData by simp
      ultimately show ?thesis
        using RData c1 le by (intro exI [of _ r'] exI [of _ b'] exI [of _ rs']) (simp del: fill_loop.simps)
    qed
  qed
qed

text \<open>Any decoder that says an error, too little, or a positive length.\<close>

definition proper_decoder :: "(byte list \<Rightarrow> int) \<Rightarrow> bool" where
  "proper_decoder dec \<longleftrightarrow> (\<forall>bs. bs \<noteq> [] \<longrightarrow> dec bs = -1 \<or> dec bs = -2 \<or> 0 < dec bs)"

text \<open>A connection object between two events: connected, or on the way out.\<close>

definition owned :: "xConnection \<Rightarrow> bool" where
  "owned c \<longleftrightarrow> sized (readBuff c) \<and> sized (writeBuff c) \<and> decodeCb c \<noteq> None \<and> msgCommitCb c \<noteq> None \<and>
     (isConnected c \<or> closed c)"

lemma ownedD: "owned c \<Longrightarrow> bwf (readBuff c)" "owned c \<Longrightarrow> bwf (writeBuff c)" "owned c \<Longrightarrow> length (content (writeBuff c)) < 2 ^ 31"
  "owned c \<Longrightarrow> length (content (readBuff c)) < 2 ^ 31"
  by (simp_all add: owned_def sized_def)

lemma isConnected_fields [simp]:
  "isConnected (c\<lparr>readBuff := b\<rparr>) = isConnected c" "isConnected (c\<lparr>writeBuff := b\<rparr>) = isConnected c"
  "isConnected (c\<lparr>writeEnabled := w\<rparr>) = isConnected c"
  by (simp_all add: isConnected_def)

section \<open>The contract\<close>

text \<open>
  \<open>Inv\<close> is the owner's invariant in the loop thread, and \<open>Keep s t\<close> says that the owner goes from
  \<open>s\<close> to \<open>t\<close> with it. The laws are: what the owner has to bear (a buffer replaced by another of
  bounded size, answers of the kernel used up, a change of the write interest), what its callbacks
  for sent bytes, messages and closing do, and that its decoder is a proper one. \<open>waiting\<close> is the
  number of messages that it has taken and still holds; there is room for another.
\<close>

locale conn_owner =
  fixes ctl :: "'k epoll_ctl"
    and view :: "'k \<Rightarrow> int \<Rightarrow> int32 option"
    and usable :: "int \<Rightarrow> bool"
    and cb :: "('k, 'z) net_state_scheme cbs"
    and dec :: "byte list \<Rightarrow> int"
    and Inv :: "('k, 'z) net_state_scheme \<Rightarrow> bool"
    and Keep :: "('k, 'z) net_state_scheme \<Rightarrow> ('k, 'z) net_state_scheme \<Rightarrow> bool"
    and waiting :: "('k, 'z) net_state_scheme \<Rightarrow> nat"
  assumes kernel: "Inv s \<Longrightarrow> epoll_ctl_spec ctl view usable \<and> mirror view s \<and> isLoopThread s"
    and proper: "Inv s \<Longrightarrow> proper_decoder dec"
    and objects: "Inv s \<Longrightarrow> conns s i = Some c \<Longrightarrow> owned c"
    and refl: "Inv s \<Longrightarrow> Keep s s"
    and trans: "Keep s t \<Longrightarrow> Keep t u \<Longrightarrow> Keep s u"
    and kept: "Keep s t \<Longrightarrow> Inv t"
    and alive: "Keep s t \<Longrightarrow> conns s i = Some c \<Longrightarrow> \<exists>c'. conns t i = Some c'"
    and put_read: "Inv s \<Longrightarrow> conns s i = Some c \<Longrightarrow> sized b \<Longrightarrow> Keep s (put_conn i (c\<lparr>readBuff := b\<rparr>) s)"
    and put_write: "Inv s \<Longrightarrow> conns s i = Some c \<Longrightarrow> sized b \<Longrightarrow> Keep s (put_conn i (c\<lparr>writeBuff := b\<rparr>) s)"
    and read_used: "Inv s \<Longrightarrow> Keep s (s\<lparr>rx := r\<rparr>)"
    and written: "Inv s \<Longrightarrow> Keep s (s\<lparr>tx := a, wire := w\<rparr>)"
    and interest: "Inv s \<Longrightarrow> conns s i = Some c \<Longrightarrow> mirror view (s\<lparr>register := interest_after c (register s), kern := k\<rparr>) \<Longrightarrow>
      Keep s (put_conn i (c\<lparr>writeEnabled := e\<rparr>) (s\<lparr>register := interest_after c (register s), kern := k\<rparr>))"
    and sent: "Inv s \<Longrightarrow> conns s i = Some c \<Longrightarrow>
      \<exists>t. catchS (case sentBytesCb c of None \<Rightarrow> Done () s | Some f \<Rightarrow> sent_fn cb f i n s) (\<lambda>e s. Done () s) = Done () t \<and> Keep s t"
    and decodes: "Inv s \<Longrightarrow> conns s i = Some c \<Longrightarrow> decodeCb c = Some f \<Longrightarrow> Inv t \<Longrightarrow>
      decode_fn cb f bs (int (length bs)) t = Done (dec bs) t"
    and commits: "Inv s \<Longrightarrow> conns s i = Some c \<Longrightarrow> msgCommitCb c = Some f \<Longrightarrow> bwf b \<Longrightarrow> 4 \<le> unat (readerIndex b) \<Longrightarrow>
      Suc (waiting s) < 2 ^ 31 \<Longrightarrow>
      \<exists>b' t. commit_fn cb f i b s = Done b' t \<and> bwf b' \<and> Keep s t \<and> waiting t \<le> Suc (waiting s) \<and>
        (\<exists>d. conns t i = Some d \<and> readBuff d = readBuff c)"
    and waiting_put: "waiting (put_conn i c s) = waiting s"
    and waiting_read: "waiting (s\<lparr>rx := r\<rparr>) = waiting s"
    and closes: "Inv s \<Longrightarrow> conns s i = Some c \<Longrightarrow> isConnected c \<Longrightarrow>
      s1 = put_conn i (c\<lparr>connStatus := XF_CONN_STATUS_DISCONNECTING\<rparr>) s\<lparr>register := (register s)(conn_fd c := None), kern := k\<rparr> \<Longrightarrow>
      mirror view s1 \<Longrightarrow>
      \<exists>t. catchS (if connCloseCb c \<noteq> None then call_conn cb (connCloseCb c) i s1 else Done () s1) (\<lambda>e s. Done () s) = Done () t \<and>
        Keep s t"
begin

lemma send_interest_keeps:
  assumes i: "Inv s" and c: "conns s i = Some c"
  obtains t where "send_interest ctl i s = Done () t" and "Keep s t"
proof -
  have k: "epoll_ctl_spec ctl view usable" "mirror view s" "isLoopThread s" using kernel [OF i] by simp_all
  obtain m where "send_interest ctl i s = Done ()
      (put_conn i (c\<lparr>writeEnabled := content (writeBuff c) \<noteq> []\<rparr>) (s\<lparr>register := interest_after c (register s), kern := m\<rparr>))"
    "mirror view (s\<lparr>register := interest_after c (register s), kern := m\<rparr>)"
    by (rule send_interest_ok [OF k c ownedD(2) [OF objects [OF i c]]])
  then show ?thesis using interest [OF i c] that by blast
qed

text \<open>The part of a send after the kernel has taken \<open>n\<close> bytes.\<close>

lemma after_write_keeps:
  assumes i: "Inv s" and c: "conns s i = Some c" and n: "n \<le> length (content (writeBuff c))"
  obtains b t u where "moveOver (of_nat n) (writeBuff c) = Inr b"
    and "catchS (case sentBytesCb c of None \<Rightarrow> Done () (put_conn i (c\<lparr>writeBuff := b\<rparr>) s)
        | Some f \<Rightarrow> sent_fn cb f i n (put_conn i (c\<lparr>writeBuff := b\<rparr>) s)) (\<lambda>e s. Done () s) = Done () t"
    and "send_interest ctl i t = Done () u" and "Keep s u"
proof -
  have wb: "sized (writeBuff c)" using objects [OF i c] by (simp add: owned_def)
  have un: "unat (of_nat n :: size_t) = n" using n sizedD(2) [OF wb] by (intro unat_size_of_nat) simp
  obtain b where b: "moveOver (of_nat n) (writeBuff c) = Inr b" "bwf b" "content b = drop n (content (writeBuff c))" "buffer b = buffer (writeBuff c)"
    using moveOver_ok [OF sizedD(1) [OF wb], of "of_nat n"] n un by metis
  have "sized b" by (rule sized_taken [OF wb b(2) _ b(4)]) (simp add: b(3))
  then have k2: "Keep s (put_conn i (c\<lparr>writeBuff := b\<rparr>) s)" (is "Keep s ?s2") by (rule put_write [OF i c])
  obtain t where t: "catchS (case sentBytesCb c of None \<Rightarrow> Done () ?s2 | Some f \<Rightarrow> sent_fn cb f i n ?s2) (\<lambda>e s. Done () s) = Done () t" "Keep ?s2 t"
    using sent [OF kept [OF k2], of i "c\<lparr>writeBuff := b\<rparr>" n] by auto
  obtain d where d: "conns t i = Some d" using alive [OF t(2), of i] by auto
  obtain u where "send_interest ctl i t = Done () u" "Keep t u"
    by (rule send_interest_keeps [OF kept [OF t(2)] d])
  then show ?thesis using b(1) t(1) trans [OF k2] trans [OF t(2)] by (intro that [of b t u]) auto
qed

lemma conn_sendMsg_keeps:
  assumes i: "Inv s" and c: "conns s i = Some c"
  obtains r t where "conn_sendMsg ctl cb i s = Done r t" and "Keep s t"
proof (cases "isConnected c")
  case False
  then show ?thesis using c refl [OF i] by (intro that [of "-1" s]) (simp_all add: conn_sendMsg_def)
next
  case conn: True
  let ?wb = "writeBuff c" and ?fd = "conn_fd c"
  have b: "bwf ?wb" "length (content ?wb) < 2 ^ 31" using ownedD(2,3) [OF objects [OF i c]] by simp_all
  note R = readable_0 [OF b(1)]
  show ?thesis
  proof (cases "content ?wb = []")
    case True
    obtain t where "send_interest ctl i s = Done () t" "Keep s t" using i c by (rule send_interest_keeps)
    then show ?thesis using True c conn R by (intro that [of 0 t]) (simp_all add: conn_sendMsg_def)
  next
    case False
    obtain r acc ws where w: "write_loop (tx s ?fd) (content ?wb) 0 = (r, acc, ws)" by (rule prod_cases3)
    let ?s1 = "s\<lparr>tx := (tx s)(?fd := ws), wire := (wire s)(?fd := wire s ?fd @ acc)\<rparr>"
    note io = written [OF i, where a = "(tx s)(?fd := ws)" and w = "(wire s)(?fd := wire s ?fd @ acc)"]
    show ?thesis
    proof (cases r)
      case (Failed e)
      then show ?thesis using conn_sendMsg_failed [OF c conn b] w io by (intro that) auto
    next
      case (Bytes n)
      have "n = length acc" "acc = take (length acc) (content ?wb)"
        using write_loop_count [OF w [unfolded Bytes]] write_loop_prefix [OF w [unfolded Bytes]] by simp_all
      then have le: "n \<le> length (content ?wb)" by (metis length_take min.cobounded1)
      have "conns ?s1 i = Some c" using c by simp
      from after_write_keeps [OF kept [OF io] this le] obtain b' t u where
        k: "moveOver (of_nat n) ?wb = Inr b'"
          "catchS (case sentBytesCb c of None \<Rightarrow> Done () (put_conn i (c\<lparr>writeBuff := b'\<rparr>) ?s1)
            | Some f \<Rightarrow> sent_fn cb f i n (put_conn i (c\<lparr>writeBuff := b'\<rparr>) ?s1)) (\<lambda>e s. Done () s) = Done () t"
          "send_interest ctl i t = Done () u" "Keep ?s1 u"
        by metis
      have "conn_sendMsg ctl cb i s = Done (int n) u"
        using c conn False R sys_write_content [OF b, of ?fd s] w Bytes k(1-3) by (simp add: conn_sendMsg_def Let_def)
      then show ?thesis using trans [OF io k(4)] by (rule that)
    qed
  qed
qed

lemma sendMsgToBuffer_keeps:
  assumes i: "Inv s" and c: "conns s i = Some c" and room: "length (content (writeBuff c)) + length msg < 2 ^ 31"
  obtains t where "sendMsgToBuffer ctl cb i msg s = Done () t" and "Keep s t"
proof -
  have "sized (writeBuff c)" using objects [OF i c] by (simp add: owned_def)
  then obtain b where b: "append_string msg (writeBuff c) = Inr b" "sized b"
    using append_string_sized [OF _ room] by metis
  note k = put_write [OF i c b(2)]
  let ?s = "put_conn i (c\<lparr>writeBuff := b\<rparr>) s"
  have "conns ?s i = Some (c\<lparr>writeBuff := b\<rparr>)" by simp
  from conn_sendMsg_keeps [OF kept [OF k] this] obtain r t where "conn_sendMsg ctl cb i ?s = Done r t" "Keep ?s t"
    by metis
  then show ?thesis using c b(1) trans [OF k] by (intro that [of t]) (simp_all add: sendMsgToBuffer_def)
qed

section \<open>Closing\<close>

lemma closeConn_keeps:
  assumes i: "Inv s" and c: "conns s i = Some c"
  obtains t where "closeConn ctl cb i s = Done 0 t" and "Keep s t"
proof (cases "closed c")
  case True
  then show ?thesis using closeConn_closed [OF _ c] kernel [OF i] refl [OF i] by (intro that) auto
next
  case False
  then have on: "isConnected c" using objects [OF i c] by (simp add: owned_def)
  have k: "epoll_ctl_spec ctl view usable" "isLoopThread s" and m: "mirror view s" using kernel [OF i] by simp_all
  let ?s1 = "put_conn i (c\<lparr>connStatus := XF_CONN_STATUS_DISCONNECTING\<rparr>) s"
  have "mirror view ?s1" "isLoopThread ?s1" using m k(2) by simp_all
  from loop_remove_ok [OF k(1) this] obtain n where n:
    "loop_remove ctl (conn_fd c) ?s1 = Done 0 (?s1\<lparr>register := (register ?s1)(conn_fd c := None), kern := n\<rparr>)"
    "mirror view (?s1\<lparr>register := (register ?s1)(conn_fd c := None), kern := n\<rparr>)"
    by metis
  let ?s2 = "?s1\<lparr>register := (register s)(conn_fd c := None), kern := n\<rparr>"
  have "mirror view ?s2" using n(2) by simp
  from closes [OF i c on HOL.refl this] obtain t where
    "catchS (if connCloseCb c \<noteq> None then call_conn cb (connCloseCb c) i ?s2 else Done () ?s2) (\<lambda>e s. Done () s) = Done () t" "Keep s t"
    by blast
  then show ?thesis
    using k(2) c False n(1) by (cases "connCloseCb c"; intro that [of t]) (auto simp: closeConn_def closed_def Let_def)
qed

lemma closeConnection_keeps:
  assumes i: "Inv s" and c: "conns s i = Some c"
  obtains t where "closeConnection ctl cb call i s = Done () t" and "Keep s t"
proof -
  obtain t where "closeConn ctl cb i s = Done 0 t" "Keep s t" using i c by (rule closeConn_keeps)
  then show ?thesis
    using c kernel [OF i] refl [OF i] that by (cases "connStatus c = XF_CONN_STATUS_CONNECTED") (auto simp: closeConnection_def)
qed

section \<open>Receiving\<close>

text \<open>One message is taken out of the read buffer and given to the owner.\<close>

lemma commit_message_keeps:
  assumes i: "Inv s" and c: "conns s i = Some c" and n: "n \<le> length (content (readBuff c))" and room: "Suc (waiting s) < 2 ^ 31"
  obtains t d where "commit_message cb i (int n) s = Done () t" and "Keep s t" and "waiting t \<le> Suc (waiting s)"
    and "conns t i = Some d" and "length (content (readBuff d)) = length (content (readBuff c)) - n"
proof -
  have o: "bwf (readBuff c)" "length (content (readBuff c)) < 2 ^ 31" "sized (readBuff c)"
    using objects [OF i c] by (simp_all add: owned_def sized_def)
  obtain f where f: "msgCommitCb c = Some f" using objects [OF i c] by (auto simp: owned_def)
  have "n < 2 ^ 31" using n o(2) by simp
  from commit_message_calls [OF c o(1) f n this, of cb] obtain b rb where
    k: "commit_message cb i (int n) s =
      bindS (commit_fn cb f i b (put_conn i (c\<lparr>readBuff := rb\<rparr>) s)) (\<lambda>b s. bindS (liftS (toString b) s) (\<lambda>_ s. Done () s))"
    and b: "bwf b" "4 \<le> unat (readerIndex b)"
    and rb: "bwf rb" "content rb = drop n (content (readBuff c))" "buffer rb = buffer (readBuff c)"
    by metis
  let ?s = "put_conn i (c\<lparr>readBuff := rb\<rparr>) s"
  have "sized rb" by (rule sized_taken [OF o(3) rb(1) _ rb(3)]) (simp add: rb(2))
  note p = put_read [OF i c this]
  have pre: "conns ?s i = Some (c\<lparr>readBuff := rb\<rparr>)" "msgCommitCb (c\<lparr>readBuff := rb\<rparr>) = Some f" "Suc (waiting ?s) < 2 ^ 31"
    using f room by (simp_all add: waiting_put)
  obtain b' t d where t: "commit_fn cb f i b ?s = Done b' t" "bwf b'" "Keep ?s t" "waiting t \<le> Suc (waiting ?s)"
    "conns t i = Some d" "readBuff d = rb"
    using commits [OF kept [OF p] pre(1,2) b pre(3)] by auto
  show ?thesis
    using k t rb(2) trans [OF p t(3)] by (intro that [of t d]) (simp_all add: toString_ok waiting_put)
qed

text \<open>The loop ends, because each message is taken out of the buffer.\<close>

lemma parse_loop_keeps:
  "Inv s \<Longrightarrow> conns s i = Some c \<Longrightarrow> waiting s + length (content (readBuff c)) < 2 ^ 31 \<Longrightarrow> length (content (readBuff c)) < n \<Longrightarrow>
    (\<And>bs t. Inv t \<Longrightarrow> decode_fn cb dcb bs (int (length bs)) t = Done (dec bs) t) \<Longrightarrow>
    \<exists>t. parse_loop cb dcb i n s = Done () t \<and> Keep s t"
proof (induction n arbitrary: s c)
  case 0
  then show ?case by simp
next
  case (Suc n)
  note i = Suc.prems(1) and c = Suc.prems(2)
  let ?bs = "content (readBuff c)"
  have b: "bwf (readBuff c)" "length ?bs < 2 ^ 31" "sized (readBuff c)" using objects [OF i c] by (simp_all add: owned_def sized_def)
  note ios = int_of_readable [OF b(1,2)] and R = readable_0 [OF b(1)] and d = Suc.prems(5) [OF i, of ?bs]
  show ?case
  proof (cases "?bs = []")
    case True
    then show ?thesis using c R refl [OF i] by (intro exI [of _ s]) simp
  next
    case False
    consider "dec ?bs = -1" | "dec ?bs = -2" | (msg) "0 < dec ?bs" using proper [OF i] False unfolding proper_decoder_def by blast
    then show ?thesis
    proof cases
      case 1
      have "sized (reset (readBuff c))" by (rule sized_taken [OF b(3)]) (simp_all add: b(1))
      from put_read [OF i c this] show ?thesis
        using c False R ios d 1 b(1) by (intro exI [of _ "put_conn i (c\<lparr>readBuff := reset (readBuff c)\<rparr>) s"])
          (simp add: toString_ok XF_MSG_DECODE_ERR_def)
    next
      case 2
      then show ?thesis
        using c False R ios d b(1) refl [OF i] by (intro exI [of _ s])
          (simp add: toString_ok XF_MSG_DECODE_ERR_def XF_MSG_DECODE_NOT_ENOUGH_def)
    next
      case msg
      let ?n = "nat (min (dec ?bs) (int (length ?bs)))"
      have m: "0 < ?n" "?n \<le> length ?bs" and ret: "(if int (length ?bs) < dec ?bs then int (length ?bs) else dec ?bs) = int ?n"
        using msg False by auto
      have "Suc (waiting s) < 2 ^ 31" using Suc.prems(3) m by linarith
      from commit_message_keeps [OF i c m(2) this] obtain t e where t: "commit_message cb i (int ?n) s = Done () t" "Keep s t"
        "waiting t \<le> Suc (waiting s)" "conns t i = Some e" "length (content (readBuff e)) = length ?bs - ?n"
        by metis
      have "waiting t + length (content (readBuff e)) < 2 ^ 31" "length (content (readBuff e)) < n"
        using t(3,5) m Suc.prems(3,4) by linarith+
      then obtain u where u: "parse_loop cb dcb i n t = Done () u" "Keep t u"
        using Suc.IH [OF kept [OF t(2)] t(4) _ _ Suc.prems(5)] by blast
      have "parse_loop cb dcb i (Suc n) s = parse_loop cb dcb i n t"
        using c False R ios d msg b(1) t(1) ret by (simp add: toString_ok XF_MSG_DECODE_ERR_def XF_MSG_DECODE_NOT_ENOUGH_def Let_def)
      then show ?thesis using u trans [OF t(2)] by auto
    qed
  qed
qed

lemma parseProtocol_keeps:
  assumes i: "Inv s" and c: "conns s i = Some c" and "waiting s + length (content (readBuff c)) < 2 ^ 31"
    and "length (content (readBuff c)) < n"
  obtains t where "parseProtocol cb n i s = Done () t" and "Keep s t"
proof -
  obtain f where f: "decodeCb c = Some f" using objects [OF i c] by (auto simp: owned_def)
  have "\<exists>t. parse_loop cb f i n s = Done () t \<and> Keep s t"
    using assms decodes [OF i c f] by (rule parse_loop_keeps)
  then show ?thesis using c f that by (auto simp: parseProtocol_def)
qed

text \<open>
  Reading takes whatever the kernel gives, data in pieces, errors, the end of the stream, as long
  as it fits.
\<close>

lemma readMsg_keeps:
  assumes i: "Inv s" and c: "conns s i = Some c"
    and room: "waiting s + length (content (readBuff c)) + data_bytes (rx s (conn_fd c)) < 2 ^ 31"
    and fuel: "length (content (readBuff c)) + data_bytes (rx s (conn_fd c)) < n"
  obtains r t where "readMsg cb n i s = Done r t" and "Keep s t"
proof -
  let ?rx = "rx s (conn_fd c)"
  have "sized (readBuff c)" using objects [OF i c] by (simp add: owned_def)
  then obtain r b rs where b: "fill_loop ?rx (readBuff c) 0 = Inr (r, b, rs)" "sized b"
    "length (content b) \<le> length (content (readBuff c)) + data_bytes ?rx"
    using fill_loop_any [of "readBuff c" ?rx 0] room by auto
  let ?u = "s\<lparr>rx := (rx s)(conn_fd c := rs)\<rparr>"
  let ?s = "put_conn i (c\<lparr>readBuff := b\<rparr>) ?u"
  note u = read_used [OF i, of "(rx s)(conn_fd c := rs)"]
  have "conns ?u i = Some c" using c by simp
  from put_read [OF kept [OF u] this b(2)] have "Keep ?u ?s" .
  then have k: "Keep s ?s" by (rule trans [OF u])
  show ?thesis
  proof (cases "r = None \<or> r = Some 0")
    case True
    then show ?thesis using c b(1) k by (intro that [of "if r = None then -1 else 0" ?s]) (auto simp: readMsg_def Let_def)
  next
    case False
    then obtain m where m: "r = Some m" "0 < m" by (cases r) auto
    have "conns ?s i = Some (c\<lparr>readBuff := b\<rparr>)" "waiting ?s + length (content (readBuff (c\<lparr>readBuff := b\<rparr>))) < 2 ^ 31"
      "length (content (readBuff (c\<lparr>readBuff := b\<rparr>))) < n"
      using b(3) room fuel by (simp_all add: waiting_put waiting_read)
    from parseProtocol_keeps [OF kept [OF k] this] obtain t where t: "parseProtocol cb n i ?s = Done () t" "Keep ?s t"
      by metis
    have "readMsg cb n i s = Done (int m) t"
      using c b(1) m t(1) by (simp add: readMsg_def Let_def)
    then show ?thesis using trans [OF k t(2)] by (rule that)
  qed
qed

section \<open>Events\<close>

lemma close_event_keeps:
  assumes i: "Inv s" and c: "conns s i = Some c" and k: "Keep s t"
  shows "\<exists>u. bindS (closeConn ctl cb i t) (\<lambda>_ s. Done () s) = Done () u \<and> Keep s u"
proof -
  obtain d where "conns t i = Some d" using alive [OF k c] by auto
  then obtain u where "closeConn ctl cb i t = Done 0 u" "Keep t u" by (rule closeConn_keeps [OF kept [OF k]])
  then show ?thesis using trans [OF k] by auto
qed

lemma HandleEvent_keeps:
  assumes i: "Inv s" and c: "conns s i = Some c"
    and room: "waiting s + length (content (readBuff c)) + data_bytes (rx s (conn_fd c)) < 2 ^ 31"
    and fuel: "length (content (readBuff c)) + data_bytes (rx s (conn_fd c)) < n"
  obtains t where "HandleEvent ctl cb n i xe s = Done () t" and "Keep s t"
proof (cases "has (emask xe) XE_ERROR \<or> has (emask xe) XE_HUP")
  case True
  then show ?thesis using close_event_keeps [OF i c refl [OF i]] that by (auto simp: HandleEvent_def)
next
  case False
  obtain r1 s1 where s1: "(if has (emask xe) XE_READABLE then readMsg cb n i s else Done 0 s) = Done r1 s1" "Keep s s1"
    using readMsg_keeps [OF i c room fuel] refl [OF i] that by (metis (full_types))
  obtain d where d: "conns s1 i = Some d" using alive [OF s1(2) c] by auto
  obtain r2 s2 where s2: "(if has (emask xe) XE_WRITABLE then conn_sendMsg ctl cb i s1 else Done 0 s1) = Done r2 s2" "Keep s1 s2"
    using conn_sendMsg_keeps [OF kept [OF s1(2)] d] refl [OF kept [OF s1(2)]] that by (metis (full_types))
  note k2 = trans [OF s1(2) s2(2)]
  show ?thesis
    using False s1(1) s2(1) close_event_keeps [OF i c s1(2)] close_event_keeps [OF i c k2] k2 that
    by (cases "r1 < 0"; cases "r2 < 0") (auto simp: HandleEvent_def)
qed

end

text \<open>Other callbacks that the owner's objects cannot tell from these fulfil the contract as well.\<close>

lemma conn_owner_cong:
  assumes o: "conn_owner ctl view usable cb dec Inv Keep waiting"
    and same: "decode_fn cb' = decode_fn cb" "call_conn cb' = call_conn cb"
    and sent: "\<And>s i c f n. Inv s \<Longrightarrow> conns s i = Some c \<Longrightarrow> sentBytesCb c = Some f \<Longrightarrow> sent_fn cb' f i n s = sent_fn cb f i n s"
    and commits: "\<And>s i c f b. Inv s \<Longrightarrow> conns s i = Some c \<Longrightarrow> msgCommitCb c = Some f \<Longrightarrow> bwf b \<Longrightarrow>
      commit_fn cb' f i b s = commit_fn cb f i b s"
  shows "conn_owner ctl view usable cb' dec Inv Keep waiting"
proof (rule conn_owner.intro)
  fix s i c n
  assume i: "Inv s" "conns s i = Some c"
  have "(case sentBytesCb c of None \<Rightarrow> Done () s | Some f \<Rightarrow> sent_fn cb' f i n s) =
      (case sentBytesCb c of None \<Rightarrow> Done () s | Some f \<Rightarrow> sent_fn cb f i n s)"
    using sent [OF i] by (simp split: option.split)
  then show "\<exists>t. catchS (case sentBytesCb c of None \<Rightarrow> Done () s | Some f \<Rightarrow> sent_fn cb' f i n s) (\<lambda>e s. Done () s) = Done () t \<and> Keep s t"
    using conn_owner.sent [OF o i] by simp
next
  fix s i c f b
  assume i: "Inv s" "conns s i = Some c" "msgCommitCb c = Some f" "bwf b" and b: "4 \<le> unat (readerIndex b)" "Suc (waiting s) < 2 ^ 31"
  show "\<exists>b' t. commit_fn cb' f i b s = Done b' t \<and> bwf b' \<and> Keep s t \<and> waiting t \<le> Suc (waiting s) \<and>
      (\<exists>d. conns t i = Some d \<and> readBuff d = readBuff c)"
    unfolding commits [OF i] by (rule conn_owner.commits [OF o i b])
qed (unfold same, ((rule conn_owner.kernel [OF o]; assumption) |
    (rule conn_owner.proper [OF o]; assumption) |
    (rule conn_owner.objects [OF o]; assumption) |
    (rule conn_owner.refl [OF o]; assumption) |
    (rule conn_owner.trans [OF o]; assumption) |
    (rule conn_owner.kept [OF o]; assumption) |
    (rule conn_owner.alive [OF o]; assumption) |
    (rule conn_owner.put_read [OF o]; assumption) |
    (rule conn_owner.put_write [OF o]; assumption) |
    (rule conn_owner.read_used [OF o]; assumption) |
    (rule conn_owner.written [OF o]; assumption) |
    (rule conn_owner.interest [OF o]; assumption) |
    (rule conn_owner.decodes [OF o]; assumption) |
    (rule conn_owner.waiting_put [OF o]; assumption) |
    (rule conn_owner.waiting_read [OF o]; assumption) |
    (rule conn_owner.closes [OF o]; assumption))+)

end
