(* ===== verification/Server_Inv.thy ===== *)
theory Server_Inv
  imports Server_Laws Conn_Host
begin

text \<open>
  The state of a running server between two events: the map of connections, the register of the
  loop, the kernel's interest list and the connection objects agree, and every buffer is within
  the bounds that keep its arithmetic exact. Each operation of the loop thread keeps this.
\<close>

section \<open>The invariant\<close>

text \<open>
  A connection object as the server makes it, apart from its callback for finished connections;
  it is connected, or on the way out.
\<close>

definition srv_conn :: "xConnection \<Rightarrow> bool" where
  "srv_conn c \<longleftrightarrow> sized (readBuff c) \<and> sized (writeBuff c) \<and> decodeCb c = Some ServerDecode \<and>
     msgCommitCb c = Some ServerMessage \<and> sentBytesCb c = Some ServerSentBytes \<and> connCloseCb c = Some ServerClosed \<and>
     (isConnected c \<or> closed c)"

text \<open>
  The connected objects are those in the map of connections, and the descriptors in the map are
  those registered with the handler of a connection. Besides them only the wake-up descriptor and
  the listener are registered, and the listener for reading only.
\<close>

definition conns_wired :: "nat \<Rightarrow> int \<Rightarrow> (nat \<Rightarrow> xConnection option) \<Rightarrow> (int \<Rightarrow> nat option) \<Rightarrow> bool" where
  "conns_wired next ls C K \<longleftrightarrow> (\<forall>i c. C i = Some c \<longrightarrow>
     i < next \<and> srv_conn c \<and> conn_fd c \<noteq> ls \<and> (isConnected c \<longrightarrow> K (conn_fd c) = Some i))"

definition map_wired :: "(nat \<Rightarrow> xConnection option) \<Rightarrow> (int \<Rightarrow> nat option) \<Rightarrow> (int \<Rightarrow> xEventState option) \<Rightarrow> bool" where
  "map_wired C K R \<longleftrightarrow> (\<forall>fd i. K fd = Some i \<longrightarrow>
     (\<exists>c. C i = Some c \<and> conn_fd c = fd \<and> isConnected c) \<and> map_option es_callback (R fd) = Some (ConnHandleEvent i))"

definition reg_wired :: "int \<Rightarrow> int \<Rightarrow> (int \<Rightarrow> nat option) \<Rightarrow> (int \<Rightarrow> xEventState option) \<Rightarrow> bool" where
  "reg_wired wk ls K R \<longleftrightarrow> (\<forall>fd st. R fd = Some st \<longrightarrow>
     es_callback st = LoopWakeUp \<and> fd = wk \<or>
     es_callback st = ListenerHandleEvent \<and> es_mask st = XE_READABLE \<and> fd = ls \<or>
     (\<exists>i. es_callback st = ConnHandleEvent i \<and> K fd = Some i))"

definition wired :: "('k, 'z) srv_state_scheme \<Rightarrow> bool" where
  "wired s \<longleftrightarrow> conns_wired (nextConn s) (listenSock s) (conns s) (connections s) \<and>
     map_wired (conns s) (connections s) (register s) \<and>
     reg_wired (wakeupFd s) (listenSock s) (connections s) (register s)"

text \<open>The callbacks of the user that get a connection are functions of the user, or the group's.\<close>

fun user_close_cb :: "closure option \<Rightarrow> bool" where
  "user_close_cb None = True"
| "user_close_cb (Some f) = (\<exists>u. f = UserFn u)"

fun user_finish_cb :: "closure option \<Rightarrow> bool" where
  "user_finish_cb None = True"
| "user_finish_cb (Some f) = (f = GroupHandleConnected \<or> (\<exists>u. f = UserFn u))"

definition server_wf ::
    "('k \<Rightarrow> int \<Rightarrow> int32 option) \<Rightarrow> ('k, 'z) srv_state_scheme user_fns \<Rightarrow> (byte list \<Rightarrow> int) \<Rightarrow>
     ('k, 'z) srv_state_scheme \<Rightarrow> bool" where
  "server_wf view U dec s \<longleftrightarrow>
     mirror view s \<and> wired s \<and> server_decodes U (srv_msgDecodeCb s) dec \<and> newConnectionCb s = Some ServerAcceptNew \<and>
     valid (listenSock s) \<and> user_close_cb (srv_connCloseCb s) \<and> user_finish_cb (srv_connFinishedCb s) \<and>
     chan_ok (msgQueue s) \<and> (\<forall>b \<in> set (queue (msgQueue s)). bwf b \<and> 4 \<le> length (content b))"

text \<open>
  What an operation may do: it keeps the invariant, forgets no object, brings none back to life,
  stays on its thread, and leaves the list of fired events to the loop.
\<close>

definition keeps ::
    "('k \<Rightarrow> int \<Rightarrow> int32 option) \<Rightarrow> ('k, 'z) srv_state_scheme user_fns \<Rightarrow> (byte list \<Rightarrow> int) \<Rightarrow>
     ('k, 'z) srv_state_scheme \<Rightarrow> ('k, 'z) srv_state_scheme \<Rightarrow> bool" where
  "keeps view U dec s s' \<longleftrightarrow>
     server_wf view U dec s' \<and>
     (\<forall>i c. conns s i = Some c \<longrightarrow> (\<exists>c'. conns s' i = Some c' \<and> (isConnected c' \<longrightarrow> isConnected c))) \<and> threadId s' = threadId s \<and> current s' = current s \<and>
     fired s' = fired s"

lemma keeps_trans: "keeps view U dec s t \<Longrightarrow> keeps view U dec t u \<Longrightarrow> keeps view U dec s u"
  unfolding keeps_def by metis

lemma keeps_refl: "server_wf view U dec s \<Longrightarrow> keeps view U dec s s"
  by (simp add: keeps_def)

lemma keepsD:
  assumes "keeps view U dec s s'"
  shows "server_wf view U dec s'" "isLoopThread s' = isLoopThread s" "conns s i = Some c \<Longrightarrow> \<exists>c'. conns s' i = Some c' \<and> (isConnected c' \<longrightarrow> isConnected c)"
  using assms by (auto simp: keeps_def isLoopThread_def)

text \<open>The rules by which the state changes.\<close>

lemma wired_conn: "wired s \<Longrightarrow> conns s i = Some c \<Longrightarrow>
    i < nextConn s \<and> srv_conn c \<and> conn_fd c \<noteq> listenSock s \<and> (isConnected c \<longrightarrow> connections s (conn_fd c) = Some i)"
  unfolding wired_def conns_wired_def by blast

lemma map_wiredD:
  assumes "map_wired C K R" and "K fd = Some i"
  obtains c st where "C i = Some c" and "conn_fd c = fd" and "isConnected c" and "R fd = Some st" and "es_callback st = ConnHandleEvent i"
  using assms unfolding map_wired_def by (metis option.map_disc_iff option.map_sel option.sel option.collapse option.distinct(1))

lemma wired_map:
  assumes "wired s" and "connections s fd = Some i"
  obtains c st where "conns s i = Some c" and "conn_fd c = fd" and "isConnected c" and "register s fd = Some st"
    and "es_callback st = ConnHandleEvent i"
  using assms map_wiredD [of "conns s" "connections s" "register s"] unfolding wired_def by metis

lemma conns_wired_put:
  "conns_wired nx ls C K \<Longrightarrow> C i = Some c \<Longrightarrow> conn_fd c' = conn_fd c \<Longrightarrow> (isConnected c' \<Longrightarrow> isConnected c) \<Longrightarrow> srv_conn c' \<Longrightarrow>
    conns_wired nx ls (C(i \<mapsto> c')) K"
  by (auto simp: conns_wired_def)

lemma map_wired_put:
  "map_wired C K R \<Longrightarrow> C i = Some c \<Longrightarrow> conn_fd c' = conn_fd c \<Longrightarrow> isConnected c' = isConnected c \<Longrightarrow> map_wired (C(i \<mapsto> c')) K R"
  by (fastforce simp: map_wired_def)

lemma wired_put:
  assumes "wired s" and "conns s i = Some c" and "conn_fd c' = conn_fd c" and "isConnected c' = isConnected c" and "srv_conn c'"
  shows "wired (put_conn i c' s)"
  using assms conns_wired_put [of "nextConn s" "listenSock s" "conns s" "connections s" i c c'] map_wired_put [of "conns s" "connections s" "register s" i c c']
  by (simp add: wired_def put_conn_def)

lemma map_wired_mask: "map_wired C K R \<Longrightarrow> R fd = Some st \<Longrightarrow> map_wired C K (R(fd \<mapsto> st\<lparr>es_mask := m\<rparr>))"
  unfolding map_wired_def by (metis (no_types, lifting) fun_upd_apply option.map(2) xEventState.select_convs(3) xEventState.surjective xEventState.update_convs(1))

lemma reg_wired_mask: "reg_wired wk ls K R \<Longrightarrow> R fd = Some st \<Longrightarrow> fd \<noteq> ls \<Longrightarrow> reg_wired wk ls K (R(fd \<mapsto> st\<lparr>es_mask := m\<rparr>))"
  by (auto simp: reg_wired_def)

lemma wired_mask:
  assumes "wired s" and "register s fd = Some st" and "fd \<noteq> listenSock s"
  shows "wired (s\<lparr>register := (register s)(fd \<mapsto> st\<lparr>es_mask := m\<rparr>)\<rparr>)"
  using assms map_wired_mask reg_wired_mask by (auto simp: wired_def)

lemma wired_close:
  assumes w: "wired s" and c: "conns s i = Some c" and on: "isConnected c" and off: "\<not> isConnected c'"
    and fd: "conn_fd c' = conn_fd c" and ok: "srv_conn c'"
  shows "wired (put_conn i c' s\<lparr>register := (register s)(conn_fd c := None), connections := (connections s)(conn_fd c := None)\<rparr>)"
proof -
  let ?C = "(conns s)(i \<mapsto> c')" and ?K = "(connections s)(conn_fd c := None)" and ?R = "(register s)(conn_fd c := None)"
  have k: "connections s (conn_fd c) = Some i" using w c on wired_conn by blast
  have "conns_wired (nextConn s) (listenSock s) ?C ?K"
    unfolding conns_wired_def
  proof (intro allI impI)
    fix j d
    assume d: "?C j = Some d"
    show "j < nextConn s \<and> srv_conn d \<and> conn_fd d \<noteq> listenSock s \<and> (isConnected d \<longrightarrow> ?K (conn_fd d) = Some j)"
      using d off fd ok k wired_conn [OF w c] wired_conn [OF w, of j d] by (cases "j = i") auto
  qed
  moreover have "map_wired ?C ?K ?R"
  proof -
    have "i \<noteq> j" if "connections s fd = Some j" "fd \<noteq> conn_fd c" for fd j
      using that(2) c by (rule_tac wired_map [OF w that(1)]) auto
    then show ?thesis using w c by (auto simp: wired_def map_wired_def)
  qed
  moreover have "reg_wired (wakeupFd s) (listenSock s) ?K ?R"
    using w by (auto simp: wired_def reg_wired_def)
  ultimately show ?thesis by (simp add: wired_def put_conn_def)
qed

lemma wired_establish:
  assumes w: "wired s" and "srv_conn c" and "isConnected c" and free: "register s (conn_fd c) = None" and "conn_fd c \<noteq> listenSock s"
  shows "wired (put_conn (nextConn s) c s\<lparr>nextConn := Suc (nextConn s), connections := (connections s)(conn_fd c \<mapsto> nextConn s),
     register := (register s)(conn_fd c \<mapsto> \<lparr>es_mask = m, es_data = d, es_callback = ConnHandleEvent (nextConn s)\<rparr>)\<rparr>)"
proof -
  let ?i = "nextConn s"
  let ?C = "(conns s)(?i \<mapsto> c)" and ?K = "(connections s)(conn_fd c \<mapsto> ?i)"
    and ?R = "(register s)(conn_fd c \<mapsto> \<lparr>es_mask = m, es_data = d, es_callback = ConnHandleEvent ?i\<rparr>)"
  have k: "connections s (conn_fd c) = None"
    using w free by (cases "connections s (conn_fd c)") (auto elim: wired_map)
  have "conns_wired (Suc ?i) (listenSock s) ?C ?K"
    unfolding conns_wired_def
  proof (intro allI impI)
    fix j d
    assume d: "?C j = Some d"
    show "j < Suc ?i \<and> srv_conn d \<and> conn_fd d \<noteq> listenSock s \<and> (isConnected d \<longrightarrow> ?K (conn_fd d) = Some j)"
      using d assms k wired_conn [OF w, of j d] by (cases "j = ?i") auto
  qed
  moreover have "map_wired ?C ?K ?R"
  proof -
    have "?i \<noteq> j" if "connections s fd = Some j" for fd j
      using wired_conn [OF w] by (rule_tac wired_map [OF w that]) blast
    then show ?thesis using w assms(3) by (auto simp: wired_def map_wired_def)
  qed
  moreover have "reg_wired (wakeupFd s) (listenSock s) ?K ?R"
    using w free by (auto simp: wired_def reg_wired_def)
  ultimately show ?thesis by (simp add: wired_def put_conn_def)
qed

section \<open>Fields\<close>

lemma wired_fields [simp]:
  "wired (s\<lparr>rx := r\<rparr>) = wired s" "wired (s\<lparr>tx := t\<rparr>) = wired s" "wired (s\<lparr>wire := w\<rparr>) = wired s"
  "wired (s\<lparr>kern := k\<rparr>) = wired s" "wired (s\<lparr>env := e\<rparr>) = wired s" "wired (s\<lparr>extraEvents := x\<rparr>) = wired s"
  "wired (s\<lparr>msgQueue := q\<rparr>) = wired s" "wired (s\<lparr>current := n\<rparr>) = wired s" "wired (s\<lparr>fired := f\<rparr>) = wired s"
  "wired (s\<lparr>isListen := b\<rparr>) = wired s"
  by (simp_all add: wired_def)

lemma mirror_more [simp]:
  "mirror view (s\<lparr>extraEvents := x\<rparr>) = mirror view s" "mirror view (s\<lparr>msgQueue := q\<rparr>) = mirror view s"
  "mirror view (s\<lparr>current := n\<rparr>) = mirror view s" "mirror view (s\<lparr>fired := f\<rparr>) = mirror view s"
  "mirror view (s\<lparr>isListen := b\<rparr>) = mirror view s"
  by (simp_all add: mirror_def)

lemma server_wf_fields [simp]:
  "server_wf view U dec (s\<lparr>rx := r\<rparr>) = server_wf view U dec s" "server_wf view U dec (s\<lparr>tx := t\<rparr>) = server_wf view U dec s"
  "server_wf view U dec (s\<lparr>wire := w\<rparr>) = server_wf view U dec s" "server_wf view U dec (s\<lparr>env := e\<rparr>) = server_wf view U dec s"
  "server_wf view U dec (s\<lparr>extraEvents := x\<rparr>) = server_wf view U dec s" "server_wf view U dec (s\<lparr>current := n\<rparr>) = server_wf view U dec s"
  "server_wf view U dec (s\<lparr>fired := f\<rparr>) = server_wf view U dec s" "server_wf view U dec (s\<lparr>isListen := b\<rparr>) = server_wf view U dec s"
  by (simp_all add: server_wf_def)

lemma server_wf_put:
  assumes "server_wf view U dec s" and "conns s i = Some c" and "conn_fd c' = conn_fd c" and "isConnected c' = isConnected c" and "srv_conn c'"
  shows "server_wf view U dec (put_conn i c' s)"
proof -
  have f: "newConnectionCb (put_conn i c' s) = newConnectionCb s" "listenSock (put_conn i c' s) = listenSock s"
    by (simp_all add: put_conn_def)
  show ?thesis using assms wired_put [OF _ assms(2-5)] by (simp add: server_wf_def f)
qed

lemma server_wf_reg:
  assumes "server_wf view U dec s" and "wired (s\<lparr>register := r\<rparr>)" and "mirror view (s\<lparr>register := r, kern := k\<rparr>)"
  shows "server_wf view U dec (s\<lparr>register := r, kern := k\<rparr>)"
  using assms by (simp add: server_wf_def wired_def)

text \<open>An object of the server stays one when its buffers or its interest change.\<close>

lemma srv_conn_fields [simp]:
  "srv_conn c \<Longrightarrow> sized b \<Longrightarrow> srv_conn (c\<lparr>readBuff := b\<rparr>)" "srv_conn c \<Longrightarrow> sized b \<Longrightarrow> srv_conn (c\<lparr>writeBuff := b\<rparr>)"
  "srv_conn (c\<lparr>writeEnabled := w\<rparr>) = srv_conn c"
  "srv_conn c \<Longrightarrow> srv_conn (c\<lparr>connStatus := XF_CONN_STATUS_DISCONNECTING\<rparr>)"
  "srv_conn c \<Longrightarrow> srv_conn (c\<lparr>connStatus := XF_CONN_STATUS_DISCONNECTED\<rparr>)"
  by (simp_all add: srv_conn_def isConnected_def closed_def)

lemma server_wf_conn: "server_wf view U dec s \<Longrightarrow> conns s i = Some c \<Longrightarrow>
    i < nextConn s \<and> srv_conn c \<and> conn_fd c \<noteq> listenSock s \<and> (isConnected c \<longrightarrow> connections s (conn_fd c) = Some i)"
  using wired_conn by (auto simp: server_wf_def)

lemma keeps_put:
  assumes "server_wf view U dec s" and "conns s i = Some c" and "conn_fd c' = conn_fd c" and "isConnected c' = isConnected c" and "srv_conn c'"
  shows "keeps view U dec s (put_conn i c' s)"
  using server_wf_put [OF assms] assms(2,4) by (auto simp: keeps_def)

section \<open>The user\<close>

text \<open>
  The functions of the user may do anything that keeps the invariant, and may throw; the one for
  a new connection must return. It gets a connection with nothing to send. The one for sent bytes
  must not give up the last pointer to its connection, as by closing it without a pointer of one's own.
\<close>

definition ends_keeping ::
    "('k \<Rightarrow> int \<Rightarrow> int32 option) \<Rightarrow> ('k, 'z) srv_state_scheme user_fns \<Rightarrow> (byte list \<Rightarrow> int) \<Rightarrow>
     ('k, 'z) srv_state_scheme \<Rightarrow> (unit, ('k, 'z) srv_state_scheme) outcome \<Rightarrow> bool" where
  "ends_keeping view U dec s r \<longleftrightarrow> (\<exists>s'. (r = Done () s' \<or> (\<exists>e. r = Raise e s')) \<and> keeps view U dec s s')"

definition fresh_conn :: "nat \<Rightarrow> ('k, 'z) srv_state_scheme \<Rightarrow> bool" where
  "fresh_conn i s \<longleftrightarrow> (\<exists>c. conns s i = Some c \<and> isConnected c \<and> content (writeBuff c) = [])"

definition user_keeps ::
    "('k \<Rightarrow> int \<Rightarrow> int32 option) \<Rightarrow> ('k, 'z) srv_state_scheme user_fns \<Rightarrow> (byte list \<Rightarrow> int) \<Rightarrow> bool" where
  "user_keeps view U dec \<longleftrightarrow>
     (\<forall>s f i n. server_wf view U dec s \<and> isLoopThread s \<and> conns s i \<noteq> None \<longrightarrow>
        ends_keeping view U dec s (u_sent U f i n s) \<and> \<not> drops (srv_holds U i) s (u_sent U f i n s)) \<and>
     (\<forall>s f i. server_wf view U dec s \<and> isLoopThread s \<and> conns s i \<noteq> None \<longrightarrow> ends_keeping view U dec s (u_conn U f i s)) \<and>
     (\<forall>s f i. server_wf view U dec s \<and> isLoopThread s \<and> fresh_conn i s \<and> srv_connFinishedCb s = Some (UserFn f) \<longrightarrow>
        (\<exists>s'. u_conn U f i s = Done () s' \<and> keeps view U dec s s')) \<and>
     (\<forall>s h i. server_wf view U dec s \<and> isLoopThread s \<and> fresh_conn i s \<longrightarrow>
        (\<exists>s'. u_connected U h i s = Done () s' \<and> keeps view U dec s s'))"

section \<open>What a connection does to the server\<close>

lemma interest_wired:
  assumes "wired s" and "conns s i = Some c"
  shows "wired (s\<lparr>register := interest_after c (register s)\<rparr>)"
proof -
  note f = wired_conn [OF assms]
  have m: "wired (s\<lparr>register := reg_spec e (register s)\<rparr>)" if "e = AddEv (conn_fd c) XE_WRITABLE \<or> e = RemoveEv (conn_fd c) XE_WRITABLE" for e
    using that assms(1) f wired_mask [OF assms(1)] by (auto split: option.split)
  show ?thesis
    using m assms(1) by (auto simp: interest_after_def simp del: reg_spec.simps)
qed

lemma interest_keeps:
  assumes wf: "server_wf view U dec s" and c: "conns s i = Some c"
    and m: "mirror view (s\<lparr>register := interest_after c (register s), kern := k\<rparr>)"
  shows "keeps view U dec s (put_conn i (c\<lparr>writeEnabled := e\<rparr>) (s\<lparr>register := interest_after c (register s), kern := k\<rparr>))"
proof -
  let ?s = "s\<lparr>register := interest_after c (register s), kern := k\<rparr>"
  have "server_wf view U dec ?s"
    by (rule server_wf_reg [OF wf interest_wired [OF _ c] m]) (use wf in \<open>simp add: server_wf_def\<close>)
  then have "keeps view U dec ?s (put_conn i (c\<lparr>writeEnabled := e\<rparr>) ?s)"
    using c server_wf_conn [OF wf c] by (intro keeps_put [where c = c]) simp_all
  then show ?thesis by (simp add: keeps_def)
qed

lemma keeps_io:
  "server_wf view U dec s \<Longrightarrow> keeps view U dec s (s\<lparr>tx := t, wire := w\<rparr>)"
  "server_wf view U dec s \<Longrightarrow> keeps view U dec s (s\<lparr>rx := r\<rparr>)"
  by (simp_all add: keeps_def)

text \<open>The call of the callback for sent bytes, whose exceptions are caught.\<close>

lemma sent_callback_keeps:
  assumes "user_keeps view U dec" and "server_wf view U dec s" and "isLoopThread s" and "conns s i \<noteq> None" and "sc = Some ServerSentBytes"
  obtains s' where "catchS (case sc of None \<Rightarrow> Done () s | Some f \<Rightarrow> sent_fn (server_cbs U call) f i n s) (\<lambda>e s. Done () s) = Done () s'"
    and "keeps view U dec s s'"
proof (cases "srv_sentBytesCb s")
  case None
  then show ?thesis
    using assms(2,5) by (intro that [of s]) (simp_all add: server_cbs_def server_defaultSentBytes_def keeps_refl)
next
  case (Some f)
  have "ends_keeping view U dec s (u_sent U f i n s)"
    using assms(1-4) unfolding user_keeps_def by blast
  then show ?thesis
    using Some assms(5) that by (auto simp: ends_keeping_def server_cbs_def server_defaultSentBytes_def)
qed

text \<open>From the removal of the descriptor to the end of the callback of the user.\<close>

lemma doCloseConnection_keeps:
  assumes u: "user_keeps view U dec" and wf: "server_wf view U dec s" and loop: "isLoopThread s"
    and c: "conns s i = Some c" and on: "isConnected c"
    and s1: "s1 = put_conn i (c\<lparr>connStatus := XF_CONN_STATUS_DISCONNECTING\<rparr>) s\<lparr>register := (register s)(conn_fd c := None), kern := k\<rparr>"
    and m: "mirror view s1"
  obtains s' where "doCloseConnection U i s1 = Done () s'" and "keeps view U dec s s'"
proof -
  let ?c = "c\<lparr>connStatus := XF_CONN_STATUS_DISCONNECTING\<rparr>"
  let ?s2 = "s1\<lparr>connections := (connections s)(conn_fd c := None)\<rparr>"
  note f = server_wf_conn [OF wf c]
  have "wired (put_conn i ?c s\<lparr>register := (register s)(conn_fd c := None), connections := (connections s)(conn_fd c := None)\<rparr>)"
    by (rule wired_close) (use wf c on f in \<open>simp_all add: server_wf_def isConnected_def\<close>)
  then have "wired ?s2" by (simp add: s1 wired_def)
  then have wf2: "server_wf view U dec ?s2"
    using wf m unfolding server_wf_def s1 by (simp add: put_conn_def)
  have off: "\<not> isConnected ?c" by (simp add: isConnected_def)
  then have k2: "keeps view U dec s ?s2" using wf2 c by (auto simp: keeps_def s1)
  have c2: "conns ?s2 i = Some ?c" by (simp add: s1)
  have l2: "isLoopThread ?s2" using keepsD(2) [OF k2] loop by simp
  obtain s3 where s3: "(case srv_connCloseCb ?s2 of None \<Rightarrow> Done () ?s2
      | Some f \<Rightarrow> catchS (call_user_conn U f i ?s2) (\<lambda>e s. Done () s)) = Done () s3" "keeps view U dec ?s2 s3"
  proof (cases "srv_connCloseCb ?s2")
    case None
    then show ?thesis using wf2 by (intro that [of ?s2]) (simp_all add: keeps_refl)
  next
    case (Some g)
    then obtain v where g: "g = UserFn v" using wf2 unfolding server_wf_def by auto
    have "ends_keeping view U dec ?s2 (u_conn U v i ?s2)"
      using u wf2 l2 c2 unfolding user_keeps_def by blast
    then obtain s' where "u_conn U v i ?s2 = Done () s' \<or> (\<exists>e. u_conn U v i ?s2 = Raise e s')" "keeps view U dec ?s2 s'"
      by (auto simp: ends_keeping_def)
    then show ?thesis using Some g by (intro that [of s']) (auto simp: call_user_conn_def)
  qed
  obtain c3 where c3: "conns s3 i = Some c3" "\<not> isConnected c3" using keepsD(3) [OF s3(2) c2] off by auto
  let ?s4 = "put_conn i (c3\<lparr>connStatus := XF_CONN_STATUS_DISCONNECTED\<rparr>) s3"
  have k4: "keeps view U dec s3 ?s4"
    by (rule keeps_put [OF keepsD(1) [OF s3(2)] c3(1)]) (use c3 server_wf_conn [OF keepsD(1) [OF s3(2)] c3(1)] in \<open>simp_all add: isConnected_def\<close>)
  have "connections s1 = connections s" "connections s (conn_fd c) = Some i" "conns s1 i = Some ?c"
    using f on by (simp_all add: s1)
  then have "doCloseConnection U i s1 = Done () ?s4"
    using s3(1) c3(1) by (simp add: doCloseConnection_def Let_def setClosed_def)
  then show ?thesis
    using keeps_trans [OF keeps_trans [OF k2 s3(2)] k4] by (rule that)
qed

lemma addMsg_keeps:
  assumes "server_wf view U dec s" and "bwf b" and "4 \<le> length (content b)" and "Suc (length (queue (msgQueue s))) < 2 ^ 31"
  shows "keeps view U dec s (addMsg b s)" and "queue (msgQueue (addMsg b s)) = queue (msgQueue s) @ [b]"
proof -
  have q: "chan_ok (msgQueue s)" using assms(1) by (simp add: server_wf_def)
  show "queue (msgQueue (addMsg b s)) = queue (msgQueue s) @ [b]" using chan_push_ok(2) [OF q assms(4)] by simp
  have "server_wf view U dec (addMsg b s)"
    using assms(1-3) chan_push_ok(1,2) [OF q assms(4), of b] by (auto simp: server_wf_def addMsg_def wired_def mirror_def)
  then show "keeps view U dec s (addMsg b s)" by (simp add: keeps_def addMsg_def)
qed

text \<open>A message goes to the queue of the handlers, or is dropped when none is running.\<close>

lemma messageComing_keeps:
  assumes wf: "server_wf view U dec s" and c: "conns s i = Some c" and b: "bwf b" "4 \<le> unat (readerIndex b)"
    and room: "Suc (length (queue (msgQueue s))) < 2 ^ 31"
  obtains b' s' where "messageComing i b s = Done b' s'" and "bwf b'" and "keeps view U dec s s'"
    and "length (queue (msgQueue s')) \<le> Suc (length (queue (msgQueue s)))" and "conns s' = conns s"
proof (cases "getActiveHandleCount s = 0")
  case True
  then show ?thesis using b(1) keeps_refl [OF wf] by (intro that [of b s]) (simp_all add: messageComing_def)
next
  case False
  let ?tag = "net_bytes (of_int (conn_fd c) :: int32)"
  have "unat (4 :: size_t) \<le> length ?tag" "unat (4 :: size_t) \<le> unat (readerIndex b)" using b(2) by simp_all
  from prepend_ok [OF b(1) this] obtain b' where b': "prepend ?tag 4 b = Inr b'" "bwf b'"
    "content b' = take (unat (4 :: size_t)) ?tag @ content b"
    by metis
  have len: "4 \<le> length (content b')" using b'(3) by simp
  note q = addMsg_keeps [OF wf b'(2) len room]
  show ?thesis
  proof (rule that)
    show "messageComing i b s = Done b' (addMsg b' s)"
      using False c b'(1) by (simp add: messageComing_def prependInt32_def mem_bytes_hostToNetwork)
    show "length (queue (msgQueue (addMsg b' s))) \<le> Suc (length (queue (msgQueue s)))" by (subst q(2)) simp
  qed (simp_all add: b'(2) q(1))
qed

section \<open>The server as the owner of its connections\<close>

text \<open>A well-formed server in its loop thread, in the setting of the contracts of the kernel and the user.\<close>

definition hosted ::
    "'k epoll_ctl \<Rightarrow> ('k \<Rightarrow> int \<Rightarrow> int32 option) \<Rightarrow> (int \<Rightarrow> bool) \<Rightarrow> ('k, 'z) srv_state_scheme user_fns \<Rightarrow> (byte list \<Rightarrow> int) \<Rightarrow>
     ('k, 'z) srv_state_scheme \<Rightarrow> bool" where
  "hosted ctl view usable U dec s \<longleftrightarrow>
     epoll_ctl_spec ctl view usable \<and> user_keeps view U dec \<and> proper_decoder dec \<and> server_wf view U dec s \<and> isLoopThread s"

lemma hostedD:
  assumes "hosted ctl view usable U dec s"
  shows "epoll_ctl_spec ctl view usable" "user_keeps view U dec" "proper_decoder dec" "server_wf view U dec s" "isLoopThread s"
    "mirror view s" "wired s"
  using assms by (simp_all add: hosted_def server_wf_def)

lemma hosted_keeps: "hosted ctl view usable U dec s \<Longrightarrow> keeps view U dec s t \<Longrightarrow> hosted ctl view usable U dec t"
  by (simp add: hosted_def keepsD(1) keepsD(2) [of view U dec s t])

lemma srv_conn_owned: "srv_conn c \<Longrightarrow> owned c"
  by (simp add: srv_conn_def owned_def)

interpretation srv: conn_owner ctl view usable "server_cbs U (server_call ctl U (Suc n))" dec "hosted ctl view usable U dec"
    "\<lambda>s t. hosted ctl view usable U dec s \<and> keeps view U dec s t" "\<lambda>s. length (queue (msgQueue s))"
  for ctl :: "'k epoll_ctl" and view usable and U :: "('k, 'z) srv_state_scheme user_fns" and dec n
proof
  fix s :: "('k, 'z) srv_state_scheme" and i c
  assume h: "hosted ctl view usable U dec s"
  note wf = hostedD(4) [OF h]
  assume c: "conns s i = Some c"
  note f = server_wf_conn [OF wf c]
  show "owned c" using f by (simp add: srv_conn_owned)
  show "hosted ctl view usable U dec s \<and> keeps view U dec s (put_conn i (c\<lparr>readBuff := b\<rparr>) s)" if "sized b" for b
    using h f that keeps_put [OF wf c, of "c\<lparr>readBuff := b\<rparr>"] by simp
  show "hosted ctl view usable U dec s \<and> keeps view U dec s (put_conn i (c\<lparr>writeBuff := b\<rparr>) s)" if "sized b" for b
    using h f that keeps_put [OF wf c, of "c\<lparr>writeBuff := b\<rparr>"] by simp
  show "hosted ctl view usable U dec s \<and> keeps view U dec s
      (put_conn i (c\<lparr>writeEnabled := e\<rparr>) (s\<lparr>register := interest_after c (register s), kern := k\<rparr>))"
    if "mirror view (s\<lparr>register := interest_after c (register s), kern := k\<rparr>)" for e k
    using h interest_keeps [OF wf c that] by simp
  show "\<exists>t. catchS (case sentBytesCb c of None \<Rightarrow> Done () s | Some f \<Rightarrow> sent_fn (server_cbs U (server_call ctl U (Suc n))) f i m s)
      (\<lambda>e s. Done () s) = Done () t \<and> hosted ctl view usable U dec s \<and> keeps view U dec s t" for m
    using sent_callback_keeps [OF hostedD(2,4,5) [OF h], of i "sentBytesCb c"] f c h by (simp add: srv_conn_def) metis
  show "decode_fn (server_cbs U (server_call ctl U (Suc n))) g bs (int (length bs)) t = Done (dec bs) t"
    if g: "decodeCb c = Some g" and t: "hosted ctl view usable U dec t" for g bs t
    using f g hostedD(4) [OF t] by (cases "srv_msgDecodeCb t")
      (auto simp: srv_conn_def server_wf_def server_cbs_def server_defaultMsgDecode_def server_decodes_def)
  show "\<exists>b' t. commit_fn (server_cbs U (server_call ctl U (Suc n))) g i b s = Done b' t \<and> bwf b' \<and>
      (hosted ctl view usable U dec s \<and> keeps view U dec s t) \<and>
      length (queue (msgQueue t)) \<le> Suc (length (queue (msgQueue s))) \<and> (\<exists>d. conns t i = Some d \<and> readBuff d = readBuff c)"
    if "msgCommitCb c = Some g" "bwf b" "4 \<le> unat (readerIndex b)" "Suc (length (queue (msgQueue s))) < 2 ^ 31" for g b
    using messageComing_keeps [OF wf c that(2-4)] f c h that(1) by (simp add: srv_conn_def server_cbs_def) metis
  show "\<exists>t. catchS (if connCloseCb c \<noteq> None then call_conn (server_cbs U (server_call ctl U (Suc n))) (connCloseCb c) i s1 else Done () s1)
      (\<lambda>e s. Done () s) = Done () t \<and> hosted ctl view usable U dec s \<and> keeps view U dec s t"
    if on: "isConnected c" and s1: "s1 = put_conn i (c\<lparr>connStatus := XF_CONN_STATUS_DISCONNECTING\<rparr>) s\<lparr>register := (register s)(conn_fd c := None), kern := k\<rparr>"
      and m: "mirror view s1" for s1 k
  proof -
    obtain t where t: "doCloseConnection U i s1 = Done () t" "keeps view U dec s t"
      by (rule doCloseConnection_keeps [OF hostedD(2,4,5) [OF h] c on s1 m])
    have "isLoopThread s1" using hostedD(5) [OF h] by (simp add: s1)
    then have "call_conn (server_cbs U (server_call ctl U (Suc n))) (Some ServerClosed) i s1 = Done () t"
      using t(1) by (simp add: call_conn_def server_cbs_def connectionClosed_def scheduleToLoopThread_def run_functor_def)
    then show ?thesis using t(2) h f by (simp add: srv_conn_def)
  qed
next
  fix s t u :: "('k, 'z) srv_state_scheme" and i c
  show "hosted ctl view usable U dec s \<and> keeps view U dec s t \<Longrightarrow> conns s i = Some c \<Longrightarrow> \<exists>c'. conns t i = Some c'"
    using keepsD(3) by blast
  show "hosted ctl view usable U dec s \<and> keeps view U dec s t \<Longrightarrow> hosted ctl view usable U dec t \<and> keeps view U dec t u \<Longrightarrow>
      hosted ctl view usable U dec s \<and> keeps view U dec s u"
    using keeps_trans by blast
qed (auto simp: hosted_keeps keeps_refl keeps_io put_conn_def dest: hostedD)

text \<open>A connection that is open is kept by the map of connections, whatever the user keeps.\<close>

lemma open_connection_is_held:
  assumes "wired s" and "conns s i = Some c" and "isConnected c"
  shows "srv_holds U i s"
  using wired_conn [OF assms(1,2)] assms(2,3) by (simp add: srv_holds_def)

text \<open>With the user keeping to the rule, the callbacks of a connection whose caller keeps no pointer behave the same.\<close>

lemma lent_sent:
  assumes "user_keeps view U dec" and "server_wf view U dec s" and "isLoopThread s" and "conns s i \<noteq> None"
  shows "sent_fn (server_lent_cbs U call) ServerSentBytes i n s = sent_fn (server_cbs U call) ServerSentBytes i n s"
  using assms unfolding user_keeps_def
  by (cases "srv_sentBytesCb s") (simp_all add: server_cbs_def server_defaultSentBytes_def)

interpretation srv_lent: conn_owner ctl view usable "server_lent_cbs U (server_call ctl U (Suc n))" dec "hosted ctl view usable U dec"
    "\<lambda>s t. hosted ctl view usable U dec s \<and> keeps view U dec s t" "\<lambda>s. length (queue (msgQueue s))"
  for ctl :: "'k epoll_ctl" and view usable and U :: "('k, 'z) srv_state_scheme user_fns" and dec n
proof (rule conn_owner_cong [OF srv.conn_owner_axioms])
  fix s :: "('k, 'z) srv_state_scheme" and i c f
  assume h: "hosted ctl view usable U dec s" and c: "conns s i = Some c"
  note o = server_wf_conn [OF hostedD(4) [OF h] c]
  show "sent_fn (server_lent_cbs U (server_call ctl U (Suc n))) f i m s = sent_fn (server_cbs U (server_call ctl U (Suc n))) f i m s"
    if "sentBytesCb c = Some f" for m
    using lent_sent [OF hostedD(2,4,5) [OF h]] o c that by (simp add: srv_conn_def)
  show "commit_fn (server_lent_cbs U (server_call ctl U (Suc n))) f i b s = commit_fn (server_cbs U (server_call ctl U (Suc n))) f i b s"
    if "msgCommitCb c = Some f" for b
    using o that by (simp add: srv_conn_def)
qed simp_all

end
