(* ===== verification/Loop_Host.thy ===== *)
theory Loop_Host
  imports Loop_Laws Timer_Fire
begin

text \<open>
  The owner of an event loop, the server or the client, as an interface: callbacks, functors and
  timers that keep the owner's invariant make every round of \<^verbatim>\<open>xLoop::process\<close> end normally
  and keep it.
\<close>

section \<open>What a round may meet\<close>

text \<open>Each event and each functor has to be admissible in the state in which its turn comes.\<close>

fun events_admissible ::
    "(closure \<Rightarrow> xEvent \<Rightarrow> ('k, 'z) loop_state_scheme \<Rightarrow> (unit, ('k, 'z) loop_state_scheme) outcome) \<Rightarrow>
     (xEvent \<Rightarrow> ('k, 'z) loop_state_scheme \<Rightarrow> bool) \<Rightarrow> xEvent list \<Rightarrow> ('k, 'z) loop_state_scheme \<Rightarrow> bool" where
  "events_admissible on_event adm [] s \<longleftrightarrow> True"
| "events_admissible on_event adm (xe # xs) s \<longleftrightarrow> adm xe s \<and>
     (case dispatch_front on_event s of Done _ t \<Rightarrow> events_admissible on_event adm xs t | _ \<Rightarrow> True)"

fun functors_admissible ::
    "(closure \<Rightarrow> ('k, 'z) loop_state_scheme \<Rightarrow> (unit, ('k, 'z) loop_state_scheme) outcome) \<Rightarrow>
     (xFunctor \<Rightarrow> ('k, 'z) loop_state_scheme \<Rightarrow> bool) \<Rightarrow> xFunctor list \<Rightarrow> ('k, 'z) loop_state_scheme \<Rightarrow> bool" where
  "functors_admissible call adm [] s \<longleftrightarrow> True"
| "functors_admissible call adm (f # fs) s \<longleftrightarrow> adm f s \<and>
     (case run_functor call f s of Done _ t \<Rightarrow> functors_admissible call adm fs t | _ \<Rightarrow> True)"

definition round_ok ::
    "(closure \<Rightarrow> xEvent \<Rightarrow> ('k, 'z) loop_state_scheme \<Rightarrow> (unit, ('k, 'z) loop_state_scheme) outcome) \<Rightarrow>
     (closure \<Rightarrow> ('k, 'z) loop_state_scheme \<Rightarrow> (unit, ('k, 'z) loop_state_scheme) outcome) \<Rightarrow>
     (xEvent \<Rightarrow> ('k, 'z) loop_state_scheme \<Rightarrow> bool) \<Rightarrow> (xFunctor \<Rightarrow> ('k, 'z) loop_state_scheme \<Rightarrow> bool) \<Rightarrow>
     (('k, 'z) loop_state_scheme \<Rightarrow> bool) \<Rightarrow> ('k, 'z) loop_state_scheme \<Rightarrow> bool" where
  "round_ok on_event call ev fn tm s \<longleftrightarrow>
     (let (k, lxe, s0) = poller_Wait s (fired s); s1 = s0\<lparr>fired := lxe\<rparr> in
      events_admissible on_event ev lxe s1 \<and>
      (case dispatch_loop on_event (length lxe) s1 of
         Done _ s2 \<Rightarrow>
           functors_admissible call fn (extraEvents s2) s2 \<and>
           (case run_functors call (extraEvents s2) s2 of Done _ s3 \<Rightarrow> tm (s3\<lparr>extraEvents := []\<rparr>) | _ \<Rightarrow> True)
       | _ \<Rightarrow> True))"

section \<open>The contract\<close>

locale loop_owner =
  fixes on_event :: "closure \<Rightarrow> xEvent \<Rightarrow> ('k, 'z) loop_state_scheme \<Rightarrow> (unit, ('k, 'z) loop_state_scheme) outcome"
    and call :: "closure \<Rightarrow> ('k, 'z) loop_state_scheme \<Rightarrow> (unit, ('k, 'z) loop_state_scheme) outcome"
    and fuel :: nat
    and Inv :: "('k, 'z) loop_state_scheme \<Rightarrow> bool"
    and ev :: "xEvent \<Rightarrow> ('k, 'z) loop_state_scheme \<Rightarrow> bool"
    and fn :: "xFunctor \<Rightarrow> ('k, 'z) loop_state_scheme \<Rightarrow> bool"
    and tm :: "('k, 'z) loop_state_scheme \<Rightarrow> bool"
  assumes event: "Inv s \<Longrightarrow> register s (efd xe) = Some st \<Longrightarrow> ev xe s \<Longrightarrow>
      \<exists>t. on_event (es_callback st) xe s = Done () t \<and> Inv t \<and> fired t = fired s"
    and queued: "Inv s \<Longrightarrow> fn f s \<Longrightarrow> \<exists>t. run_functor call f s = Done () t \<and> Inv t"
    and trigger: "Inv s \<Longrightarrow> tm s \<Longrightarrow> \<exists>t. triggerTimer call fuel s = Done () t \<and> Inv t"
    and fired_list: "Inv s \<Longrightarrow> Inv (s\<lparr>fired := xs\<rparr>)"
    and answers: "Inv s \<Longrightarrow> Inv (s\<lparr>epoll_answers := a\<rparr>)"
    and functor_list: "Inv s \<Longrightarrow> Inv (s\<lparr>extraEvents := []\<rparr>)"
begin

lemma dispatch_front_keeps:
  assumes i: "Inv s" and f: "fired s = xe # xs" and a: "ev xe s"
  obtains t where "dispatch_front on_event s = Done () t" and "Inv t" and "fired t = xs"
proof (cases "register s (efd xe)")
  case None
  then show ?thesis using f fired_list [OF i] by (intro that [of "s\<lparr>fired := xs\<rparr>"]) (simp_all add: dispatch_front_def)
next
  case (Some st)
  then obtain t where "on_event (es_callback st) xe s = Done () t" "Inv t" "fired t = fired s"
    using event [OF i _ a] by blast
  then show ?thesis using f Some fired_list [of t] by (intro that [of "t\<lparr>fired := tl (fired t)\<rparr>"]) (simp_all add: dispatch_front_def)
qed

lemma dispatch_loop_keeps:
  "Inv s \<Longrightarrow> fired s = xs \<Longrightarrow> events_admissible on_event ev xs s \<Longrightarrow>
    \<exists>t. dispatch_loop on_event (length xs) s = Done () t \<and> Inv t"
proof (induction xs arbitrary: s)
  case Nil
  then show ?case by simp
next
  case (Cons xe xs)
  then have "ev xe s" by simp
  with Cons.prems(1,2) obtain t where t: "dispatch_front on_event s = Done () t" "Inv t" "fired t = xs" by (rule dispatch_front_keeps)
  then have "events_admissible on_event ev xs t" using Cons.prems(3) by simp
  then show ?case using Cons.IH [OF t(2,3)] Cons.prems(2) t(1) by simp
qed

lemma run_functors_keeps:
  "Inv s \<Longrightarrow> functors_admissible call fn fs s \<Longrightarrow> \<exists>t. run_functors call fs s = Done () t \<and> Inv t"
proof (induction fs arbitrary: s)
  case Nil
  then show ?case by simp
next
  case (Cons f fs)
  then obtain t where t: "run_functor call f s = Done () t" "Inv t" using queued [of s f] by auto
  then show ?case using Cons.IH [OF t(2)] Cons.prems(2) by simp
qed

lemma round_keeps:
  assumes i: "Inv s" and a: "round_ok on_event call ev fn tm s"
  obtains t where "process on_event call fuel s = Done () t" and "Inv t"
proof -
  obtain k lxe r where w: "poller_Wait s (fired s) = (k, lxe, r)" by (cases "poller_Wait s (fired s)")
  let ?r = "r\<lparr>fired := lxe\<rparr>"
  have "Inv ?r" using w i answers [OF i] fired_list by (auto simp: poller_Wait_def Let_def split: list.splits)
  then obtain u where u: "dispatch_loop on_event (length lxe) ?r = Done () u" "Inv u"
    using dispatch_loop_keeps [of ?r lxe] a w by (auto simp: round_ok_def Let_def)
  have "functors_admissible call fn (extraEvents u) u" using a w u(1) by (simp add: round_ok_def)
  then obtain v where v: "run_functors call (extraEvents u) u = Done () v" "Inv v"
    using run_functors_keeps [OF u(2)] by blast
  have "tm (v\<lparr>extraEvents := []\<rparr>)" using a w u(1) v(1) by (simp add: round_ok_def)
  then obtain t where "triggerTimer call fuel (v\<lparr>extraEvents := []\<rparr>) = Done () t" "Inv t"
    using trigger functor_list [OF v(2)] by blast
  then show ?thesis using w u(1) v(1) by (intro that [of t]) (simp_all add: process_def)
qed

end

end
