(* ===== verification/Server_Safety.thy ===== *)
theory Server_Safety
  imports Server_Inv Server_Props Loop_Host Reach
begin

text \<open>
  Everything that can happen to a running server, as one step relation: rounds of the loop, its events
  and the functors that it runs, turns of handler threads, and new answers of the kernel. The
  invariant of \<open>Server_Inv\<close> holds after any steps, and none of them can fail.
\<close>

section \<open>Closures that the loop runs\<close>

text \<open>The closures that the server itself queues, with the bounds they need.\<close>

definition runnable :: "(int \<Rightarrow> bool) \<Rightarrow> closure \<Rightarrow> ('k, 'z) srv_state_scheme \<Rightarrow> bool" where
  "runnable usable f s \<longleftrightarrow>
     (case f of
        ListenerAddEvents \<Rightarrow> usable (listenSock s) \<and> register s (listenSock s) = None
      | ServerDoSend uid bs \<Rightarrow> (\<forall>i c. connections s uid = Some i \<longrightarrow> conns s i = Some c \<longrightarrow> length (content (writeBuff c)) + length bs < 2 ^ 31)
      | ConnSendMsgToBuffer i bs \<Rightarrow> (\<exists>c. conns s i = Some c \<and> length (content (writeBuff c)) + length bs < 2 ^ 31)
      | ConnCloseConn i \<Rightarrow> conns s i \<noteq> None
      | ConnCloseConnection i \<Rightarrow> conns s i \<noteq> None
      | _ \<Rightarrow> False)"

text \<open>The listener is registered for reading.\<close>

lemma addEventsForAccept_keeps:
  assumes h: "hosted ctl view usable U dec s" and l: "usable (listenSock s)" "register s (listenSock s) = None"
  obtains s' where "addEventsForAccept ctl s = Done () s'" and "keeps view U dec s s'"
proof -
  note w = hostedD(7) [OF h]
  let ?r = "(register s)(listenSock s \<mapsto> \<lparr>es_mask = XE_READABLE, es_data = 0, es_callback = ListenerHandleEvent\<rparr>)"
  obtain k where k: "loop_reg ctl (listenSock s) 0 XE_READABLE ListenerHandleEvent s = Done 0 (s\<lparr>register := ?r, kern := k\<rparr>)"
    "mirror view (s\<lparr>register := ?r, kern := k\<rparr>)"
    using hostedD(1,6,5) [OF h] l(1) by (rule loop_reg_ok)
  have "connections s (listenSock s) = None"
    using l(2) by (cases "connections s (listenSock s)") (auto elim: wired_map [OF w])
  then have "wired (s\<lparr>register := ?r\<rparr>)"
    using w by (auto simp: wired_def map_wired_def reg_wired_def)
  then have "keeps view U dec s (s\<lparr>register := ?r, kern := k\<rparr>)"
    using server_wf_reg [OF hostedD(4) [OF h] _ k(2)] by (simp add: keeps_def)
  then show ?thesis using k(1) by (intro that) (simp_all add: addEventsForAccept_def)
qed

text \<open>A response finds the connection by its descriptor, or is dropped.\<close>

lemma doSendResponse_keeps:
  assumes h: "hosted ctl view usable U dec s"
    and room: "\<And>i c. connections s uid = Some i \<Longrightarrow> conns s i = Some c \<Longrightarrow> length (content (writeBuff c)) + length bs < 2 ^ 31"
  obtains s' where "server_call ctl U (Suc (Suc n)) (ServerDoSend uid bs) s = Done () s'" and "keeps view U dec s s'"
proof (cases "connections s uid")
  case None
  then show ?thesis using keeps_refl [OF hostedD(4) [OF h]] by (intro that [of s]) (simp_all add: doSendResponse_def)
next
  case (Some i)
  with hostedD(7) [OF h] obtain c where c: "conns s i = Some c" "isConnected c" by (rule wired_map)
  obtain s' where "sendMsgToBuffer ctl (server_lent_cbs U (server_call ctl U (Suc n))) i bs s = Done () s'" "keeps view U dec s s'"
    using srv_lent.sendMsgToBuffer_keeps [OF h c(1) room [OF Some c(1)]] by metis
  then show ?thesis
    using Some c hostedD(5) [OF h] by (intro that [of s']) (simp_all add: doSendResponse_def sendMsg_string_def isConnected_def Let_def)
qed

lemma server_call_keeps:
  assumes h: "hosted ctl view usable U dec s" and f: "runnable usable f s"
  obtains s' where "server_call ctl U (Suc (Suc n)) f s = Done () s'" and "keeps view U dec s s'"
proof -
  let ?cb = "server_cbs U (server_call ctl U (Suc n))"
  consider (send) uid bs where "f = ServerDoSend uid bs" | (buf) i bs where "f = ConnSendMsgToBuffer i bs"
    | (conn) i where "f = ConnCloseConn i" | (connection) i where "f = ConnCloseConnection i" | (listen) "f = ListenerAddEvents"
    using f by (auto simp: runnable_def split: closure.splits)
  then show ?thesis
  proof cases
    case send
    then show ?thesis using doSendResponse_keeps [OF h, of uid bs n] f that by (auto simp: runnable_def simp del: server_call.simps)
  next
    case buf
    then obtain c where c: "conns s i = Some c" "length (content (writeBuff c)) + length bs < 2 ^ 31"
      using f by (auto simp: runnable_def)
    obtain s' where "sendMsgToBuffer ctl ?cb i bs s = Done () s'" "keeps view U dec s s'"
      using srv.sendMsgToBuffer_keeps [OF h c] by metis
    then show ?thesis using buf by (intro that [of s']) (simp_all add: Let_def)
  next
    case conn
    then obtain c where "conns s i = Some c" using f by (auto simp: runnable_def)
    then obtain s' where "closeConn ctl ?cb i s = Done 0 s'" "keeps view U dec s s'"
      using srv.closeConn_keeps [OF h] by metis
    then show ?thesis using conn by (intro that [of s']) (simp_all add: Let_def)
  next
    case connection
    then obtain c where "conns s i = Some c" using f by (auto simp: runnable_def)
    then obtain s' where "closeConnection ctl ?cb (server_call ctl U (Suc n)) i s = Done () s'" "keeps view U dec s s'"
      using srv.closeConnection_keeps [OF h] by metis
    then show ?thesis using connection by (intro that [of s']) (simp_all add: Let_def)
  next
    case listen
    then have "usable (listenSock s)" "register s (listenSock s) = None" using f by (simp_all add: runnable_def)
    then obtain s' where "addEventsForAccept ctl s = Done () s'" "keeps view U dec s s'"
      using addEventsForAccept_keeps [OF h] by metis
    then show ?thesis using listen by (intro that [of s']) (simp_all add: Let_def)
  qed
qed

section \<open>The listener\<close>

text \<open>
  What the kernel may answer to an \<^verbatim>\<open>accept\<close>: a failure, or a descriptor that the process
  does not have yet, with an address of the peer. What it answers to the calls that make the new socket
  non-blocking is left open.
\<close>

definition accept_answer :: "(int \<Rightarrow> bool) \<Rightarrow> ('k, 'z) srv_state_scheme \<Rightarrow> bool" where
  "accept_answer usable s \<longleftrightarrow> (case accept_loop (listenSock s) (env s) of (fd, e) \<Rightarrow>
     fd = -1 \<or> 0 \<le> fd \<and> length (sys_out e) = 28 \<and> usable fd \<and> register s fd = None \<and> fd \<noteq> listenSock s)"

lemma connectionFinished_keeps:
  assumes u: "user_keeps view U dec" and wf: "server_wf view U dec s" and loop: "isLoopThread s" and i: "fresh_conn i s"
  obtains s' where "connectionFinished U i s = Done () s'" and "keeps view U dec s s'"
proof (cases "srv_connFinishedCb s")
  case None
  then show ?thesis using wf by (intro that [of s]) (simp_all add: connectionFinished_def keeps_refl)
next
  case (Some f)
  consider (group) "f = GroupHandleConnected" | (user) v where "f = UserFn v"
    using wf Some unfolding server_wf_def by auto
  then show ?thesis
  proof cases
    case group
    show ?thesis
    proof (cases "first_running 0 (handleWorkers s)")
      case None
      then show ?thesis
        using Some group wf by (intro that [of s]) (simp_all add: connectionFinished_def call_user_conn_def handleConnected_def keeps_refl)
    next
      case w: (Some h)
      obtain s' where "u_connected U h i s = Done () s'" "keeps view U dec s s'"
        using u wf loop i unfolding user_keeps_def by blast
      then show ?thesis
        using Some group w by (intro that [of s']) (simp_all add: connectionFinished_def call_user_conn_def handleConnected_def)
    qed
  next
    case user
    then obtain s' where "u_conn U v i s = Done () s'" "keeps view U dec s s'"
      using u wf loop i Some unfolding user_keeps_def by blast
    then show ?thesis
      using Some user by (intro that [of s']) (simp_all add: connectionFinished_def call_user_conn_def)
  qed
qed

lemma handleAccept_keeps:
  assumes ctl: "epoll_ctl_spec ctl view usable" and u: "user_keeps view U dec" and wf: "server_wf view U dec s"
    and loop: "isLoopThread s" and a: "accept_answer usable s"
  obtains s' where "handleAccept (server_new_conn ctl U (Suc n)) junk s = Done () s'" and "keeps view U dec s s'"
proof -
  have w: "mirror view s" "valid (listenSock s)" "newConnectionCb s = Some ServerAcceptNew" "wired s" using wf by (simp_all add: server_wf_def)
  have env: "keeps view U dec s (s\<lparr>env := e\<rparr>)" for e using wf by (simp add: keeps_def)
  obtain fd e1 where l: "accept_loop (listenSock s) (env s) = (fd, e1)" by (cases "accept_loop (listenSock s) (env s)")
  consider (none) "fd = -1" | (some) "0 \<le> fd" "length (sys_out e1) = 28" "usable fd" "register s fd = None" "fd \<noteq> listenSock s"
    using a l by (auto simp: accept_answer_def)
  then show ?thesis
  proof cases
    case none
    then have "handleAccept (server_new_conn ctl U (Suc n)) junk s = Done () (s\<lparr>env := e1\<rparr>)"
      using l w(2) by (simp add: handleAccept_def with_env_def xSocket_accept_def tcpAccept_def sock_consts)
    then show ?thesis using env by (rule that)
  next
    case some
    then have "fd \<noteq> -1" by simp
    with l obtain peer where p: "xSocket_accept (listenSock s) (xIpAddr_port junk 0 False False) (env s) = Done (fd, peer) e1"
      using some(2) w(2) by (rule accept_taken)
    show ?thesis
    proof (cases "valid fd \<longrightarrow> fst (nonBlock fd e1) \<noteq> XFNET_SUCC")
      case True
      then obtain x e2 where "setNonBlock True fd e1 = Raise x e2"
        by (cases "nonBlock fd e1"; cases "valid fd") (auto simp: setNonBlock_def checked_def)
      from handleAccept_refused [OF p this w(3) some(1), of ctl U "Suc n"] show ?thesis
        using env [of "sys_close fd (sys_close fd e2)"] by (intro that) (simp_all add: close_fd_def)
    next
      case False
      then obtain e2 where "setNonBlock True fd e1 = Done () e2"
        by (cases "nonBlock fd e1") (auto simp: setNonBlock_def checked_def)
      from handleAccept_taken [OF ctl w(1) loop p this w(3) some(3,1), of U n] obtain s4 c k where
        h: "handleAccept (server_new_conn ctl U (Suc n)) junk s =
          catchS (connectionFinished U (nextConn s) s4) (\<lambda>e s. Done () (close_fd fd s))"
        and s4: "s4 = put_conn (nextConn s) c s\<lparr>env := e2, nextConn := Suc (nextConn s), connections := (connections s)(fd \<mapsto> nextConn s),
          register := (register s)(fd \<mapsto> \<lparr>es_mask = XE_READABLE, es_data = 0, es_callback = ConnHandleEvent (nextConn s)\<rparr>), kern := k\<rparr>"
        and m4: "mirror view s4" and c: "isConnected c" "conn_fd c = fd" "content (readBuff c) = []" "content (writeBuff c) = []"
        and cb: "decodeCb c = Some ServerDecode" "msgCommitCb c = Some ServerMessage" "sentBytesCb c = Some ServerSentBytes"
          "connCloseCb c = Some ServerClosed" "bwf (readBuff c)" "bwf (writeBuff c)"
          "length (buffer (readBuff c)) \<le> 2 ^ 33" "length (buffer (writeBuff c)) \<le> 2 ^ 33"
        by metis
      have "srv_conn c" using c cb by (simp add: srv_conn_def sized_def)
      from wired_establish [OF w(4) this c(1)] have "wired s4"
        using some(4,5) c(2) by (simp add: s4 wired_def)
      then have wf4: "server_wf view U dec s4"
        using wf m4 unfolding server_wf_def by (simp add: s4 put_conn_def)
      have "nextConn s \<notin> dom (conns s)" using wired_conn [OF w(4)] by blast
      then have k4: "keeps view U dec s s4" using wf4 by (auto simp: keeps_def s4)
      have "fresh_conn (nextConn s) s4" using c by (simp add: fresh_conn_def s4)
      then obtain s' where "connectionFinished U (nextConn s) s4 = Done () s'" "keeps view U dec s4 s'"
        using connectionFinished_keeps [OF u wf4] keepsD(2) [OF k4] loop by metis
      then show ?thesis using h keeps_trans [OF k4] by (intro that [of s']) simp_all
    qed
  qed
qed

lemma listener_event_keeps:
  assumes ctl: "epoll_ctl_spec ctl view usable" and u: "user_keeps view U dec" and wf: "server_wf view U dec s"
    and loop: "isLoopThread s" and st: "register s (efd xe) = Some st" "es_callback st = ListenerHandleEvent"
    and mask: "\<not> has (emask xe) XE_WRITABLE" and a: "has (emask xe) XE_READABLE \<Longrightarrow> accept_answer usable s"
  obtains s' where "listener_HandleEvent ctl (server_new_conn ctl U (Suc n)) junk xe s = Done () s'" and "keeps view U dec s s'"
proof (cases "has (emask xe) XE_ERROR \<or> has (emask xe) XE_HUP")
  case True
  have m: "mirror view s" and w: "wired s" using wf by (simp_all add: server_wf_def)
  obtain k where k: "loop_remove ctl (efd xe) s = Done 0 (s\<lparr>register := (register s)(efd xe := None), kern := k\<rparr>)"
    "mirror view (s\<lparr>register := (register s)(efd xe := None), kern := k\<rparr>)"
    using ctl m loop by (rule loop_remove_ok)
  have "connections s (efd xe) = None"
    using st by (cases "connections s (efd xe)") (auto elim: wired_map [OF w])
  then have "wired (s\<lparr>register := (register s)(efd xe := None)\<rparr>)"
    using w by (auto simp: wired_def map_wired_def reg_wired_def)
  then have "keeps view U dec s (s\<lparr>register := (register s)(efd xe := None), kern := k, isListen := False\<rparr>)"
    using server_wf_reg [OF wf _ k(2)] by (simp add: keeps_def)
  then show ?thesis
    using True mask k(1) by (intro that) (auto simp: listener_HandleEvent_def)
next
  case False
  show ?thesis
  proof (cases "has (emask xe) XE_READABLE")
    case True
    obtain s' where "handleAccept (server_new_conn ctl U (Suc n)) junk s = Done () s'" "keeps view U dec s s'"
      using handleAccept_keeps [OF ctl u wf loop a [OF True]] by metis
    then show ?thesis using True False mask by (intro that [of s']) (simp_all add: listener_HandleEvent_def)
  next
    case r: False
    then show ?thesis using False mask wf by (intro that [of s]) (simp_all add: listener_HandleEvent_def keeps_refl)
  qed
qed

section \<open>Handler threads\<close>

text \<open>\<open>dispatch\<close>, the user's, may do anything that keeps the invariant, and may throw; it runs in the handler's thread.\<close>

definition dispatch_keeps ::
    "('k \<Rightarrow> int \<Rightarrow> int32 option) \<Rightarrow> ('k, 'z) srv_state_scheme user_fns \<Rightarrow> (byte list \<Rightarrow> int) \<Rightarrow>
     (nat \<Rightarrow> int \<Rightarrow> xBuffer \<Rightarrow> ('k, 'z) srv_state_scheme \<Rightarrow> (unit, ('k, 'z) srv_state_scheme) outcome) \<Rightarrow> bool" where
  "dispatch_keeps view U dec dispatch \<longleftrightarrow> (\<forall>s h uid b. server_wf view U dec s \<and> \<not> isLoopThread s \<and> bwf b \<longrightarrow>
     ends_keeping view U dec s (dispatch h uid b s))"

lemma handler_turn_keeps:
  assumes d: "dispatch_keeps view U dec dispatch" and wf: "server_wf view U dec s" and thread: "\<not> isLoopThread s"
    and h: "hasGroup (handleWorkers s ! h)"
  obtains s' where "handler_turn dispatch h s = Done () s'" and "keeps view U dec s s'"
proof -
  have "unat kInitialSize + 4 \<le> vec_max" by (simp add: kInitialSize_def vec_max_def)
  then obtain nb where nb: "xBuffer_new kInitialSize = Inr nb" by (rule xBuffer_new_ok)
  have q: "chan_ok (msgQueue s)" "\<forall>b \<in> set (queue (msgQueue s)). bwf b \<and> 4 \<le> length (content b)"
    using wf by (simp_all add: server_wf_def)
  show ?thesis
  proof (cases "queue (msgQueue s)")
    case Nil
    then have "chan_pop_front 0 id (msgQueue s) = Inr (None, msgQueue s)" using chan_pop_ok [OF q(1), of id] by simp
    then have "handler_turn dispatch h s = Done () s" using h nb by (simp add: handler_turn_def group_readMsg_def)
    then show ?thesis using keeps_refl [OF wf] by (rule that)
  next
    case (Cons b bs)
    obtain q' where q': "chan_pop_front 0 id (msgQueue s) = Inr (Some b, q')" "chan_ok q'" "queue q' = bs"
      using chan_pop_ok [OF q(1), of id] Cons by auto
    have b: "bwf b" "4 \<le> length (content b)" using q(2) Cons by simp_all
    have "\<exists>x b'. readInt32 b = Inr (x, b') \<and> bwf b'"
    proof -
      have four: "unat (4 :: size_t) \<le> length (content b)" using b(2) by simp
      obtain b' where "moveOver 4 b = Inr b'" "bwf b'" using b(1) four by (rule moveOver_ok)
      then show ?thesis
        using b mem_read_content [OF b(1) four] by (simp add: readInt32_def peekInt32_def moveInt32_def readable_le)
    qed
    then obtain x b' where r: "readInt32 b = Inr (x, b')" "bwf b'" by blast
    let ?s1 = "s\<lparr>msgQueue := q'\<rparr>"
    have "server_wf view U dec ?s1" using wf q'(2,3) Cons by (auto simp: server_wf_def wired_def)
    then have k1: "keeps view U dec s ?s1" by (simp add: keeps_def)
    have "\<not> isLoopThread ?s1" using keepsD(2) [OF k1] thread by simp
    then obtain s' where s': "dispatch h (sint x) b' ?s1 = Done () s' \<or> (\<exists>e. dispatch h (sint x) b' ?s1 = Raise e s')" "keeps view U dec ?s1 s'"
      using d keepsD(1) [OF k1] r(2) unfolding dispatch_keeps_def ends_keeping_def by blast
    then have "handler_turn dispatch h s = Done () s'"
      using h nb q'(1) r(1) by (auto simp: handler_turn_def group_readMsg_def)
    then show ?thesis using keeps_trans [OF k1 s'(2)] by (rule that)
  qed
qed

text \<open>
  A response that a handler thread sends only queues a functor, so a handler that answers each
  message with its own bytes may be used.
\<close>

lemma server_sendResponse_keeps:
  assumes wf: "server_wf view U dec s" and thread: "\<not> isLoopThread s" and b: "bwf resp"
  obtains resp' s' where "server_sendResponse call uid resp s = Done (0, resp') s'" and "keeps view U dec s s'"
proof -
  obtain resp' where r: "readAll resp = Inr (content resp, resp')" using readAll_ok [OF b] by metis
  let ?s1 = "s\<lparr>extraEvents := extraEvents s @ [FCall (ServerDoSend uid (content resp))]\<rparr>"
  obtain t w where "notify ?s1 = Done () (?s1\<lparr>tx := t, wire := w\<rparr>)" using notify_wire [of ?s1] by blast
  then have "server_sendResponse call uid resp s = Done (0, resp') (?s1\<lparr>tx := t, wire := w\<rparr>)"
    using r thread by (simp add: server_sendResponse_def scheduleToLoopThread_def)
  moreover have "keeps view U dec s (?s1\<lparr>tx := t, wire := w\<rparr>)" using wf by (simp add: keeps_def)
  ultimately show ?thesis by (rule that)
qed

section \<open>Steps\<close>

text \<open>
  What can happen: an event fires on a descriptor, and the loop dispatches it; the loop runs a
  closure; handler \<open>h\<close>, in thread \<open>t\<close>, does one turn; the kernel has new data to read (\<open>r\<close>), new
  answers to writes (\<open>w\<close>) and to socket calls (\<open>rs\<close>).
\<close>

datatype srv_input =
    Fires int int32 int
  | Runs closure
  | Turn nat nat
  | Round
  | Kernel "int \<Rightarrow> rd_res list" "int \<Rightarrow> wr_res list" "(int \<times> errno \<times> byte list) list"

fun server_step ::
    "'k epoll_ctl \<Rightarrow> ('k, 'z) srv_state_scheme user_fns \<Rightarrow>
     (nat \<Rightarrow> int \<Rightarrow> xBuffer \<Rightarrow> ('k, 'z) srv_state_scheme \<Rightarrow> (unit, ('k, 'z) srv_state_scheme) outcome) \<Rightarrow>
     nat \<Rightarrow> xIpAddr \<Rightarrow> srv_input \<Rightarrow> ('k, 'z) srv_state_scheme \<Rightarrow> (unit, ('k, 'z) srv_state_scheme) outcome" where
  "server_step ctl U dispatch n junk (Fires fd m d) s =
     dispatch_front (server_on_event ctl U n junk) (s\<lparr>fired := \<lparr>efd = fd, emask = m, edata = d\<rparr> # fired s\<rparr>)"
| "server_step ctl U dispatch n junk (Runs f) s = server_call ctl U n f s"
| "server_step ctl U dispatch n junk (Turn t h) s =
     bindS (handler_turn dispatch h (s\<lparr>current := t\<rparr>)) (\<lambda>_ s'. Done () (s'\<lparr>current := current s\<rparr>))"
| "server_step ctl U dispatch n junk Round s = process (server_on_event ctl U n junk) (server_call ctl U n) n s"
| "server_step ctl U dispatch n junk (Kernel r w rs) s = Done () (s\<lparr>rx := r, tx := w, env := (env s)\<lparr>replies := rs\<rparr>\<rparr>)"

text \<open>
  The bounds: less than 2 ^ 31 bytes are buffered, counting what the event brings, and \<open>n\<close>, the
  fuel of the parser, exceeds them. The kernel reports only events that were asked for, errors
  and hang-ups.
\<close>

definition event_admissible :: "(int \<Rightarrow> bool) \<Rightarrow> nat \<Rightarrow> xEvent \<Rightarrow> ('k, 'z) srv_state_scheme \<Rightarrow> bool" where
  "event_admissible usable n xe s \<longleftrightarrow> (\<forall>st. register s (efd xe) = Some st \<longrightarrow>
     (case es_callback st of
        ListenerHandleEvent \<Rightarrow> \<not> has (emask xe) XE_WRITABLE \<and> (has (emask xe) XE_READABLE \<longrightarrow> accept_answer usable s)
      | ConnHandleEvent i \<Rightarrow> (\<forall>c. conns s i = Some c \<longrightarrow>
          length (queue (msgQueue s)) + length (content (readBuff c)) + data_bytes (rx s (conn_fd c)) < 2 ^ 31 \<and>
          length (content (readBuff c)) + data_bytes (rx s (conn_fd c)) < n)
      | _ \<Rightarrow> True))"

lemma event_admissible_fired [simp]: "event_admissible usable n xe (s\<lparr>fired := f\<rparr>) = event_admissible usable n xe s"
  by (simp add: event_admissible_def accept_answer_def cong: closure.case_cong)

definition functor_runnable :: "(int \<Rightarrow> bool) \<Rightarrow> xFunctor \<Rightarrow> ('k, 'z) srv_state_scheme \<Rightarrow> bool" where
  "functor_runnable usable f s \<longleftrightarrow> (case f of FCall c \<Rightarrow> runnable usable c s | _ \<Rightarrow> False)"

text \<open>Timers are not the server's: a round of the loop comes to its end with none.\<close>

definition round_admissible ::
    "'k epoll_ctl \<Rightarrow> ('k, 'z) srv_state_scheme user_fns \<Rightarrow> xIpAddr \<Rightarrow> (int \<Rightarrow> bool) \<Rightarrow> nat \<Rightarrow> ('k, 'z) srv_state_scheme \<Rightarrow> bool" where
  "round_admissible ctl U junk usable n =
     round_ok (server_on_event ctl U n junk) (server_call ctl U n) (event_admissible usable n) (functor_runnable usable) (\<lambda>s. timers s = [])"

fun admissible ::
    "'k epoll_ctl \<Rightarrow> ('k, 'z) srv_state_scheme user_fns \<Rightarrow> xIpAddr \<Rightarrow> (int \<Rightarrow> bool) \<Rightarrow> nat \<Rightarrow> srv_input \<Rightarrow>
     ('k, 'z) srv_state_scheme \<Rightarrow> bool" where
  "admissible ctl U junk usable n (Fires fd m d) s \<longleftrightarrow> event_admissible usable n \<lparr>efd = fd, emask = m, edata = d\<rparr> s"
| "admissible ctl U junk usable n (Runs f) s \<longleftrightarrow> runnable usable f s"
| "admissible ctl U junk usable n (Turn t h) s \<longleftrightarrow> t \<noteq> threadId s \<and> hasGroup (handleWorkers s ! h)"
| "admissible ctl U junk usable n Round s \<longleftrightarrow> round_admissible ctl U junk usable n s"
| "admissible ctl U junk usable n (Kernel r w rs) s \<longleftrightarrow> True"

lemma event_keeps:
  assumes h: "hosted ctl view usable U dec s" and st: "register s (efd xe) = Some st"
    and adm: "event_admissible usable (Suc n) xe s"
  obtains s' where "server_on_event ctl U (Suc n) junk (es_callback st) xe s = Done () s'" and "keeps view U dec s s'"
proof -
  note wf = hostedD(4) [OF h] and w = hostedD(7) [OF h]
  consider (wake) "es_callback st = LoopWakeUp" | (listen) "es_callback st = ListenerHandleEvent"
    | (conn) i where "es_callback st = ConnHandleEvent i" "connections s (efd xe) = Some i"
    using w st unfolding wired_def reg_wired_def by blast
  then show ?thesis
  proof cases
    case wake
    obtain r got rs where "readFd (rx s (wakeupFd s)) 8 = Inr (r, got, rs)" by (simp add: readFd_def) (metis prod_cases3)
    then have "server_on_event ctl U (Suc n) junk (es_callback st) xe s = Done () (s\<lparr>rx := (rx s)(wakeupFd s := rs)\<rparr>)"
      using wake by (simp add: server_on_event_def wakeUpCallBack_def sys_read_def)
    then show ?thesis using keeps_io(2) [OF wf] by (rule that)
  next
    case listen
    have a: "\<not> has (emask xe) XE_WRITABLE" "has (emask xe) XE_READABLE \<Longrightarrow> accept_answer usable s"
      using adm st listen by (simp_all add: event_admissible_def accept_answer_def)
    obtain s' where "listener_HandleEvent ctl (server_new_conn ctl U (Suc n)) junk xe s = Done () s'" "keeps view U dec s s'"
      using listener_event_keeps [OF hostedD(1,2,4,5) [OF h] st listen a] by metis
    then show ?thesis using listen that by (simp add: server_on_event_def)
  next
    case conn
    obtain c where c: "conns s i = Some c" using w conn(2) by (rule wired_map)
    have room: "length (queue (msgQueue s)) + length (content (readBuff c)) + data_bytes (rx s (conn_fd c)) < 2 ^ 31"
      "length (content (readBuff c)) + data_bytes (rx s (conn_fd c)) < Suc n"
      using adm st conn(1) c by (simp_all add: event_admissible_def)
    obtain s' where "HandleEvent ctl (server_lent_cbs U (server_call ctl U (Suc n))) (Suc n) i xe s = Done () s'" "keeps view U dec s s'"
      using srv_lent.HandleEvent_keeps [OF h c room] by metis
    then show ?thesis using conn(1) that by (simp add: server_on_event_def)
  qed
qed

text \<open>The server as the owner of its loop.\<close>

lemma hosted_loop [simp]:
  "hosted ctl view usable U dec (s\<lparr>fired := x\<rparr>) = hosted ctl view usable U dec s"
  "hosted ctl view usable U dec (s\<lparr>epoll_answers := y\<rparr>) = hosted ctl view usable U dec s"
  "hosted ctl view usable U dec (s\<lparr>extraEvents := z\<rparr>) = hosted ctl view usable U dec s"
  "hosted ctl view usable U dec (s\<lparr>clock := c, last_now := t\<rparr>) = hosted ctl view usable U dec s"
  by (simp_all add: hosted_def isLoopThread_def) (simp_all add: server_wf_def wired_def mirror_def)

interpretation srv_loop: loop_owner "server_on_event ctl U (Suc (Suc n)) junk" "server_call ctl U (Suc (Suc n))" "Suc (Suc n)"
    "hosted ctl view usable U dec" "event_admissible usable (Suc (Suc n))" "functor_runnable usable" "\<lambda>s. timers s = []"
  for ctl :: "'k epoll_ctl" and view usable and U :: "('k, 'z) srv_state_scheme user_fns" and dec junk n
proof
  fix s :: "('k, 'z) srv_state_scheme"
  assume h: "hosted ctl view usable U dec s"
  show "\<exists>t. server_on_event ctl U (Suc (Suc n)) junk (es_callback st) xe s = Done () t \<and> hosted ctl view usable U dec t \<and> fired t = fired s"
    if "register s (efd xe) = Some st" "event_admissible usable (Suc (Suc n)) xe s" for xe st
    using event_keeps [OF h that] hosted_keeps [OF h] keeps_def by metis
  show "\<exists>t. run_functor (server_call ctl U (Suc (Suc n))) f s = Done () t \<and> hosted ctl view usable U dec t"
    if r: "functor_runnable usable f s" for f
  proof -
    obtain c where c: "f = FCall c" "runnable usable c s" using r by (auto simp: functor_runnable_def split: xFunctor.splits)
    obtain t where "server_call ctl U (Suc (Suc n)) c s = Done () t" "keeps view U dec s t" using server_call_keeps [OF h c(2)] by metis
    then show ?thesis using hosted_keeps [OF h] c(1) by (auto simp: run_functor_def simp del: server_call.simps)
  qed
  show "\<exists>t. triggerTimer (server_call ctl U (Suc (Suc n))) (Suc (Suc n)) s = Done () t \<and> hosted ctl view usable U dec t" if "timers s = []"
    using that h by (auto simp: triggerTimer_def TNOWMS_def simp del: server_call.simps split: list.split)
qed simp_all

lemma server_step_keeps:
  assumes h: "hosted ctl view usable U dec s" and d: "dispatch_keeps view U dec dispatch" and n: "2 \<le> n"
    and adm: "admissible ctl U junk usable n inp s"
  obtains s' where "server_step ctl U dispatch n junk inp s = Done () s'" and "hosted ctl view usable U dec s'"
proof -
  obtain m where m: "n = Suc (Suc m)" using n by (metis add_2_eq_Suc le_Suc_ex)
  note wf = hostedD(4) [OF h]
  show ?thesis
  proof (cases inp)
    case (Fires fd k dt)
    let ?xe = "\<lparr>efd = fd, emask = k, edata = dt\<rparr>"
    let ?u = "s\<lparr>fired := ?xe # fired s\<rparr>"
    have "hosted ctl view usable U dec ?u" "event_admissible usable n ?xe ?u" using h adm Fires by simp_all
    then obtain s' where "dispatch_front (server_on_event ctl U n junk) ?u = Done () s'" "hosted ctl view usable U dec s'"
      using srv_loop.dispatch_front_keeps [of ctl view usable U dec ?u ?xe "fired s" m junk] m by auto
    then show ?thesis using Fires by (intro that [of s']) simp_all
  next
    case Round
    obtain s' where "process (server_on_event ctl U n junk) (server_call ctl U n) n s = Done () s'" "hosted ctl view usable U dec s'"
      using srv_loop.round_keeps [OF h] adm Round m by (metis admissible.simps(4) round_admissible_def)
    then show ?thesis using Round by (intro that [of s']) simp_all
  next
    case (Runs f)
    then obtain s' where "server_call ctl U n f s = Done () s'" "keeps view U dec s s'"
      using server_call_keeps [OF h] adm m by (metis admissible.simps(2))
    then show ?thesis using Runs hosted_keeps [OF h] by (intro that [of s']) (simp_all del: server_call.simps)
  next
    case (Turn t i)
    let ?s = "s\<lparr>current := t\<rparr>"
    have pre: "server_wf view U dec ?s" "\<not> isLoopThread ?s" "hasGroup (handleWorkers ?s ! i)"
      using wf adm Turn by (simp_all add: isLoopThread_def)
    obtain s' where s': "handler_turn dispatch i ?s = Done () s'" "keeps view U dec ?s s'"
      using handler_turn_keeps [OF d pre] by metis
    have "keeps view U dec s (s'\<lparr>current := current s\<rparr>)" using s'(2) by (simp add: keeps_def)
    then show ?thesis using Turn s'(1) hosted_keeps [OF h] by (intro that [of "s'\<lparr>current := current s\<rparr>"]) simp_all
  next
    case (Kernel r w rs)
    have "keeps view U dec s (s\<lparr>rx := r, tx := w, env := (env s)\<lparr>replies := rs\<rparr>\<rparr>)" using wf by (simp add: keeps_def)
    then show ?thesis using Kernel hosted_keeps [OF h] by (intro that) simp_all
  qed
qed

text \<open>
  \<open>server_moves\<close> is the step relation, \<open>server_next\<close> the state that an input leads to.
\<close>

definition server_next ::
    "'k epoll_ctl \<Rightarrow> ('k, 'z) srv_state_scheme user_fns \<Rightarrow>
     (nat \<Rightarrow> int \<Rightarrow> xBuffer \<Rightarrow> ('k, 'z) srv_state_scheme \<Rightarrow> (unit, ('k, 'z) srv_state_scheme) outcome) \<Rightarrow>
     nat \<Rightarrow> xIpAddr \<Rightarrow> srv_input \<Rightarrow> ('k, 'z) srv_state_scheme \<Rightarrow> ('k, 'z) srv_state_scheme option" where
  "server_next ctl U dispatch n junk inp s = (case server_step ctl U dispatch n junk inp s of Done _ t \<Rightarrow> Some t | _ \<Rightarrow> None)"

lemma server_next_Some: "server_next ctl U dispatch n junk inp s = Some t \<longleftrightarrow> server_step ctl U dispatch n junk inp s = Done () t"
  by (simp add: server_next_def split: outcome.split)

definition server_moves ::
    "'k epoll_ctl \<Rightarrow> ('k, 'z) srv_state_scheme user_fns \<Rightarrow>
     (nat \<Rightarrow> int \<Rightarrow> xBuffer \<Rightarrow> ('k, 'z) srv_state_scheme \<Rightarrow> (unit, ('k, 'z) srv_state_scheme) outcome) \<Rightarrow>
     nat \<Rightarrow> xIpAddr \<Rightarrow> (int \<Rightarrow> bool) \<Rightarrow> ('k, 'z) srv_state_scheme \<Rightarrow> ('k, 'z) srv_state_scheme \<Rightarrow> bool" where
  "server_moves ctl U dispatch n junk usable s t \<longleftrightarrow>
     (\<exists>inp. admissible ctl U junk usable n inp s \<and> server_step ctl U dispatch n junk inp s = Done () t)"

definition server_set ::
    "'k epoll_ctl \<Rightarrow> ('k \<Rightarrow> int \<Rightarrow> int32 option) \<Rightarrow> (int \<Rightarrow> bool) \<Rightarrow> ('k, 'z) srv_state_scheme user_fns \<Rightarrow>
     (nat \<Rightarrow> int \<Rightarrow> xBuffer \<Rightarrow> ('k, 'z) srv_state_scheme \<Rightarrow> (unit, ('k, 'z) srv_state_scheme) outcome) \<Rightarrow>
     (byte list \<Rightarrow> int) \<Rightarrow> nat \<Rightarrow> ('k, 'z) srv_state_scheme \<Rightarrow> bool" where
  "server_set ctl view usable U dispatch dec n s0 \<longleftrightarrow> hosted ctl view usable U dec s0 \<and> dispatch_keeps view U dec dispatch \<and> 2 \<le> n"

text \<open>A running server keeps its invariant and makes progress on every admissible input.\<close>

interpretation running: live_invariant s0 "server_moves ctl U dispatch n junk usable"
    "\<lambda>s. server_set ctl view usable U dispatch dec n s0 \<longrightarrow> hosted ctl view usable U dec s"
    "server_next ctl U dispatch n junk"
    "\<lambda>inp s. server_set ctl view usable U dispatch dec n s0 \<and> admissible ctl U junk usable n inp s"
  for ctl :: "'k epoll_ctl" and view and U :: "('k, 'z) srv_state_scheme user_fns" and dispatch dec n junk usable s0
proof -
  have keep: "\<exists>t. server_step ctl U dispatch n junk inp s = Done () t \<and> hosted ctl view usable U dec t"
    if "server_set ctl view usable U dispatch dec n s0" "hosted ctl view usable U dec s" "admissible ctl U junk usable n inp s" for inp s
    using server_step_keeps [OF that(2) _ _ that(3)] that(1) unfolding server_set_def by metis
  show "live_invariant s0 (server_moves ctl U dispatch n junk usable)
    (\<lambda>s. server_set ctl view usable U dispatch dec n s0 \<longrightarrow> hosted ctl view usable U dec s)
    (server_next ctl U dispatch n junk) (\<lambda>inp s. server_set ctl view usable U dispatch dec n s0 \<and> admissible ctl U junk usable n inp s)"
  proof unfold_locales
    fix s t
    assume "server_set ctl view usable U dispatch dec n s0 \<longrightarrow> hosted ctl view usable U dec s"
      and "server_moves ctl U dispatch n junk usable s t"
    then show "server_set ctl view usable U dispatch dec n s0 \<longrightarrow> hosted ctl view usable U dec t"
      unfolding server_moves_def using keep by (metis outcome.inject(1))
  qed (use keep in \<open>auto simp: server_set_def server_moves_def server_next_Some\<close>)
qed

section \<open>The property\<close>


text \<open>The server of the witnesses, with a handler that answers each message with its own bytes.\<close>

definition echo_dispatch ::
    "nat \<Rightarrow> int \<Rightarrow> xBuffer \<Rightarrow> (int \<Rightarrow> int32 option, (int \<times> byte list) list) srv_state_scheme \<Rightarrow>
     (unit, (int \<Rightarrow> int32 option, (int \<times> byte list) list) srv_state_scheme) outcome" where
  "echo_dispatch h uid b s = bindS (server_sendResponse (server_call map_ctl ufns0 100) uid b s) (\<lambda>_ s. Done () s)"

lemma server_wf_more: "server_wf view U dec (srv_state.more_update g t) = server_wf view U dec t"
  by (simp add: server_wf_def wired_def mirror_def)

lemma ufns0_keeps: "user_keeps view ufns0 dec"
proof -
  have k: "keeps view ufns0 dec t (srv_state.more_update g t)" if "server_wf view ufns0 dec t" for t g
    using that by (simp add: keeps_def server_wf_more)
  show ?thesis
    unfolding user_keeps_def ends_keeping_def using k keeps_refl [of view ufns0 dec] by (auto simp: ufns0_def)
qed

lemma echo_keeps: "dispatch_keeps view U dec echo_dispatch"
  unfolding dispatch_keeps_def ends_keeping_def echo_dispatch_def
  using server_sendResponse_keeps [of view U dec] by (metis (no_types, lifting) bindS_simps(1))

lemma srv0_wf: "server_wf (\<lambda>m. m) ufns0 (\<lambda>bs. int (length bs)) srv0"
proof -
  have b: "sized (sbuf [])" using bwf_sbuf [of "[]"] by (simp add: sized_def) (simp add: sbuf_def)
  then have c: "srv_conn sconn" by (simp add: srv_conn_def sconn_def isConnected_def)
  have "wired srv0"
    using c by (auto simp: wired_def conns_wired_def map_wired_def reg_wired_def srv0_def sconn_def isConnected_def)
  moreover have "chan_ok (msgQueue srv0)" by (simp add: xChan_new_def chan_ok_def atomic_new_def)
  ultimately show ?thesis
    using srv0_ok(1) by (simp add: server_wf_def server_decodes_def valid_def sock_consts) (simp add: srv0_def xChan_new_def)
qed

text \<open>A round of the loop without events, and with a response to a connection that is gone.\<close>

lemma quiet_round:
  "round_admissible map_ctl ufns0 [] (\<lambda>_. True) (Suc n) (srv0\<lparr>extraEvents := [FCall (ServerDoSend 99 [1])]\<rparr>)"
  by (simp add: round_admissible_def round_ok_def poller_Wait_def functor_runnable_def runnable_def run_functor_def doSendResponse_def
      srv0_def Let_def)


end
