(* ===== verification/Server_Start.thy ===== *)
theory Server_Start
  imports Server_Safety
begin

text \<open>
  How a server comes to life: the loop is made, then the server with the callbacks of the user, then
  \<^verbatim>\<open>xServer::start\<close> listens on the loop thread. The result is the state that
  \<open>Server_Safety\<close> starts from.
\<close>

section \<open>Listening\<close>

text \<open>A socket operation returns or throws.\<close>

definition returns_or_throws :: "('a, 's) outcome \<Rightarrow> bool" where
  "returns_or_throws m \<longleftrightarrow> (\<exists>x s. m = Done x s) \<or> (\<exists>e s. m = Raise e s)"

definition or_exit :: "('a, 's) outcome \<Rightarrow> ('a, 's) outcome" where
  "or_exit m = catchS m (\<lambda>e s. Crash Exited)"

lemma exit_or_go:
  assumes "\<And>e. returns_or_throws (f e)"
  shows "or_exit (bindS (with_env f s) g) = Crash Exited \<or>
    (\<exists>x e. f (env s) = Done x e \<and> or_exit (bindS (with_env f s) g) = or_exit (g x (s\<lparr>env := e\<rparr>)))"
  using assms [of "env s"] by (auto simp: returns_or_throws_def with_env_def or_exit_def)

text \<open>\<open>ends_in h g\<close>: with exceptions as exits, \<open>g\<close> exits, or it has only called the kernel and goes on with \<open>h\<close>.\<close>

definition ends_in ::
    "(('k, 'z) listener_state_scheme \<Rightarrow> ('a, ('k, 'z) listener_state_scheme) outcome) \<Rightarrow>
     (('k, 'z) listener_state_scheme \<Rightarrow> ('a, ('k, 'z) listener_state_scheme) outcome) \<Rightarrow> bool" where
  "ends_in h g \<longleftrightarrow> (\<forall>t. or_exit (g t) = Crash Exited \<or> (\<exists>e. or_exit (g t) = or_exit (h (t\<lparr>env := e\<rparr>))))"

lemma ends_in_refl: "ends_in h h"
  unfolding ends_in_def by (metis (no_types, lifting) listener_state.surjective listener_state.update_convs(1))

lemma ends_in_step:
  assumes "\<And>e. returns_or_throws (f e)" and "ends_in h g"
  shows "ends_in h (\<lambda>t. bindS (with_env f t) (\<lambda>_. g))"
  unfolding ends_in_def
proof
  fix t
  show "or_exit (bindS (with_env f t) (\<lambda>_. g)) = Crash Exited \<or>
      (\<exists>e. or_exit (bindS (with_env f t) (\<lambda>_. g)) = or_exit (h (t\<lparr>env := e\<rparr>)))"
  proof (cases "or_exit (bindS (with_env f t) (\<lambda>_. g)) = Crash Exited")
    case False
    then obtain e where e: "or_exit (bindS (with_env f t) (\<lambda>_. g)) = or_exit (g (t\<lparr>env := e\<rparr>))"
      using exit_or_go [where f = f and s = t and g = "\<lambda>_. g", OF assms(1)] by blast
    moreover have "\<exists>e'. or_exit (g (t\<lparr>env := e\<rparr>)) = or_exit (h (t\<lparr>env := e, env := e'\<rparr>))"
      using assms(2) e False unfolding ends_in_def by metis
    ultimately show ?thesis by auto
  qed simp
qed

lemma checked_returns: "returns_or_throws (checked f fd e)"
  by (simp add: returns_or_throws_def checked_def split: prod.split)

lemma xSocket_bind_returns: "returns_or_throws (xSocket_bind fd a e)"
  by (simp add: returns_or_throws_def xSocket_bind_def split: prod.split)

lemma xSocket_listen_returns: "returns_or_throws (xSocket_listen fd e)"
  by (simp add: returns_or_throws_def xSocket_listen_def split: prod.split)

lemma create_returns: "returns_or_throws (create th d SOCK_STREAM e)"
  by (auto simp: returns_or_throws_def create_def createSocket_def SOCK_STREAM_def SOCK_DGRAM_def Let_def split: prod.split)

text \<open>The descriptor is the answer of the kernel to \<^verbatim>\<open>socket\<close>.\<close>

lemma create_fd:
  assumes "create th d SOCK_STREAM e = Done fd e'"
  shows "valid fd" and "\<exists>er out rs. replies e = (fd, er, out) # rs"
proof -
  obtain s1 e1 where s: "sys (SysSocket (uint AF_INET) SOCK_STREAM 0) e = (s1, e1)" by fastforce
  obtain r e2 where r: "api_setReuseAddr s1 e1 = (r, e2)" by fastforce
  show v: "valid fd" using assms by (auto simp: create_def split: if_splits elim!: bindS_eq_Done [THEN iffD1, THEN exE] simp: bindS_eq_Done)
  have "fd = s1" "s1 \<noteq> -1"
    using assms s r v by (auto simp: create_def createSocket_def bindS_eq_Done valid_def sock_consts split: if_splits)
  then show "\<exists>er out rs. replies e = (fd, er, out) # rs"
    using s by (cases "replies e") (auto simp: sys_def)
qed

text \<open>Listening ends the process, or leaves the listener for the functor that registers it.\<close>

lemma doListen_cases:
  obtains (exits) "doListen call a s = Crash Exited"
  | (listens) fd e er out rs where "replies (env s) = (fd, er, out) # rs" "valid fd"
      "doListen call a s = bindS (or_exit (scheduleToLoopThread call (FCall ListenerAddEvents)
         (s\<lparr>listenSock := fd, env := e, isListen := True\<rparr>))) (\<lambda>_ s. Done 0 s)"
proof -
  let ?F = "FCall ListenerAddEvents"
  have r: "returns_or_throws (setReuseAddr fd e)" "returns_or_throws (setReusePort fd e)" "returns_or_throws (setNonBlock True fd e)" for fd e
    unfolding setReuseAddr_def setReusePort_def setNonBlock_def by (rule checked_returns)+
  let ?rg = "\<lambda>fd s. scheduleToLoopThread call ?F (s\<lparr>isListen := True\<rparr>)"
  let ?nb = "\<lambda>fd s. bindS (with_env (setNonBlock True fd) s) (\<lambda>_. ?rg fd)"
  let ?li = "\<lambda>fd s. bindS (with_env (xSocket_listen fd) s) (\<lambda>_. ?nb fd)"
  let ?bi = "\<lambda>fd s. bindS (with_env (xSocket_bind fd a) s) (\<lambda>_. ?li fd)"
  let ?rp = "\<lambda>fd s. bindS (with_env (setReusePort fd) s) (\<lambda>_. ?bi fd)"
  let ?ra = "\<lambda>fd s. bindS (with_env (setReuseAddr fd) s) (\<lambda>_. ?rp fd)"
  let ?all = "or_exit (bindS (with_env (create (listenSock s) (uint (family a)) SOCK_STREAM) s) (\<lambda>fd s. ?ra fd (s\<lparr>listenSock := fd\<rparr>)))"
  have d: "doListen call a s = bindS ?all (\<lambda>_ s. Done 0 s)"
    by (simp add: doListen_def or_exit_def Let_def)
  have "?all = Crash Exited \<or> (\<exists>fd e er out rs. replies (env s) = (fd, er, out) # rs \<and> valid fd \<and>
      ?all = or_exit (?rg fd (s\<lparr>listenSock := fd, env := e\<rparr>)))"
  proof (cases "?all = Crash Exited")
    case False
    then obtain fd e1 where goes: "create (listenSock s) (uint (family a)) SOCK_STREAM (env s) = Done fd e1"
      "?all = or_exit (?ra fd (s\<lparr>env := e1, listenSock := fd\<rparr>))"
      using exit_or_go [where f = "create (listenSock s) (uint (family a)) SOCK_STREAM", OF create_returns, where s = s and g = "\<lambda>fd s. ?ra fd (s\<lparr>listenSock := fd\<rparr>)"] by auto
    note fd = create_fd [OF goes(1)]
    have "ends_in (?rg fd) (?ra fd)"
      by (intro ends_in_step ends_in_refl r xSocket_bind_returns xSocket_listen_returns)
    then have step: "or_exit (?ra fd t) = Crash Exited \<or> (\<exists>e. or_exit (?ra fd t) = or_exit (?rg fd (t\<lparr>env := e\<rparr>)))" for t
      by (simp add: ends_in_def)
    show ?thesis using step [of "s\<lparr>env := e1, listenSock := fd\<rparr>"] goes(2) fd by auto
  qed simp
  then show ?thesis using that d by (auto simp: or_exit_def)
qed

section \<open>From nothing to a running server\<close>

definition server_birth ::
    "'k epoll_ctl \<Rightarrow> ('k, 'z) srv_state_scheme user_fns \<Rightarrow> nat \<Rightarrow> int \<Rightarrow> int \<Rightarrow> xIpAddr \<Rightarrow> nat option \<Rightarrow> closure option \<Rightarrow>
     closure option \<Rightarrow> nat option \<Rightarrow> ('k, 'z) srv_state_scheme \<Rightarrow> (unit, ('k, 'z) srv_state_scheme) outcome" where
  "server_birth ctl U n evtfd epfd addr mdcb nccb cccb sbcb s =
     bindS (xLoop_new ctl evtfd epfd s) (\<lambda>_ s. server_start (server_call ctl U n) (xServer_new addr mdcb nccb cccb sbcb s))"

text \<open>The documented behaviour of \<^verbatim>\<open>socket\<close>: a descriptor that is new to the process.\<close>

definition new_socket_answer :: "(int \<Rightarrow> bool) \<Rightarrow> int \<Rightarrow> sock_env \<Rightarrow> bool" where
  "new_socket_answer usable evtfd e \<longleftrightarrow>
     (case replies e of [] \<Rightarrow> True | (fd, er, out) # rs \<Rightarrow> fd \<noteq> -1 \<longrightarrow> usable fd \<and> fd \<noteq> evtfd)"

text \<open>
  C2. The start of a server. The loop is made on a kernel without registrations, the server with the
  callbacks of the user, and \<^verbatim>\<open>start\<close> is called on the loop thread. Whatever the kernel answers to
  the calls that make the listening socket, either the process exits, or the server is well-formed,
  with no connection and the listener registered for reading: the start state of the safety property.
\<close>

theorem server_starts_well_formed:
  assumes ctl: "epoll_ctl_spec ctl view usable" and k: "view (kern s) = Map.empty" and fds: "usable evtfd" "0 \<le> evtfd" "0 < epfd"
    and none: "conns s = Map.empty" and dec: "server_decodes U mdcb dec" and cb: "user_close_cb cccb"
    and new: "new_socket_answer usable evtfd (env s)"
  shows "server_birth ctl U (Suc n) evtfd epfd addr mdcb nccb cccb sbcb s = Crash Exited \<or>
    (\<exists>s'. server_birth ctl U (Suc n) evtfd epfd addr mdcb nccb cccb sbcb s = Done () s' \<and> server_wf view U dec s' \<and> isLoopThread s' \<and>
       connections s' = Map.empty \<and> queue (msgQueue s') = [] \<and> view (kern s') = [evtfd \<mapsto> EPOLLIN, listenSock s' \<mapsto> EPOLLIN])"
proof -
  let ?call = "server_call ctl U (Suc n)"
  obtain k1 p where L: "xLoop_new ctl evtfd epfd s = Done () (s\<lparr>stop := False, wakeupFd := evtfd, threadId := current s, timers := [],
      register := [evtfd \<mapsto> \<lparr>es_mask = XE_READABLE, es_data = 0, es_callback = LoopWakeUp\<rparr>], fired := [], extraEvents := [],
      poller := p, kern := k1\<rparr>)" (is "_ = Done () ?l") "view k1 = [evtfd \<mapsto> events_of_mask XE_READABLE]"
    using xLoop_new_ok [OF ctl k fds] by metis
  let ?s = "server_init (xServer_new addr mdcb nccb cccb sbcb ?l)"
  have birth: "server_birth ctl U (Suc n) evtfd epfd addr mdcb nccb cccb sbcb s = bindS (doListen ?call (srv_addr ?s) ?s) (\<lambda>_ s. Done () s)"
    unfolding server_birth_def L(1) by (simp add: server_start_def Let_def)
  have e: "env ?s = env s" by (simp add: server_init_def xServer_new_def xListener_new_def Let_def)
  show ?thesis
  proof (cases rule: doListen_cases [of ?call "srv_addr ?s" ?s])
    case exits
    then show ?thesis by (simp add: birth)
  next
    case (listens fd e1 er out rs)
    let ?t = "?s\<lparr>listenSock := fd, env := e1, isListen := True\<rparr>"
    have fd: "usable fd" "fd \<noteq> evtfd" "valid fd"
      using listens(1,2) new by (auto simp: e new_socket_answer_def valid_def sock_consts)
    have m: "mirror view ?t" "isLoopThread ?t"
      using L(2) by (auto simp: mirror_def isLoopThread_def server_init_def xServer_new_def xListener_new_def Let_def)
    let ?r = "(register ?t)(fd \<mapsto> \<lparr>es_mask = XE_READABLE, es_data = 0, es_callback = ListenerHandleEvent\<rparr>)"
    obtain k2 where r: "loop_reg ctl fd 0 XE_READABLE ListenerHandleEvent ?t = Done 0 (?t\<lparr>register := ?r, kern := k2\<rparr>)"
      "mirror view (?t\<lparr>register := ?r, kern := k2\<rparr>)"
      by (rule loop_reg_ok [OF ctl m fd(1), of 0 XE_READABLE ListenerHandleEvent])
    let ?u = "?t\<lparr>register := ?r, kern := k2\<rparr>"
    have "scheduleToLoopThread ?call (FCall ListenerAddEvents) ?t = Done () ?u"
      using m(2) r(1) by (simp add: scheduleToLoopThread_def run_functor_def addEventsForAccept_def)
    then have "server_birth ctl U (Suc n) evtfd epfd addr mdcb nccb cccb sbcb s = Done () ?u"
      by (simp add: birth listens(3) or_exit_def)
    moreover have "wired ?u"
      using none fd(2) by (auto simp: wired_def conns_wired_def map_wired_def reg_wired_def server_init_def xServer_new_def xListener_new_def Let_def)
    then have "server_wf view U dec ?u"
      using r(2) dec cb fd(3) by (simp add: server_wf_def server_init_def xServer_new_def xListener_new_def Let_def) (simp add: xChan_new_def)
    moreover have "view (kern ?u) = [evtfd \<mapsto> EPOLLIN, fd \<mapsto> EPOLLIN]"
      using r(2) by (auto simp: mirror_def server_init_def xServer_new_def xListener_new_def Let_def events_of_mask_def has_def mask_defs)
    ultimately show ?thesis
      using m(2) by (intro disjI2 exI [of _ ?u]) (simp add: server_init_def xServer_new_def xListener_new_def xChan_new_def isLoopThread_def Let_def)
  qed
qed

text \<open>A kernel that grants everything.\<close>

definition fresh0 :: "(int \<Rightarrow> int32 option, (int \<times> byte list) list) srv_state_scheme" where
  "fresh0 = srv0\<lparr>kern := Map.empty, conns := Map.empty,
     env := (env srv0)\<lparr>replies := (5, EOther 0, []) # replicate 7 (0, EOther 0, [])\<rparr>\<rparr>"

lemma fresh0_fields:
  "kern fresh0 = Map.empty" "conns fresh0 = Map.empty" "env fresh0 = (env srv0)\<lparr>replies := (5, EOther 0, []) # replicate 7 (0, EOther 0, [])\<rparr>"
  by (simp_all add: fresh0_def)

lemma server_starts_well_formed_witness:
  "\<exists>s'. server_birth map_ctl ufns0 (Suc 1) 3 4 (replicate 28 0) None None None None fresh0 = Done () s' \<and>
    server_wf (\<lambda>m. m) ufns0 (\<lambda>bs. int (length bs)) s' \<and> kern s' = [3 \<mapsto> EPOLLIN, listenSock s' \<mapsto> EPOLLIN]"
proof -
  have "server_birth map_ctl ufns0 (Suc 1) 3 4 (replicate 28 0) None None None None fresh0 \<noteq> Crash Exited"
    by (simp add: server_birth_def xLoop_new_def createEventfd_def poller_Create_def delete_events_def xEpoller_init_def loop_reg_def
        isLoopThread_def fresh0_fields poller_Add_def poller_ctrl_def Let_def server_start_def server_init_def xServer_new_def
        xListener_new_def doListen_def with_env_def create_def createSocket_def SOCK_STREAM_def SOCK_DGRAM_def sys_def
        api_setReuseAddr_def api_setReusePort_def set_option_def sock_consts valid_def setReuseAddr_def setReusePort_def checked_def
        numeral_eq_Suc xSocket_bind_def tcpBind_def xSocket_listen_def tcpListen_def setNonBlock_def nonBlock_def setBlock_def
        scheduleToLoopThread_def run_functor_def addEventsForAccept_def)
  then show ?thesis
    using server_starts_well_formed [of map_ctl "\<lambda>m. m" "\<lambda>_. True" fresh0 3 4 ufns0 None "\<lambda>bs. int (length bs)" None 1 "replicate 28 0" None None]
    by (auto simp: map_ctl_spec fresh0_fields server_decodes_def new_socket_answer_def)
qed

end
