(* ===== verification/Connector.thy ===== *)
theory Connector
  imports Connection Socket
begin

text \<open>
  \<^verbatim>\<open>net/include/connector.h\<close> and \<^verbatim>\<open>net/connector.cpp\<close>: the state machine that
  connects to a server, with retries by timer. \<open>cenv\<close> is the kernel's side of the socket calls,
  \<open>ctrs\<close> holds the connector objects.
\<close>

section \<open>State\<close>

record xConnector =
  reConnMs :: int
  startTimestamp :: int
  ctr_status :: xConnStatus
  ctr_finishedCb :: "closure option"
  peerAddr :: xIpAddr

record 'k connector_state = "'k net_state" +
  cenv :: sock_env
  ctrs :: "nat \<Rightarrow> xConnector option"

definition ReConnntervalMs :: int where "ReConnntervalMs = 500"
definition ReConnMaxTimeMs :: int where "ReConnMaxTimeMs = 3000"

text \<open>
  What the calls out of a connector do: the callback for the end of an attempt (descriptor, local
  address, error), which takes the descriptor over; closures that the loop runs; and the number of
  an \<^verbatim>\<open>errno\<close>. \<open>junk\<close> is what the memory of a new address object holds.
\<close>

record 'w ctr_api =
  finish_fn :: "closure \<Rightarrow> int \<Rightarrow> xIpAddr \<Rightarrow> int \<Rightarrow> 'w \<Rightarrow> (unit, 'w) outcome"
  run_fn :: "closure \<Rightarrow> 'w \<Rightarrow> (unit, 'w) outcome"
  errno_num :: "errno \<Rightarrow> int"
  junk_addr :: xIpAddr

definition with_cenv ::
    "(sock_env \<Rightarrow> ('a, sock_env) outcome) \<Rightarrow> ('k, 'z) connector_state_scheme \<Rightarrow> ('a, ('k, 'z) connector_state_scheme) outcome" where
  "with_cenv f s =
     (case f (cenv s) of
        Done x e \<Rightarrow> Done x (s\<lparr>cenv := e\<rparr>)
      | Raise x e \<Rightarrow> Raise x (s\<lparr>cenv := e\<rparr>)
      | Crash c \<Rightarrow> Crash c
      | Diverge \<Rightarrow> Diverge)"

definition get_ctr :: "nat \<Rightarrow> ('k, 'z) connector_state_scheme \<Rightarrow> (xConnector, ('k, 'z) connector_state_scheme) outcome" where
  "get_ctr j s = (case ctrs s j of None \<Rightarrow> Crash Undefined | Some c \<Rightarrow> Done c s)"

definition put_ctr :: "nat \<Rightarrow> xConnector \<Rightarrow> ('k, 'z) connector_state_scheme \<Rightarrow> ('k, 'z) connector_state_scheme" where
  "put_ctr j c s = s\<lparr>ctrs := (ctrs s)(j \<mapsto> c)\<rparr>"

definition setStatus ::
    "nat \<Rightarrow> xConnStatus \<Rightarrow> ('k, 'z) connector_state_scheme \<Rightarrow> (unit, ('k, 'z) connector_state_scheme) outcome" where
  "setStatus j st s = bindS (get_ctr j s) (\<lambda>c s. Done () (put_ctr j (c\<lparr>ctr_status := st\<rparr>) s))"

definition getStatus ::
    "nat \<Rightarrow> ('k, 'z) connector_state_scheme \<Rightarrow> (xConnStatus, ('k, 'z) connector_state_scheme) outcome" where
  "getStatus j s = bindS (get_ctr j s) (\<lambda>c s. Done (ctr_status c) s)"

definition setConnectionFinishedCallBack ::
    "nat \<Rightarrow> closure option \<Rightarrow> ('k, 'z) connector_state_scheme \<Rightarrow> (unit, ('k, 'z) connector_state_scheme) outcome" where
  "setConnectionFinishedCallBack j cb s = bindS (get_ctr j s) (\<lambda>c s. Done () (put_ctr j (c\<lparr>ctr_finishedCb := cb\<rparr>) s))"

definition xConnector_new ::
    "nat \<Rightarrow> xIpAddr \<Rightarrow> closure option \<Rightarrow> ('k, 'z) connector_state_scheme \<Rightarrow> ('k, 'z) connector_state_scheme" where
  "xConnector_new j addr finishcb s =
     (let (now, s) = TNOWMS s
      in put_ctr j \<lparr>reConnMs = 0, startTimestamp = now, ctr_status = XF_CONN_STATUS_UNKOWN,
                    ctr_finishedCb = finishcb, peerAddr = addr\<rparr> s)"

section \<open>Attempts\<close>

text \<open>The call of the callback; an empty one throws.\<close>

definition report ::
    "('k, 'z) connector_state_scheme ctr_api \<Rightarrow> nat \<Rightarrow> int \<Rightarrow> xIpAddr \<Rightarrow> int \<Rightarrow> ('k, 'z) connector_state_scheme \<Rightarrow>
     (unit, ('k, 'z) connector_state_scheme) outcome" where
  "report api j fd addr err s =
     bindS (get_ctr j s) (\<lambda>c s.
       case ctr_finishedCb c of None \<Rightarrow> Raise BadFunctionCall s | Some f \<Rightarrow> finish_fn api f fd addr err s)"

definition local_addr :: "('k, 'z) connector_state_scheme ctr_api \<Rightarrow> xIpAddr" where
  "local_addr api = xIpAddr_port (junk_addr api) 0 False False"

text \<open>\<open>errno\<close> is read after the failed call; what the log calls in between do to it is left out.\<close>

definition beforeConnect ::
    "'k epoll_ctl \<Rightarrow> ('k, 'z) connector_state_scheme ctr_api \<Rightarrow> nat \<Rightarrow> ('k, 'z) connector_state_scheme \<Rightarrow>
     (unit, ('k, 'z) connector_state_scheme) outcome" where
  "beforeConnect ctl api j s =
     bindS (assertS (isLoopThread s) s) (\<lambda>_ s.
     bindS (get_ctr j s) (\<lambda>c s.
     bindS (with_cenv (connectNonblock (junk_addr api) (peerAddr c)) s) (\<lambda>fd s.
       if fd = INVALID_SOCK
       then bindS (setStatus j XF_CONN_STATUS_UNKOWN s) (\<lambda>_ s.
              report api j INVALID_SOCK (local_addr api) (errno_num api (errno_of (cenv s))) s)
       else bindS (setStatus j XF_CONN_STATUS_CONNECTING s) (\<lambda>_ s.
            bindS (loop_reg ctl fd 0 XE_WRITABLE (ConnectorOnEvent j) s) (\<lambda>_ s. Done () s)))))"

definition doConnect ::
    "('k, 'z) connector_state_scheme ctr_api \<Rightarrow> nat \<Rightarrow> ('k, 'z) connector_state_scheme \<Rightarrow>
     (unit, ('k, 'z) connector_state_scheme) outcome" where
  "doConnect api j s = scheduleToLoopThread (run_fn api) (FCall (ConnectorBeforeConnect j)) s"

definition doReConnect ::
    "('k, 'z) connector_state_scheme ctr_api \<Rightarrow> nat \<Rightarrow> ('k, 'z) connector_state_scheme \<Rightarrow>
     (unit, ('k, 'z) connector_state_scheme) outcome" where
  "doReConnect api j s =
     bindS (get_ctr j s) (\<lambda>c s.
       let (now, s) = TNOWMS s
       in doConnect api j (put_ctr j (c\<lparr>reConnMs := 0, startTimestamp := now, ctr_status := XF_CONN_STATUS_UNKOWN\<rparr>) s))"

text \<open>\<open>p\<close> is the address of the timer that a retry allocates; \<open>errcode\<close> is not used.\<close>

definition connectOnError ::
    "'k epoll_ctl \<Rightarrow> ('k, 'z) connector_state_scheme ctr_api \<Rightarrow> ptr \<Rightarrow> nat \<Rightarrow> int \<Rightarrow> int \<Rightarrow>
     ('k, 'z) connector_state_scheme \<Rightarrow> (unit, ('k, 'z) connector_state_scheme) outcome" where
  "connectOnError ctl api p j fd errcode s =
     bindS (setStatus j XF_CONN_STATUS_DISCONNECTED s) (\<lambda>_ s.
     bindS (loop_remove ctl fd s) (\<lambda>_ s.
     let s = s\<lparr>cenv := sys_close fd (cenv s)\<rparr> in
     bindS (get_ctr j s) (\<lambda>c s.
       if reConnMs c < ReConnMaxTimeMs
       then bindS (runAfter (run_fn api) p (of_int ReConnntervalMs) (ConnectorOnReConnect j) s) (\<lambda>_ s. Done () s)
       else report api j INVALID_SOCK (local_addr api) (-7) s)))"

definition connectOnSucc ::
    "('k, 'z) connector_state_scheme ctr_api \<Rightarrow> nat \<Rightarrow> int \<Rightarrow> ('k, 'z) connector_state_scheme \<Rightarrow>
     (unit, ('k, 'z) connector_state_scheme) outcome" where
  "connectOnSucc api j fd s =
     bindS (get_ctr j s) (\<lambda>c s.
       let ((ret, a), e) = getLocalAddr fd (family (peerAddr c)) (local_addr api) (cenv s) in
       bindS (setStatus j XF_CONN_STATUS_CONNECTED (s\<lparr>cenv := e\<rparr>)) (\<lambda>_ s. report api j fd a 0 s))"

definition onEventHandle ::
    "'k epoll_ctl \<Rightarrow> ('k, 'z) connector_state_scheme ctr_api \<Rightarrow> ptr \<Rightarrow> nat \<Rightarrow> xEvent \<Rightarrow>
     ('k, 'z) connector_state_scheme \<Rightarrow> (unit, ('k, 'z) connector_state_scheme) outcome" where
  "onEventHandle ctl api p j xe s =
     bindS (getStatus j s) (\<lambda>st s.
       if has (emask xe) XE_ERROR \<or> has (emask xe) XE_HUP \<or> st = XF_CONN_STATUS_DISCONNECTED
       then connectOnError ctl api p j (efd xe) (-4) s
       else if has (emask xe) XE_WRITABLE
       then let (rc, e) = getSocketError (errno_num api) (efd xe) (cenv s); s = s\<lparr>cenv := e\<rparr>
            in if rc \<noteq> 0 then connectOnError ctl api p j (efd xe) rc s else connectOnSucc api j (efd xe) s
       else Done () s)"

definition onCheckConnectionStatus ::
    "('k, 'z) connector_state_scheme ctr_api \<Rightarrow> nat \<Rightarrow> ('k, 'z) connector_state_scheme \<Rightarrow>
     (unit, ('k, 'z) connector_state_scheme) outcome" where
  "onCheckConnectionStatus api j s =
     bindS (getStatus j s) (\<lambda>st s.
       if st = XF_CONN_STATUS_CONNECTED then Done () s
       else bindS (setStatus j XF_CONN_STATUS_DISCONNECTED s) (\<lambda>_ s.
              report api j INVALID_SOCK (local_addr api) (-7) s))"

definition onReConnect ::
    "'k epoll_ctl \<Rightarrow> ('k, 'z) connector_state_scheme ctr_api \<Rightarrow> nat \<Rightarrow> ('k, 'z) connector_state_scheme \<Rightarrow>
     (unit, ('k, 'z) connector_state_scheme) outcome" where
  "onReConnect ctl api j s =
     bindS (get_ctr j s) (\<lambda>c s. beforeConnect ctl api j (put_ctr j (c\<lparr>reConnMs := reConnMs c + ReConnntervalMs\<rparr>) s))"

end
