(* ===== verification/Sync.thy ===== *)
theory Sync
  imports Prelude
begin

text \<open>
  \<^verbatim>\<open>base/include/mutex.h\<close>, \<^verbatim>\<open>base/mutex.cpp\<close>, \<^verbatim>\<open>base/include/condition.h\<close>,
  \<^verbatim>\<open>base/condition.cpp\<close>, \<^verbatim>\<open>base/include/xthread.h\<close> and
  \<^verbatim>\<open>base/xthread.cpp\<close>: the wrappers around the thread library. What the library does with
  a mutex, a condition and a \<^verbatim>\<open>std::thread\<close> is modelled as documented.
\<close>

section \<open>Mutex\<close>

text \<open>
  The mutex is of the error-checking kind: its state is the thread that holds it. Locking it again
  by the same thread fails (\<^verbatim>\<open>EDEADLK\<close>), unlocking it by another one too
  (\<^verbatim>\<open>EPERM\<close>); locking a mutex that another thread holds waits (\<open>None\<close>).
\<close>

type_synonym xMutex = "nat option"

definition xMutex_new :: xMutex where
  "xMutex_new = None"

text \<open>The constructor asserts that each of its four calls returns 0.\<close>

definition mutex_create :: "int \<Rightarrow> int \<Rightarrow> int \<Rightarrow> int \<Rightarrow> fault + xMutex" where
  "mutex_create attr_init settype init attr_destroy =
     bindE (assertE (attr_init = 0)) (\<lambda>_.
     bindE (assertE (settype = 0)) (\<lambda>_.
     bindE (assertE (init = 0)) (\<lambda>_.
     bindE (assertE (attr_destroy = 0)) (\<lambda>_. Inr xMutex_new))))"

definition mutex_lock :: "nat \<Rightarrow> xMutex \<Rightarrow> (exn + xMutex) option" where
  "mutex_lock t m =
     (case m of
        None \<Rightarrow> Some (Inr (Some t))
      | Some u \<Rightarrow> if u = t then Some (Inl MutexException) else None)"

definition mutex_unlock :: "nat \<Rightarrow> xMutex \<Rightarrow> exn + xMutex" where
  "mutex_unlock t m = (if m = Some t then Inr None else Inl MutexException)"

text \<open>
  The scope of an \<^verbatim>\<open>xMutexLockGuard\<close> around \<open>body\<close>, for a mutex that is a part of the
  state. The guard unlocks on every way out; an exception from its destructor ends the process.
  Waiting for another thread is not an outcome of one thread alone and counts as \<open>Diverge\<close>.
\<close>

definition guard_end ::
    "nat \<Rightarrow> ('s \<Rightarrow> xMutex) \<Rightarrow> (xMutex \<Rightarrow> 's \<Rightarrow> 's) \<Rightarrow> ('s \<Rightarrow> ('a, 's) outcome) \<Rightarrow> 's \<Rightarrow> ('a, 's) outcome" where
  "guard_end t get put leave s = (case mutex_unlock t (get s) of Inl _ \<Rightarrow> Crash Exited | Inr m \<Rightarrow> leave (put m s))"

definition with_guard ::
    "nat \<Rightarrow> ('s \<Rightarrow> xMutex) \<Rightarrow> (xMutex \<Rightarrow> 's \<Rightarrow> 's) \<Rightarrow> ('s \<Rightarrow> ('a, 's) outcome) \<Rightarrow> 's \<Rightarrow> ('a, 's) outcome" where
  "with_guard t get put body s =
     (case mutex_lock t (get s) of
        None \<Rightarrow> Diverge
      | Some (Inl e) \<Rightarrow> Raise e s
      | Some (Inr m) \<Rightarrow>
          (case body (put m s) of
             Done x s1 \<Rightarrow> guard_end t get put (Done x) s1
           | Raise e s1 \<Rightarrow> guard_end t get put (Raise e) s1
           | Crash c \<Rightarrow> Crash c
           | Diverge \<Rightarrow> Diverge))"

section \<open>Condition\<close>

text \<open>
  What the constructors and destructors write to \<^verbatim>\<open>cerr\<close>, for the code that the library returns.
  The code is 0 or positive, so the constructor of a condition reports nothing.
\<close>

definition mutex_destroy :: "(int \<Rightarrow> string) \<Rightarrow> int \<Rightarrow> string list" where
  "mutex_destroy strerror rc =
     (if rc \<noteq> 0 then [''[xMutex::~xMutex] pthread_mutex_destroy error:'' @ strerror rc] else [])"

definition cond_new :: "(int \<Rightarrow> string) \<Rightarrow> int \<Rightarrow> string list" where
  "cond_new strerror rc =
     (if rc < 0 then [''[xCondition::~xCondition] pthread_cond_init error:'' @ strerror rc] else [])"

definition cond_destroy :: "(int \<Rightarrow> string) \<Rightarrow> int \<Rightarrow> string list" where
  "cond_destroy strerror rc =
     (if rc \<noteq> 0 then [''[xCondition::~xCondition] pthread_cond_destroy error:'' @ strerror rc] else [])"

lemma cond_new_silent: "0 \<le> rc \<Longrightarrow> cond_new strerror rc = []"
  by (simp add: cond_new_def)

text \<open>
  \<open>abstime\<close>: \<open>now\<close> is what \<^verbatim>\<open>gettimeofday\<close> returns, seconds and microseconds; the
  divisions of the code truncate. The 64-bit sum does not overflow on any clock.
\<close>

definition trunc_div :: "int \<Rightarrow> int \<Rightarrow> int" where
  "trunc_div a b = (if a < 0 then - ((- a) div b) else a div b)"

definition trunc_mod :: "int \<Rightarrow> int \<Rightarrow> int" where
  "trunc_mod a b = a - trunc_div a b * b"

definition abstime :: "int \<times> int \<Rightarrow> int32 \<Rightarrow> int \<times> int" where
  "abstime now millsecond =
     (let it = fst now * 1000000 + snd now + sint millsecond * 1000;
          tv_sec = trunc_div it 1000000; tv_usec = trunc_mod it 1000000
      in (tv_sec, tv_usec * 1000))"

text \<open>\<open>rc\<close> is what the wait of the library returns; \<^verbatim>\<open>ETIMEDOUT\<close> is no error.\<close>

definition ETIMEDOUT :: int where "ETIMEDOUT = 110"

definition cond_wait :: "int \<Rightarrow> 's \<Rightarrow> (unit, 's) outcome" where
  "cond_wait rc s = (if rc \<noteq> 0 then Raise ConditionException s else Done () s)"

definition timedWait :: "int \<Rightarrow> 's \<Rightarrow> (bool, 's) outcome" where
  "timedWait rc s =
     (if rc \<noteq> 0 then if rc \<noteq> ETIMEDOUT then Raise ConditionException s else Done False s else Done True s)"

definition cond_signal :: "int \<Rightarrow> 's \<Rightarrow> (unit, 's) outcome" where
  "cond_signal rc s = (if rc \<noteq> 0 then Raise ConditionException s else Done () s)"

definition cond_broadcast :: "int \<Rightarrow> 's \<Rightarrow> (unit, 's) outcome" where
  "cond_broadcast rc s = (if rc \<noteq> 0 then Raise ConditionException s else Done () s)"

section \<open>Thread\<close>

text \<open>
  \<open>joinable\<close> is the state of the \<^verbatim>\<open>std::thread\<close> member. Assigning to a joinable thread
  and destroying one end the process (the creation of a thread succeeds); joining or detaching one that is not joinable throws, which
  in the destructor ends the process too.
\<close>

record xThread =
  started :: bool
  joined :: bool
  joinable :: bool

definition xThread_new :: xThread where
  "xThread_new = \<lparr>started = False, joined = False, joinable = False\<rparr>"

definition thread_start :: "xThread \<Rightarrow> (unit, xThread) outcome" where
  "thread_start th =
     (let th = th\<lparr>started := True\<rparr> in if joinable th then Crash Exited else Done () (th\<lparr>joinable := True\<rparr>))"

definition thread_join :: "xThread \<Rightarrow> (unit, xThread) outcome" where
  "thread_join th =
     (let th = th\<lparr>joined := True\<rparr> in if \<not> joinable th then Raise SystemError th else Done () (th\<lparr>joinable := False\<rparr>))"

definition thread_destroy :: "xThread \<Rightarrow> (unit, xThread) outcome" where
  "thread_destroy th =
     bindS (if started th \<and> \<not> joined th
            then if joinable th then Done () (th\<lparr>joinable := False\<rparr>) else Crash Exited
            else Done () th) (\<lambda>_ th.
       if joinable th then Crash Exited else Done () th)"

text \<open>What a thread runs: an exception of its function aborts the process.\<close>

definition runInThread :: "('s \<Rightarrow> (unit, 's) outcome) \<Rightarrow> 's \<Rightarrow> (unit, 's) outcome" where
  "runInThread func s = catchS (func s) (\<lambda>e s. Crash Exited)"

text \<open>\<open>startThread\<close> frees the data of the thread after the function has returned.\<close>

definition startThread :: "('s \<Rightarrow> (unit, 's) outcome) \<Rightarrow> 's \<Rightarrow> (unit, 's) outcome" where
  "startThread func s = bindS (runInThread func s) (\<lambda>_ s. Done () s)"

section \<open>Facts\<close>

lemma with_guard_free [simp]:
  assumes "get s = None" and "\<And>m s. get (put m s) = m"
  shows "with_guard t get put (\<lambda>s. Done x (f s)) s =
    (if get (f (put (Some t) s)) = Some t then Done x (put None (f (put (Some t) s))) else Crash Exited)"
  using assms by (simp add: with_guard_def mutex_lock_def mutex_unlock_def guard_end_def)

lemma with_guard_held:
  assumes "get s = Some t"
  shows "with_guard t get put body s = Raise MutexException s"
  using assms by (simp add: with_guard_def mutex_lock_def)

lemma trunc_div_nonneg: "0 \<le> a \<Longrightarrow> trunc_div a b = a div b \<and> trunc_mod a b = a mod b"
  by (simp add: trunc_div_def trunc_mod_def minus_div_mult_eq_mod)

text \<open>
  The deadline of a timed wait: the time of day and the delay, to the microsecond, with a fraction
  below a second. A sum before 1970 would have a negative fraction.
\<close>

lemma abstime_exact:
  assumes "0 \<le> fst now * 1000000 + snd now + sint ms * 1000"
  shows "fst (abstime now ms) * 1000000000 + snd (abstime now ms) =
      (fst now * 1000000 + snd now + sint ms * 1000) * 1000"
    and "0 \<le> snd (abstime now ms)" and "snd (abstime now ms) < 1000000000"
proof -
  define i where "i = fst now * 1000000 + snd now + sint ms * 1000"
  have a: "abstime now ms = (i div 1000000, i mod 1000000 * 1000)"
    using trunc_div_nonneg [OF assms] by (simp add: abstime_def Let_def i_def)
  have "i div 1000000 * 1000000 + i mod 1000000 = i" by (rule div_mult_mod_eq)
  then show "fst (abstime now ms) * 1000000000 + snd (abstime now ms) =
      (fst now * 1000000 + snd now + sint ms * 1000) * 1000"
    unfolding a i_def [symmetric] fst_conv snd_conv by linarith
  show "0 \<le> snd (abstime now ms)" unfolding a by simp
  have "i mod 1000000 < 1000000" by simp
  then show "snd (abstime now ms) < 1000000000" unfolding a by simp
qed

text \<open>A thread object may be destroyed at any point of a life in which it is started at most once.\<close>

lemma thread_life:
  "thread_destroy xThread_new = Done () xThread_new"
  "\<exists>th. thread_start xThread_new = Done () th \<and> (\<exists>th1. thread_destroy th = Done () th1) \<and>
     (\<exists>th2 th3. thread_join th = Done () th2 \<and> thread_destroy th2 = Done () th3 \<and> thread_join th2 = Raise SystemError th2) \<and>
     thread_start th = Crash Exited"
  by (simp_all add: thread_destroy_def thread_start_def thread_join_def xThread_new_def)

end
