(* ===== verification/Client.thy ===== *)
theory Client
  imports Connector Sync
begin

text \<open>
  \<^verbatim>\<open>net/include/xclient.h\<close> and \<^verbatim>\<open>net/xclient.cpp\<close>: the client ties a connector
  and one connection together. At the end the closures of the client get their meaning. The mutex
  \<^verbatim>\<open>lock_\<close>, which protects the pointer to the connection, is \<open>cli_lock\<close>.
\<close>

section \<open>State\<close>

text \<open>
  The client's connector is object \<open>cli_ctr\<close>; \<open>cli_next\<close> is the number of the next connection
  object. The callbacks of the user are numbers of user functions.
\<close>

record 'k client_state = "'k connector_state" +
  cli_isConnected :: bool
  cli_addr :: xIpAddr
  cli_ctr :: nat
  cli_lock :: xMutex
  cli_conn :: "nat option"
  cli_next :: nat
  cli_finishedCb :: "nat option"
  cli_sentBytesCb :: "nat option"
  cli_msgDecodeCb :: "nat option"
  cli_msgCommitCb :: "nat option"
  cli_closeCb :: "nat option"

text \<open>
  What the functions of the user do; the callback for a finished attempt may get no connection.
  \<open>c_holds i\<close> says whether the user's code keeps a \<^verbatim>\<open>shared_ptr\<close> to connection \<open>i\<close> of its own.
\<close>

record 'w client_fns =
  c_decode :: "nat \<Rightarrow> byte list \<Rightarrow> int \<Rightarrow> 'w \<Rightarrow> (int, 'w) outcome"
  c_sent :: "nat \<Rightarrow> nat \<Rightarrow> nat \<Rightarrow> 'w \<Rightarrow> (unit, 'w) outcome"
  c_commit :: "nat \<Rightarrow> nat \<Rightarrow> xBuffer \<Rightarrow> 'w \<Rightarrow> (xBuffer, 'w) outcome"
  c_close :: "nat \<Rightarrow> nat \<Rightarrow> 'w \<Rightarrow> (unit, 'w) outcome"
  c_finished :: "nat \<Rightarrow> nat option \<Rightarrow> 'w \<Rightarrow> (unit, 'w) outcome"
  c_run :: "nat \<Rightarrow> 'w \<Rightarrow> (unit, 'w) outcome"
  c_holds :: "nat \<Rightarrow> 'w \<Rightarrow> bool"

definition xClient_new ::
    "nat \<Rightarrow> xIpAddr \<Rightarrow> ('k, 'z) client_state_scheme \<Rightarrow> ('k, 'z) client_state_scheme" where
  "xClient_new j addr s =
     xConnector_new j addr (Some ClientConnected)
       (s\<lparr>cli_isConnected := False, cli_addr := addr, cli_ctr := j, cli_lock := xMutex_new, cli_conn := None, cli_finishedCb := None,
          cli_sentBytesCb := None, cli_msgDecodeCb := None, cli_msgCommitCb := None, cli_closeCb := None\<rparr>)"

definition cli_setMsgDecodeCallBack :: "nat option \<Rightarrow> ('k, 'z) client_state_scheme \<Rightarrow> ('k, 'z) client_state_scheme" where
  "cli_setMsgDecodeCallBack cb s = s\<lparr>cli_msgDecodeCb := cb\<rparr>"

definition cli_setConnectionFinishedCallBack :: "nat option \<Rightarrow> ('k, 'z) client_state_scheme \<Rightarrow> ('k, 'z) client_state_scheme" where
  "cli_setConnectionFinishedCallBack cb s = s\<lparr>cli_finishedCb := cb\<rparr>"

definition cli_setConnectionClosedCallBack :: "nat option \<Rightarrow> ('k, 'z) client_state_scheme \<Rightarrow> ('k, 'z) client_state_scheme" where
  "cli_setConnectionClosedCallBack cb s = s\<lparr>cli_closeCb := cb\<rparr>"

definition cli_setSentBytesCallBack :: "nat option \<Rightarrow> ('k, 'z) client_state_scheme \<Rightarrow> ('k, 'z) client_state_scheme" where
  "cli_setSentBytesCallBack cb s = s\<lparr>cli_sentBytesCb := cb\<rparr>"

definition cli_setMsgCommitCallBack :: "nat option \<Rightarrow> ('k, 'z) client_state_scheme \<Rightarrow> ('k, 'z) client_state_scheme" where
  "cli_setMsgCommitCallBack cb s = s\<lparr>cli_msgCommitCb := cb\<rparr>"

definition locked ::
    "(('k, 'z) client_state_scheme \<Rightarrow> ('a, ('k, 'z) client_state_scheme) outcome) \<Rightarrow> ('k, 'z) client_state_scheme \<Rightarrow>
     ('a, ('k, 'z) client_state_scheme) outcome" where
  "locked body s = with_guard (current s) cli_lock (\<lambda>m s. s\<lparr>cli_lock := m\<rparr>) body s"

definition client_start ::
    "('k, 'z) client_state_scheme ctr_api \<Rightarrow> ('k, 'z) client_state_scheme \<Rightarrow> (unit, ('k, 'z) client_state_scheme) outcome" where
  "client_start api s = doConnect api (cli_ctr s) (s\<lparr>cli_isConnected := True\<rparr>)"

definition client_stop ::
    "'k epoll_ctl \<Rightarrow> ('k, 'z) client_state_scheme cbs \<Rightarrow>
     (closure \<Rightarrow> ('k, 'z) client_state_scheme \<Rightarrow> (unit, ('k, 'z) client_state_scheme) outcome) \<Rightarrow>
     ('k, 'z) client_state_scheme \<Rightarrow> (unit, ('k, 'z) client_state_scheme) outcome" where
  "client_stop ctl cb call s =
     (let s = s\<lparr>cli_isConnected := False\<rparr>
      in locked (\<lambda>s. case cli_conn s of None \<Rightarrow> Done () s | Some i \<Rightarrow> closeConnection ctl cb call i s) s)"

section \<open>Callbacks\<close>

definition client_connectionFinished ::
    "('k, 'z) client_state_scheme client_fns \<Rightarrow> nat option \<Rightarrow> ('k, 'z) client_state_scheme \<Rightarrow>
     (unit, ('k, 'z) client_state_scheme) outcome" where
  "client_connectionFinished U conn s =
     (case cli_finishedCb s of None \<Rightarrow> Done () s
      | Some f \<Rightarrow> catchS (c_finished U f conn s) (\<lambda>e s. Done () s))"

text \<open>
  The connection is made from the socket of the connector; when its constructor throws, the socket,
  already a member, is destroyed.
\<close>

definition client_connection ::
    "int \<Rightarrow> ('k, 'z) client_state_scheme \<Rightarrow> (xConnection, ('k, 'z) client_state_scheme) outcome" where
  "client_connection fd s =
     bindS (liftS (xConnection_new fd (Some ClientDecode) (Some ClientMessage) (Some ClientSentBytes)
                     (Some ClientClosed) (Some ClientFinished)) s) (\<lambda>c s.
     bindS (catchS (with_cenv (setNonBlock True fd) s) (\<lambda>x s. Raise x (s\<lparr>cenv := destroy fd (cenv s)\<rparr>)))
       (\<lambda>_ s. Done c s))"

definition connectedToServer ::
    "('k, 'z) client_state_scheme client_fns \<Rightarrow>
     (closure \<Rightarrow> ('k, 'z) client_state_scheme \<Rightarrow> (unit, ('k, 'z) client_state_scheme) outcome) \<Rightarrow>
     int \<Rightarrow> xIpAddr \<Rightarrow> int \<Rightarrow> ('k, 'z) client_state_scheme \<Rightarrow> (unit, ('k, 'z) client_state_scheme) outcome" where
  "connectedToServer U call fd localAddr errcode s =
     (if errcode \<noteq> 0 then client_connectionFinished U None s
      else bindS (client_connection fd s) (\<lambda>c s.
        let i = cli_next s;
            s = put_conn i c (s\<lparr>cli_next := Suc i\<rparr>)
        in bindS (locked (\<lambda>s. Done () (s\<lparr>cli_conn := Some i\<rparr>)) s) (\<lambda>_ s.
             scheduleToLoopThread call (FCall (ConnMakeConnected i)) s)))"

definition client_defaultMsgDecode ::
    "('k, 'z) client_state_scheme client_fns \<Rightarrow> byte list \<Rightarrow> int \<Rightarrow> ('k, 'z) client_state_scheme \<Rightarrow>
     (int, ('k, 'z) client_state_scheme) outcome" where
  "client_defaultMsgDecode U bs buffLen s =
     (case cli_msgDecodeCb s of None \<Rightarrow> Done buffLen s
      | Some f \<Rightarrow> catchS (c_decode U f bs buffLen s) (\<lambda>e s. Done XF_MSG_DECODE_ERR s))"

definition client_defaultSentBytes ::
    "('k, 'z) client_state_scheme client_fns \<Rightarrow> nat \<Rightarrow> nat \<Rightarrow> ('k, 'z) client_state_scheme \<Rightarrow>
     (unit, ('k, 'z) client_state_scheme) outcome" where
  "client_defaultSentBytes U i bytes s = (case cli_sentBytesCb s of None \<Rightarrow> Done () s | Some f \<Rightarrow> c_sent U f i bytes s)"

text \<open>When the callback throws, the buffer, which is then only logged, counts as unchanged.\<close>

definition client_messageComing ::
    "('k, 'z) client_state_scheme client_fns \<Rightarrow> nat \<Rightarrow> xBuffer \<Rightarrow> ('k, 'z) client_state_scheme \<Rightarrow>
     (xBuffer, ('k, 'z) client_state_scheme) outcome" where
  "client_messageComing U i buf s =
     (case cli_msgCommitCb s of None \<Rightarrow> Done buf s
      | Some f \<Rightarrow> catchS (c_commit U f i buf s) (\<lambda>e s. Done buf s))"

definition client_connectionClosed ::
    "(closure \<Rightarrow> ('k, 'z) client_state_scheme \<Rightarrow> (unit, ('k, 'z) client_state_scheme) outcome) \<Rightarrow>
     nat \<Rightarrow> ('k, 'z) client_state_scheme \<Rightarrow> (unit, ('k, 'z) client_state_scheme) outcome" where
  "client_connectionClosed call i s = scheduleToLoopThread call (FCall (ClientDoClose i)) s"

text \<open>The new close callback holds the user's and no pointer to the client.\<close>

definition client_doCloseConnection ::
    "(closure \<Rightarrow> ('k, 'z) client_state_scheme \<Rightarrow> (unit, ('k, 'z) client_state_scheme) outcome) \<Rightarrow>
     nat \<Rightarrow> ('k, 'z) client_state_scheme \<Rightarrow> (unit, ('k, 'z) client_state_scheme) outcome" where
  "client_doCloseConnection call i s =
     bindS (locked (\<lambda>s. Done () (s\<lparr>cli_conn := None\<rparr>)) s) (\<lambda>_ s.
       scheduleToLoopThread call (FCall (ConnSetCloseCb i (ClientCloseConnection (cli_closeCb s)))) s)"

definition client_destroy ::
    "(closure \<Rightarrow> ('k, 'z) client_state_scheme \<Rightarrow> (unit, ('k, 'z) client_state_scheme) outcome) \<Rightarrow>
     ('k, 'z) client_state_scheme \<Rightarrow> (unit, ('k, 'z) client_state_scheme) outcome" where
  "client_destroy call s =
     bindS (locked (\<lambda>s. Done (cli_conn s) s) s) (\<lambda>conn s.
       case conn of None \<Rightarrow> Done () s
       | Some i \<Rightarrow> scheduleToLoopThread call (FCall (ConnSetCloseCb i (ClientCloseConnection (cli_closeCb s)))) s)"

text \<open>The free function \<^verbatim>\<open>closeConnection\<close>; an empty user callback throws.\<close>

definition client_closeConnection ::
    "('k, 'z) client_state_scheme client_fns \<Rightarrow>
     (closure \<Rightarrow> ('k, 'z) client_state_scheme \<Rightarrow> (unit, ('k, 'z) client_state_scheme) outcome) \<Rightarrow>
     nat option \<Rightarrow> nat \<Rightarrow> ('k, 'z) client_state_scheme \<Rightarrow> (unit, ('k, 'z) client_state_scheme) outcome" where
  "client_closeConnection U call ccb i s =
     bindS (case ccb of None \<Rightarrow> Raise BadFunctionCall s | Some f \<Rightarrow> c_close U f i s) (\<lambda>_ s.
       scheduleToLoopThread call (FCall (ConnSetClosed i)) s)"

section \<open>The closures of the client\<close>

definition client_cbs ::
    "('k, 'z) client_state_scheme client_fns \<Rightarrow>
     (closure \<Rightarrow> ('k, 'z) client_state_scheme \<Rightarrow> (unit, ('k, 'z) client_state_scheme) outcome) \<Rightarrow>
     ('k, 'z) client_state_scheme cbs" where
  "client_cbs U call =
     \<lparr>decode_fn = \<lambda>f bs n s. (case f of ClientDecode \<Rightarrow> client_defaultMsgDecode U bs n s | _ \<Rightarrow> Crash Undefined),
      sent_fn = \<lambda>f i n s. (case f of ClientSentBytes \<Rightarrow> client_defaultSentBytes U i n s | _ \<Rightarrow> Crash Undefined),
      commit_fn = \<lambda>f i b s. (case f of ClientMessage \<Rightarrow> client_messageComing U i b s | _ \<Rightarrow> Crash Undefined),
      conn_fn = \<lambda>f i s. (case f of ClientClosed \<Rightarrow> client_connectionClosed call i s
                         | ClientFinished \<Rightarrow> client_connectionFinished U (Some i) s
                         | ClientCloseConnection ccb \<Rightarrow> client_closeConnection U call ccb i s
                         | _ \<Rightarrow> Crash Undefined)\<rparr>"

text \<open>
  The register's callback is deleted when the connection is unregistered, so an event's handler
  keeps no pointer: at each return of the user's code somebody else has to.
\<close>

definition cli_holds :: "('k, 'z) client_state_scheme client_fns \<Rightarrow> nat \<Rightarrow> ('k, 'z) client_state_scheme \<Rightarrow> bool" where
  "cli_holds U i s \<longleftrightarrow> c_holds U i s \<or> loop_holds i s \<or> cli_conn s = Some i"

definition client_lent_cbs ::
    "('k, 'z) client_state_scheme client_fns \<Rightarrow>
     (closure \<Rightarrow> ('k, 'z) client_state_scheme \<Rightarrow> (unit, ('k, 'z) client_state_scheme) outcome) \<Rightarrow>
     ('k, 'z) client_state_scheme cbs" where
  "client_lent_cbs U call = (let cb = client_cbs U call in cb
     \<lparr>sent_fn := \<lambda>f i n s. returning (cli_holds U i) s (sent_fn cb f i n s),
      commit_fn := \<lambda>f i b s. returning (cli_holds U i) s (commit_fn cb f i b s)\<rparr>)"

definition client_api ::
    "('k, 'z) client_state_scheme client_fns \<Rightarrow> (errno \<Rightarrow> int) \<Rightarrow> xIpAddr \<Rightarrow>
     (closure \<Rightarrow> ('k, 'z) client_state_scheme \<Rightarrow> (unit, ('k, 'z) client_state_scheme) outcome) \<Rightarrow>
     ('k, 'z) client_state_scheme ctr_api" where
  "client_api U errs junk call =
     \<lparr>finish_fn = \<lambda>f fd a err s. (case f of ClientConnected \<Rightarrow> connectedToServer U call fd a err s | _ \<Rightarrow> Crash Undefined),
      run_fn = call, errno_num = errs, junk_addr = junk\<rparr>"

text \<open>Running a closure; the fuel bounds the nesting of closures that run others at once.\<close>

fun client_call ::
    "'k epoll_ctl \<Rightarrow> ('k, 'z) client_state_scheme client_fns \<Rightarrow> (errno \<Rightarrow> int) \<Rightarrow> xIpAddr \<Rightarrow> nat \<Rightarrow> closure \<Rightarrow>
     ('k, 'z) client_state_scheme \<Rightarrow> (unit, ('k, 'z) client_state_scheme) outcome" where
  "client_call ctl U errs junk 0 f s = Diverge"
| "client_call ctl U errs junk (Suc n) f s =
     (let call = client_call ctl U errs junk n; cb = client_cbs U call; api = client_api U errs junk call in
      case f of
        ConnMakeConnected i \<Rightarrow> makeConnected ctl cb i s
      | ConnCloseConn i \<Rightarrow> bindS (closeConn ctl cb i s) (\<lambda>_ s. Done () s)
      | ConnCloseConnection i \<Rightarrow> closeConnection ctl cb call i s
      | ConnSendMsgToBuffer i msg \<Rightarrow> sendMsgToBuffer ctl cb i msg s
      | ConnSetClosed i \<Rightarrow> setClosed i s
      | ConnSetCloseCb i g \<Rightarrow> setConnectionClosedCallBack i (Some g) s
      | ConnectorBeforeConnect j \<Rightarrow> beforeConnect ctl api j s
      | ConnectorOnReConnect j \<Rightarrow> onReConnect ctl api j s
      | ClientDoClose i \<Rightarrow> client_doCloseConnection call i s
      | UserFn u \<Rightarrow> c_run U u s
      | _ \<Rightarrow> Crash Undefined)"

definition client_on_event ::
    "'k epoll_ctl \<Rightarrow> ('k, 'z) client_state_scheme client_fns \<Rightarrow> (errno \<Rightarrow> int) \<Rightarrow> xIpAddr \<Rightarrow> nat \<Rightarrow> ptr \<Rightarrow>
     closure \<Rightarrow> xEvent \<Rightarrow> ('k, 'z) client_state_scheme \<Rightarrow> (unit, ('k, 'z) client_state_scheme) outcome" where
  "client_on_event ctl U errs junk n p f xe s =
     (let call = client_call ctl U errs junk n in
      case f of
        LoopWakeUp \<Rightarrow> wakeUpCallBack xe s
      | ConnHandleEvent i \<Rightarrow> HandleEvent ctl (client_lent_cbs U call) n i xe s
      | ConnectorOnEvent j \<Rightarrow> onEventHandle ctl (client_api U errs junk call) p j xe s
      | _ \<Rightarrow> Crash Undefined)"

end
