(* ===== verification/Client_Laws.thy ===== *)
theory Client_Laws
  imports Client Connection_Laws Timer_Fire
begin

text \<open>
  What the connector and the client do, one step of an attempt at a time: the non-blocking
  connect, the failure of an attempt, the timer that starts the next one.
\<close>

section \<open>Fields\<close>

lemma get_ctr_Some [simp]: "ctrs s j = Some c \<Longrightarrow> get_ctr j s = Done c s"
  by (simp add: get_ctr_def)

lemma put_ctr_fields [simp]:
  "ctrs (put_ctr j c s) = (ctrs s)(j \<mapsto> c)" "register (put_ctr j c s) = register s" "kern (put_ctr j c s) = kern s"
  "timers (put_ctr j c s) = timers s" "theap (put_ctr j c s) = theap s" "clock (put_ctr j c s) = clock s"
  "cenv (put_ctr j c s) = cenv s" "conns (put_ctr j c s) = conns s" "isLoopThread (put_ctr j c s) = isLoopThread s"
  "mirror view (put_ctr j c s) = mirror view s" "connector_state.more (put_ctr j c s) = connector_state.more s"
  by (simp_all add: put_ctr_def isLoopThread_def mirror_def)

lemma setStatus_Some [simp]: "ctrs s j = Some c \<Longrightarrow> setStatus j st s = Done () (put_ctr j (c\<lparr>ctr_status := st\<rparr>) s)"
  by (simp add: setStatus_def)

lemma getStatus_Some [simp]: "ctrs s j = Some c \<Longrightarrow> getStatus j s = Done (ctr_status c) s"
  by (simp add: getStatus_def)

lemma with_cenv_Done: "f (cenv s) = Done x e \<Longrightarrow> with_cenv f s = Done x (s\<lparr>cenv := e\<rparr>)"
  by (simp add: with_cenv_def)

lemma timer_fields [simp]:
  "isLoopThread (s\<lparr>timers := ts\<rparr>) = isLoopThread s" "isLoopThread (s\<lparr>theap := h\<rparr>) = isLoopThread s"
  "isLoopThread (s\<lparr>nextSerial := n\<rparr>) = isLoopThread s" "isLoopThread (s\<lparr>clock := cs\<rparr>) = isLoopThread s"
  "isLoopThread (s\<lparr>last_now := x\<rparr>) = isLoopThread s" "isLoopThread (t\<lparr>cenv := e\<rparr>) = isLoopThread t"
  "mirror view (s\<lparr>timers := ts\<rparr>) = mirror view s" "mirror view (s\<lparr>theap := h\<rparr>) = mirror view s"
  "mirror view (s\<lparr>nextSerial := n\<rparr>) = mirror view s" "mirror view (s\<lparr>clock := cs\<rparr>) = mirror view s"
  "mirror view (s\<lparr>last_now := x\<rparr>) = mirror view s" "mirror view (t\<lparr>cenv := e\<rparr>) = mirror view t"
  by (simp_all add: isLoopThread_def mirror_def)

lemma new_timer_fields:
  "theap (new_timer_at p x cb s) = (theap s)(p \<mapsto> \<lparr>repeat = 1, interval = 0, expiration = x,
     timerSerial = sint (nextSerial s + 1), timer_cb = cb\<rparr>)"
  "new_timer_at p x cb s = s\<lparr>nextSerial := nextSerial (new_timer_at p x cb s), theap := theap (new_timer_at p x cb s)\<rparr>"
  by (simp_all add: new_timer_at_def case_prod_beta)

section \<open>One attempt\<close>

text \<open>
  The answers of the kernel to a non-blocking connect that is in progress on \<open>fd\<close>: to
  \<^verbatim>\<open>socket\<close>, \<^verbatim>\<open>setsockopt\<close>, twice \<^verbatim>\<open>fcntl\<close>, \<^verbatim>\<open>connect\<close> and
  \<^verbatim>\<open>getsockname\<close>.
\<close>

definition attempt_replies :: "int \<Rightarrow> (int \<times> errno \<times> byte list) list" where
  "attempt_replies fd = [(fd, EINVAL, []), (0, EINVAL, []), (2, EINVAL, []), (0, EINVAL, []), (-1, EINPROGRESS, []), (0, EINVAL, [])]"

lemma connectNonblock_ok:
  assumes "replies e = attempt_replies fd @ rest" and "0 \<le> fd"
  obtains e' where "connectNonblock junk a e = Done fd e'" and "replies e' = rest"
    and "opened (trace e') = opened (trace e) @ [fd]" and "closed_fds (trace e') = closed_fds (trace e)"
proof -
  have nb: "XFNET_CONNECT_NONBLOCK AND XFNET_CONNECT_NONBLOCK \<noteq> 0"
    by (simp add: XFNET_CONNECT_NONBLOCK_def)
  show ?thesis
    using assms nb
    by (intro that [of "snd (sys (SysGetSockName fd 0) (snd (sys (SysConnect fd a (getSockLen a)) (snd (sys (SysSetFl fd (2 OR O_NONBLOCK))
          (snd (sys (SysGetFl fd) (snd (sys (SysSetOpt fd SO_REUSEADDR (IntVal 1)) (snd (sys (SysSocket (uint (family a)) SOCK_STREAM 0) e)))))))))))"])
      (simp_all add: connectNonblock_def tcpConnect_def createSocket_def api_setReuseAddr_def set_option_def nonBlock_def
        setBlock_def getLocalAddr_def sys_def attempt_replies_def sock_consts Let_def)
qed

lemma beforeConnect_ok:
  assumes "epoll_ctl_spec ctl view usable" and "mirror view s" and "isLoopThread s" and "usable fd" and "0 \<le> fd"
    and "ctrs s j = Some c" and "replies (cenv s) = attempt_replies fd @ rest"
  obtains e k where "beforeConnect ctl api j s = Done () (put_ctr j (c\<lparr>ctr_status := XF_CONN_STATUS_CONNECTING\<rparr>) (s\<lparr>cenv := e\<rparr>)
      \<lparr>register := (register s)(fd \<mapsto> \<lparr>es_mask = XE_WRITABLE, es_data = 0, es_callback = ConnectorOnEvent j\<rparr>), kern := k\<rparr>)"
    and "replies e = rest" and "opened (trace e) = opened (trace (cenv s)) @ [fd]"
    and "closed_fds (trace e) = closed_fds (trace (cenv s))"
    and "mirror view (s\<lparr>register := (register s)(fd \<mapsto> \<lparr>es_mask = XE_WRITABLE, es_data = 0, es_callback = ConnectorOnEvent j\<rparr>), kern := k\<rparr>)"
proof -
  obtain e where e: "connectNonblock (junk_addr api) (peerAddr c) (cenv s) = Done fd e" "replies e = rest"
    "opened (trace e) = opened (trace (cenv s)) @ [fd]" "closed_fds (trace e) = closed_fds (trace (cenv s))"
    using connectNonblock_ok [OF assms(7,5)] by metis
  let ?s = "put_ctr j (c\<lparr>ctr_status := XF_CONN_STATUS_CONNECTING\<rparr>) (s\<lparr>cenv := e\<rparr>)"
  have "mirror view ?s" "isLoopThread ?s" using assms(2,3) by simp_all
  from loop_reg_ok [OF assms(1) this assms(4), of 0 XE_WRITABLE "ConnectorOnEvent j"] obtain k where
    k: "loop_reg ctl fd 0 XE_WRITABLE (ConnectorOnEvent j) ?s = Done 0 (?s\<lparr>register := (register ?s)(fd \<mapsto> \<lparr>es_mask = XE_WRITABLE, es_data = 0, es_callback = ConnectorOnEvent j\<rparr>), kern := k\<rparr>)"
      "mirror view (?s\<lparr>register := (register ?s)(fd \<mapsto> \<lparr>es_mask = XE_WRITABLE, es_data = 0, es_callback = ConnectorOnEvent j\<rparr>), kern := k\<rparr>)"
    by metis
  have "beforeConnect ctl api j s = Done () (?s\<lparr>register := (register ?s)(fd \<mapsto> \<lparr>es_mask = XE_WRITABLE, es_data = 0, es_callback = ConnectorOnEvent j\<rparr>), kern := k\<rparr>)"
    using assms(3,5,6) with_cenv_Done [of "connectNonblock (junk_addr api) (peerAddr c)" s, OF e(1)] k(1)
    by (simp add: beforeConnect_def sock_consts)
  then show ?thesis
    using e(2-4) k(2) by (intro that [of k e]) (simp_all add: mirror_def)
qed

section \<open>A failed attempt\<close>

definition waiting_event :: "nat \<Rightarrow> xEventState" where
  "waiting_event j = \<lparr>es_mask = XE_WRITABLE, es_data = 0, es_callback = ConnectorOnEvent j\<rparr>"

definition failure_event :: "xEvent \<Rightarrow> bool" where
  "failure_event xe \<longleftrightarrow> has (emask xe) XE_ERROR \<or> has (emask xe) XE_HUP"

lemma onEventHandle_failure:
  "ctrs s j = Some c \<Longrightarrow> failure_event xe \<Longrightarrow> onEventHandle ctl api p j xe s = connectOnError ctl api p j (efd xe) (-4) s"
  by (auto simp: onEventHandle_def failure_event_def)

lemma sint_500: "sint (of_int ReConnntervalMs :: int32) = 500"
  by (simp add: ReConnntervalMs_def)

text \<open>
  The attempt fails while there is time left: the descriptor is gone from the loop and closed, and
  one timer is set.
\<close>

lemma onEventHandle_retry:
  assumes "epoll_ctl_spec ctl view usable" and "mirror view s" and "isLoopThread s" and c: "ctrs s j = Some c"
    and "reConnMs c < ReConnMaxTimeMs" and "timers s = []" and "clock s = now # cs" and "failure_event xe"
  obtains s' t where "onEventHandle ctl api p j xe s = Done () s'"
    and "timers s' = [p]" and "theap s' p = Some t" and "expiration t = now + 500" and "repeat t = 1"
    and "timer_cb t = ConnectorOnReConnect j" and "clock s' = cs"
    and "ctrs s' = (ctrs s)(j \<mapsto> c\<lparr>ctr_status := XF_CONN_STATUS_DISCONNECTED\<rparr>)"
    and "register s' = (register s)(efd xe := None)" and "mirror view s'" and "isLoopThread s'"
    and "cenv s' = sys_close (efd xe) (cenv s)" and "connector_state.more s' = connector_state.more s"
proof -
  let ?s1 = "put_ctr j (c\<lparr>ctr_status := XF_CONN_STATUS_DISCONNECTED\<rparr>) s"
  have "mirror view ?s1" "isLoopThread ?s1" using assms(2,3) by simp_all
  from loop_remove_ok [OF assms(1) this, of "efd xe"] obtain k where
    k: "loop_remove ctl (efd xe) ?s1 = Done 0 (?s1\<lparr>register := (register ?s1)(efd xe := None), kern := k\<rparr>)"
      "mirror view (?s1\<lparr>register := (register ?s1)(efd xe := None), kern := k\<rparr>)"
    by metis
  let ?s2 = "?s1\<lparr>register := (register ?s1)(efd xe := None), kern := k\<rparr>\<lparr>cenv := sys_close (efd xe) (cenv s)\<rparr>"
  let ?s3 = "?s2\<lparr>clock := cs, last_now := now\<rparr>"
  let ?s4 = "new_timer_at p (now + 500) (ConnectorOnReConnect j) ?s3"
  obtain t where t: "theap ?s4 p = Some t" "expiration t = now + 500" "repeat t = 1" "timer_cb t = ConnectorOnReConnect j"
    by (simp add: new_timer_fields(1))
  have f: "timers ?s4 = []" "isLoopThread ?s4" "clock ?s4 = cs" "ctrs ?s4 = (ctrs s)(j \<mapsto> c\<lparr>ctr_status := XF_CONN_STATUS_DISCONNECTED\<rparr>)"
    "register ?s4 = (register s)(efd xe := None)" "mirror view ?s4" "cenv ?s4 = sys_close (efd xe) (cenv s)"
    "connector_state.more ?s4 = connector_state.more s"
    using assms(3,6) k(2) by (subst new_timer_fields(2), simp)+
  have add: "AddTimer p ?s4 = Done p (?s4\<lparr>timers := [p]\<rparr>)"
    using t(1) f(1) by (simp add: AddTimer_def tlive_def tq_ordered_def)
  have now: "TNOWMS ?s2 = (now, ?s3)"
    using assms(7) by (simp add: TNOWMS_def)
  have "runAfter (run_fn api) p (of_int ReConnntervalMs) (ConnectorOnReConnect j) ?s2 = Done p (?s4\<lparr>timers := [p]\<rparr>)"
    using add f(2) unfolding runAfter_def now sint_500 Let_def prod.case
    by (simp add: scheduleToLoopThread_def run_functor_def)
  then have "onEventHandle ctl api p j xe s = Done () (?s4\<lparr>timers := [p]\<rparr>)"
    using c assms(5) k(1) by (simp add: onEventHandle_failure [OF c assms(8)] connectOnError_def Let_def)
  then show ?thesis
    by (rule that) (use t f in simp_all)
qed

text \<open>A timer that is alone in the queue and due runs its callback and is gone.\<close>

lemma trigger_alone:
  assumes "timers s = [p]" and "theap s p = Some t" and "expiration t \<le> u" and "repeat t = 1" and "clock s = u # cs"
    and "call (timer_cb t) (s\<lparr>clock := cs, last_now := u\<rparr>) = Done () s1" and "timers s1 = [p]" and "theap s1 p = Some t"
    and "2 \<le> fuel"
  shows "triggerTimer call fuel s = Done () (s1\<lparr>timers := [], theap := (theap s1)(p := None)\<rparr>)"
proof -
  obtain n where n: "fuel = Suc (Suc n)" using assms(9) by (metis Suc_le_D numeral_2_eq_2 Suc_le_mono)
  have "TNOWMS s = (u, s\<lparr>clock := cs, last_now := u\<rparr>)"
    using assms(5) by (simp add: TNOWMS_def)
  then show ?thesis
    using assms n by (simp add: triggerTimer_def doCallBack_def hasNextTime_def)
qed

lemma trigger_none: "timers s = [] \<Longrightarrow> clock s = u # cs \<Longrightarrow> 0 < fuel \<Longrightarrow>
    triggerTimer call fuel s = Done () (s\<lparr>clock := cs, last_now := u\<rparr>)"
  by (cases fuel) (simp_all add: triggerTimer_def TNOWMS_def)

text \<open>From one attempt to the next.\<close>

lemma retry_cycle:
  assumes ctl: "epoll_ctl_spec ctl view usable" and "mirror view s" and "isLoopThread s" and c: "ctrs s j = Some c"
    and "reConnMs c < ReConnMaxTimeMs" and "timers s = []" and "clock s = now # u # cs" and "now + 500 \<le> u"
    and "failure_event xe" and fd: "usable fd" "0 \<le> fd" and "replies (cenv s) = attempt_replies fd @ rest"
    and run: "\<And>s. run_fn api (ConnectorOnReConnect j) s = onReConnect ctl api' j s" and "2 \<le> fuel"
  obtains s' where "bindS (onEventHandle ctl api p j xe s) (\<lambda>_. triggerTimer (run_fn api) fuel) = Done () s'"
    and "ctrs s' = (ctrs s)(j \<mapsto> c\<lparr>reConnMs := reConnMs c + 500, ctr_status := XF_CONN_STATUS_CONNECTING\<rparr>)"
    and "timers s' = []" and "clock s' = cs" and "register s' = (register s)(efd xe := None, fd \<mapsto> waiting_event j)"
    and "mirror view s'" and "isLoopThread s'" and "replies (cenv s') = rest"
    and "opened (trace (cenv s')) = opened (trace (cenv s)) @ [fd]"
    and "closed_fds (trace (cenv s')) = closed_fds (trace (cenv s)) @ [efd xe]"
    and "connector_state.more s' = connector_state.more s"
proof -
  obtain s1 t where s1: "onEventHandle ctl api p j xe s = Done () s1"
    "timers s1 = [p]" "theap s1 p = Some t" "expiration t = now + 500" "repeat t = 1" "timer_cb t = ConnectorOnReConnect j" "clock s1 = u # cs"
    "ctrs s1 = (ctrs s)(j \<mapsto> c\<lparr>ctr_status := XF_CONN_STATUS_DISCONNECTED\<rparr>)"
    "register s1 = (register s)(efd xe := None)" "mirror view s1" "isLoopThread s1"
    "cenv s1 = sys_close (efd xe) (cenv s)" "connector_state.more s1 = connector_state.more s"
    using ctl assms(2-7,9) by (rule onEventHandle_retry)
  let ?c = "c\<lparr>ctr_status := XF_CONN_STATUS_DISCONNECTED, reConnMs := reConnMs c + 500\<rparr>"
  let ?s2 = "put_ctr j ?c (s1\<lparr>clock := cs, last_now := u\<rparr>)"
  have pre: "mirror view ?s2" "isLoopThread ?s2" "ctrs ?s2 j = Some ?c" "replies (cenv ?s2) = attempt_replies fd @ rest"
    using s1 assms(12) by (simp_all add: sys_close_def)
  obtain e k where e: "beforeConnect ctl api' j ?s2 = Done () (put_ctr j (?c\<lparr>ctr_status := XF_CONN_STATUS_CONNECTING\<rparr>) (?s2\<lparr>cenv := e\<rparr>)
      \<lparr>register := (register ?s2)(fd \<mapsto> \<lparr>es_mask = XE_WRITABLE, es_data = 0, es_callback = ConnectorOnEvent j\<rparr>), kern := k\<rparr>)"
    "replies e = rest" "opened (trace e) = opened (trace (cenv ?s2)) @ [fd]" "closed_fds (trace e) = closed_fds (trace (cenv ?s2))"
    "mirror view (?s2\<lparr>register := (register ?s2)(fd \<mapsto> \<lparr>es_mask = XE_WRITABLE, es_data = 0, es_callback = ConnectorOnEvent j\<rparr>), kern := k\<rparr>)"
    using beforeConnect_ok [OF ctl pre(1,2) fd pre(3,4)] by metis
  let ?s3 = "put_ctr j (?c\<lparr>ctr_status := XF_CONN_STATUS_CONNECTING\<rparr>) (?s2\<lparr>cenv := e\<rparr>)
      \<lparr>register := (register ?s2)(fd \<mapsto> \<lparr>es_mask = XE_WRITABLE, es_data = 0, es_callback = ConnectorOnEvent j\<rparr>), kern := k\<rparr>"
  have "onReConnect ctl api' j (s1\<lparr>clock := cs, last_now := u\<rparr>) = Done () ?s3"
    using e(1) s1(8) by (simp add: onReConnect_def ReConnntervalMs_def)
  then have "run_fn api (timer_cb t) (s1\<lparr>clock := cs, last_now := u\<rparr>) = Done () ?s3"
    by (simp add: s1(6) run)
  then have "triggerTimer (run_fn api) fuel s1 = Done () (?s3\<lparr>timers := [], theap := (theap ?s3)(p := None)\<rparr>)"
    by (intro trigger_alone [OF s1(2,3) _ s1(5) s1(7)]) (use s1 assms(8,14) in simp_all)
  then have "bindS (onEventHandle ctl api p j xe s) (\<lambda>_. triggerTimer (run_fn api) fuel) =
      Done () (?s3\<lparr>timers := [], theap := (theap ?s3)(p := None)\<rparr>)"
    using s1(1) by simp
  then show ?thesis
    by (rule that) (use s1 e in \<open>simp_all add: waiting_event_def sys_close_def mirror_def\<close>)
qed

section \<open>A run of failing attempts\<close>

text \<open>
  One failure: the event that reports it, the address of the retry timer, the time when it is set
  and the time of the round that fires it, and the descriptor of the next attempt.
\<close>

record attempt =
  att_event :: xEvent
  att_timer :: ptr
  att_now :: int
  att_later :: int
  att_fd :: int

definition att_ok :: "(int \<Rightarrow> bool) \<Rightarrow> attempt \<Rightarrow> bool" where
  "att_ok usable a \<longleftrightarrow> failure_event (att_event a) \<and> att_now a + 500 \<le> att_later a \<and> usable (att_fd a) \<and> 0 \<le> att_fd a"

text \<open>Each event is on the descriptor of the attempt before.\<close>

fun chained :: "int \<Rightarrow> attempt list \<Rightarrow> bool" where
  "chained fd [] \<longleftrightarrow> True"
| "chained fd (a # as) \<longleftrightarrow> efd (att_event a) = fd \<and> chained (att_fd a) as"

definition att_clock :: "attempt list \<Rightarrow> int list" where
  "att_clock as = concat (map (\<lambda>a. [att_now a, att_later a]) as)"

definition att_replies :: "attempt list \<Rightarrow> (int \<times> errno \<times> byte list) list" where
  "att_replies as = concat (map (\<lambda>a. attempt_replies (att_fd a)) as)"

lemma att_simps [simp]:
  "att_clock [] = []" "att_clock (a # as) = att_now a # att_later a # att_clock as"
  "att_replies [] = []" "att_replies (a # as) = attempt_replies (att_fd a) @ att_replies as"
  by (simp_all add: att_clock_def att_replies_def)

fun failing_run ::
    "'k epoll_ctl \<Rightarrow> ('k, 'z) connector_state_scheme ctr_api \<Rightarrow> nat \<Rightarrow> nat \<Rightarrow> attempt list \<Rightarrow>
     ('k, 'z) connector_state_scheme \<Rightarrow> (unit, ('k, 'z) connector_state_scheme) outcome" where
  "failing_run ctl api fuel j [] s = Done () s"
| "failing_run ctl api fuel j (a # as) s =
     bindS (bindS (onEventHandle ctl api (att_timer a) j (att_event a) s) (\<lambda>_. triggerTimer (run_fn api) fuel))
       (\<lambda>_ s. failing_run ctl api fuel j as s)"

lemma failing_run_ok:
  assumes ctl: "epoll_ctl_spec ctl view usable"
    and run: "\<And>s. run_fn api (ConnectorOnReConnect j) s = onReConnect ctl api' j s" and fuel: "2 \<le> fuel"
  shows "mirror view s \<Longrightarrow> isLoopThread s \<Longrightarrow> ctrs s j = Some c \<Longrightarrow> ctr_status c = XF_CONN_STATUS_CONNECTING \<Longrightarrow>
    reConnMs c + 500 * int (length as) \<le> ReConnMaxTimeMs \<Longrightarrow> timers s = [] \<Longrightarrow> clock s = att_clock as @ cs \<Longrightarrow>
    replies (cenv s) = att_replies as @ rest \<Longrightarrow> \<forall>a \<in> set as. att_ok usable a \<Longrightarrow> chained fd as \<Longrightarrow>
    register s fd = Some (waiting_event j) \<Longrightarrow>
    \<exists>s'. failing_run ctl api fuel j as s = Done () s' \<and> mirror view s' \<and> isLoopThread s' \<and>
      ctrs s' = (ctrs s)(j \<mapsto> c\<lparr>reConnMs := reConnMs c + 500 * int (length as)\<rparr>) \<and>
      timers s' = [] \<and> clock s' = cs \<and> replies (cenv s') = rest \<and>
      opened (trace (cenv s')) = opened (trace (cenv s)) @ map att_fd as \<and>
      closed_fds (trace (cenv s')) = closed_fds (trace (cenv s)) @ map (efd \<circ> att_event) as \<and>
      register s' = (\<lambda>x. if x = last (fd # map att_fd as) then Some (waiting_event j)
        else if x \<in> set (fd # map att_fd as) then None else register s x) \<and>
      connector_state.more s' = connector_state.more s"
proof (induction as arbitrary: s c fd)
  case Nil
  then show ?case by (intro exI [of _ s]) (auto simp: fun_eq_iff)
next
  case (Cons a as)
  have a: "failure_event (att_event a)" "att_now a + 500 \<le> att_later a" "usable (att_fd a)" "0 \<le> att_fd a"
    using Cons.prems(9) by (simp_all add: att_ok_def)
  have e: "efd (att_event a) = fd" using Cons.prems(10) by simp
  have less: "reConnMs c < ReConnMaxTimeMs" using Cons.prems(5) by simp
  have clk: "clock s = att_now a # att_later a # (att_clock as @ cs)" using Cons.prems(7) by simp
  have rep: "replies (cenv s) = attempt_replies (att_fd a) @ (att_replies as @ rest)" using Cons.prems(8) by simp
  obtain s1 where s1: "bindS (onEventHandle ctl api (att_timer a) j (att_event a) s) (\<lambda>_. triggerTimer (run_fn api) fuel) = Done () s1"
    "ctrs s1 = (ctrs s)(j \<mapsto> c\<lparr>reConnMs := reConnMs c + 500, ctr_status := XF_CONN_STATUS_CONNECTING\<rparr>)"
    "timers s1 = []" "clock s1 = att_clock as @ cs" "register s1 = (register s)(efd (att_event a) := None, att_fd a \<mapsto> waiting_event j)"
    "mirror view s1" "isLoopThread s1" "replies (cenv s1) = att_replies as @ rest"
    "opened (trace (cenv s1)) = opened (trace (cenv s)) @ [att_fd a]"
    "closed_fds (trace (cenv s1)) = closed_fds (trace (cenv s)) @ [efd (att_event a)]"
    "connector_state.more s1 = connector_state.more s"
    using retry_cycle [OF ctl Cons.prems(1-3) less Cons.prems(6) clk a(2,1,3,4) rep run fuel] by metis
  have c1: "c\<lparr>reConnMs := reConnMs c + 500, ctr_status := XF_CONN_STATUS_CONNECTING\<rparr> = c\<lparr>reConnMs := reConnMs c + 500\<rparr>"
    using Cons.prems(4) by (cases c) simp
  let ?c = "c\<lparr>reConnMs := reConnMs c + 500\<rparr>"
  have "mirror view s1" "isLoopThread s1" "ctrs s1 j = Some ?c" "ctr_status ?c = XF_CONN_STATUS_CONNECTING"
    "reConnMs ?c + 500 * int (length as) \<le> ReConnMaxTimeMs" "timers s1 = []" "clock s1 = att_clock as @ cs"
    "replies (cenv s1) = att_replies as @ rest" "\<forall>a \<in> set as. att_ok usable a" "chained (att_fd a) as"
    "register s1 (att_fd a) = Some (waiting_event j)"
    using s1 c1 Cons.prems by simp_all
  from Cons.IH [OF this] obtain s' where s': "failing_run ctl api fuel j as s1 = Done () s'" "mirror view s'" "isLoopThread s'"
      "ctrs s' = (ctrs s1)(j \<mapsto> c\<lparr>reConnMs := reConnMs c + 500\<rparr>\<lparr>reConnMs := reConnMs (c\<lparr>reConnMs := reConnMs c + 500\<rparr>) + 500 * int (length as)\<rparr>)"
      "timers s' = []" "clock s' = cs" "replies (cenv s') = rest"
      "opened (trace (cenv s')) = opened (trace (cenv s1)) @ map att_fd as"
      "closed_fds (trace (cenv s')) = closed_fds (trace (cenv s1)) @ map (efd \<circ> att_event) as"
      "register s' = (\<lambda>x. if x = last (att_fd a # map att_fd as) then Some (waiting_event j)
        else if x \<in> set (att_fd a # map att_fd as) then None else register s1 x)"
      "connector_state.more s' = connector_state.more s1"
    by blast
  have "failing_run ctl api fuel j (a # as) s = Done () s'"
    using s1(1) s'(1) by simp
  moreover have "ctrs s' = (ctrs s)(j \<mapsto> c\<lparr>reConnMs := reConnMs c + 500 * int (length (a # as))\<rparr>)"
    using s'(4) s1(2) by (simp add: algebra_simps)
  moreover have "register s' = (\<lambda>x. if x = last (fd # map att_fd (a # as)) then Some (waiting_event j)
        else if x \<in> set (fd # map att_fd (a # as)) then None else register s x)"
    unfolding s'(10) s1(5) e by (auto simp: fun_eq_iff)
  ultimately show ?case
    using s' s1 by (intro exI [of _ s']) simp
qed

text \<open>Each failure of the run sets the one timer of the queue to half a second after it.\<close>

lemma att_append:
  "att_clock (xs @ ys) = att_clock xs @ att_clock ys" "att_replies (xs @ ys) = att_replies xs @ att_replies ys"
  "chained fd (xs @ ys) \<Longrightarrow> chained fd xs"
proof -
  show "chained fd (xs @ ys) \<Longrightarrow> chained fd xs" by (induction xs arbitrary: fd) simp_all
qed (simp_all add: att_clock_def att_replies_def)

lemma failing_run_timer:
  assumes ctl: "epoll_ctl_spec ctl view usable"
    and run: "\<And>s. run_fn api (ConnectorOnReConnect j) s = onReConnect ctl api' j s" and fuel: "2 \<le> fuel"
    and s: "mirror view s" "isLoopThread s" "ctrs s j = Some c" "ctr_status c = XF_CONN_STATUS_CONNECTING"
      "reConnMs c + 500 * int (length as) \<le> ReConnMaxTimeMs" "timers s = []" "clock s = att_clock as @ cs"
      "replies (cenv s) = att_replies as @ rest" "\<forall>a \<in> set as. att_ok usable a" "chained fd as" "register s fd = Some (waiting_event j)"
    and split: "as = xs @ a # ys"
  shows "\<exists>t u tm. failing_run ctl api fuel j xs s = Done () t \<and> onEventHandle ctl api (att_timer a) j (att_event a) t = Done () u \<and>
    timers u = [att_timer a] \<and> theap u (att_timer a) = Some tm \<and> expiration tm = att_now a + 500 \<and> timer_cb tm = ConnectorOnReConnect j"
proof -
  let ?clock = "att_clock (a # ys) @ cs" and ?rest = "att_replies (a # ys) @ rest"
  have pre: "reConnMs c + 500 * int (length xs) \<le> ReConnMaxTimeMs" "clock s = att_clock xs @ ?clock"
    "replies (cenv s) = att_replies xs @ ?rest" "\<forall>a \<in> set xs. att_ok usable a" "chained fd xs"
    using s(5,7-10) att_append(3) unfolding split by (simp_all add: att_append)
  obtain t where t: "failing_run ctl api fuel j xs s = Done () t" "mirror view t" "isLoopThread t"
    "ctrs t = (ctrs s)(j \<mapsto> c\<lparr>reConnMs := reConnMs c + 500 * int (length xs)\<rparr>)" "timers t = []" "clock t = ?clock"
    using failing_run_ok [OF ctl run fuel s(1-4) pre(1) s(6) pre(2-5) s(11)] by blast
  let ?c = "c\<lparr>reConnMs := reConnMs c + 500 * int (length xs)\<rparr>"
  have q: "ctrs t j = Some ?c" "reConnMs ?c < ReConnMaxTimeMs" "clock t = att_now a # att_later a # att_clock ys @ cs" "failure_event (att_event a)"
    using t(4,6) s(5,9) unfolding split by (simp_all add: att_ok_def)
  show ?thesis
    by (rule onEventHandle_retry [OF ctl t(2,3) q(1,2) t(5) q(3,4), where api = api and p = "att_timer a"]) (use t(1) in blast)
qed

text \<open>The failure when the time is used up: no timer, and the callback is told.\<close>

lemma last_failure:
  assumes ctl: "epoll_ctl_spec ctl view usable" and "mirror view s" and "isLoopThread s" and c: "ctrs s j = Some c"
    and "ReConnMaxTimeMs \<le> reConnMs c" and "failure_event xe" and "ctr_finishedCb c = Some f"
  obtains k where "onEventHandle ctl api p j xe s = finish_fn api f INVALID_SOCK (local_addr api) (-7)
      (put_ctr j (c\<lparr>ctr_status := XF_CONN_STATUS_DISCONNECTED\<rparr>) s
        \<lparr>register := (register s)(efd xe := None), kern := k, cenv := sys_close (efd xe) (cenv s)\<rparr>)"
    and "mirror view (s\<lparr>register := (register s)(efd xe := None), kern := k\<rparr>)"
proof -
  let ?s1 = "put_ctr j (c\<lparr>ctr_status := XF_CONN_STATUS_DISCONNECTED\<rparr>) s"
  have "mirror view ?s1" "isLoopThread ?s1" using assms(2,3) by simp_all
  from loop_remove_ok [OF assms(1) this, of "efd xe"] obtain k where
    k: "loop_remove ctl (efd xe) ?s1 = Done 0 (?s1\<lparr>register := (register ?s1)(efd xe := None), kern := k\<rparr>)"
      "mirror view (?s1\<lparr>register := (register ?s1)(efd xe := None), kern := k\<rparr>)"
    by metis
  show ?thesis
    using assms(5,7) c k by (intro that [of k])
      (simp_all add: onEventHandle_failure [OF c assms(6)] connectOnError_def report_def Let_def mirror_def)
qed

end
