(* ===== verification/Client_Props.thy ===== *)
theory Client_Props
  imports Client_Laws
begin

text \<open>The properties of the client: how it connects, gives up, and closes.\<close>

section \<open>Fields of the client\<close>

lemma connector_more_client:
  assumes "connector_state.more s = connector_state.more (t :: ('k, 'z) client_state_scheme)"
  shows "cli_finishedCb s = cli_finishedCb t" and "client_state.more s = client_state.more t"
    and "cli_conn s = cli_conn t"
  using assms by (cases s; cases t; simp)+

lemma client_fields [simp]:
  "mirror view (s\<lparr>cli_isConnected := b\<rparr>) = mirror view s" "isLoopThread (s\<lparr>cli_isConnected := b\<rparr>) = isLoopThread s"
  "mirror view (s\<lparr>cli_conn := x\<rparr>) = mirror view s" "isLoopThread (s\<lparr>cli_conn := x\<rparr>) = isLoopThread s"
  "mirror view (s\<lparr>cli_next := k\<rparr>) = mirror view s" "isLoopThread (s\<lparr>cli_next := k\<rparr>) = isLoopThread s"
  "mirror view (s\<lparr>cli_lock := m\<rparr>) = mirror view s" "isLoopThread (s\<lparr>cli_lock := m\<rparr>) = isLoopThread s"
  by (simp_all add: mirror_def isLoopThread_def)

lemma put_conn_client [simp]:
  "cli_lock (put_conn i c s) = cli_lock s" "cli_conn (put_conn i c s) = cli_conn s" "cli_closeCb (put_conn i c s) = cli_closeCb s"
  "cli_finishedCb (put_conn i c s) = cli_finishedCb s" "client_state.more (put_conn i c s) = client_state.more s"
  "current (put_conn i c s) = current s" "cli_next (put_conn i c s) = cli_next s"
  "ctrs (put_conn i c s) = ctrs s" "cenv (put_conn i c s) = cenv s"
  by (simp_all add: put_conn_def)

lemma put_ctr_client [simp]:
  "cli_lock (put_ctr i d s) = cli_lock s" "cli_conn (put_ctr i d s) = cli_conn s" "cli_next (put_ctr i d s) = cli_next s"
  "cli_finishedCb (put_ctr i d s) = cli_finishedCb s" "client_state.more (put_ctr i d s) = client_state.more s"
  "current (put_ctr i d s) = current s"
  by (simp_all add: put_ctr_def)

lemma locked_free [simp]: "cli_lock s = None \<Longrightarrow> locked (\<lambda>s. Done () (s\<lparr>cli_conn := x\<rparr>)) s = Done () (s\<lparr>cli_conn := x\<rparr>)"
  by (simp add: locked_def with_guard_def mutex_lock_def mutex_unlock_def guard_end_def)

lemma locked_held: "cli_lock s = Some (current s) \<Longrightarrow> locked body s = Raise MutexException s"
  by (simp add: locked_def with_guard_held)

section \<open>A client for the witnesses\<close>

definition ctr0 :: xConnector where
  "ctr0 = \<lparr>reConnMs = 0, startTimestamp = 0, ctr_status = XF_CONN_STATUS_UNKOWN, ctr_finishedCb = Some ClientConnected,
     peerAddr = replicate 28 0\<rparr>"

definition cconn :: xConnection where
  "cconn = \<lparr>connStatus = XF_CONN_STATUS_CONNECTED, writeEnabled = False, conn_fd = 7,
     readBuff = \<lparr>buffer = [0, 0, 0, 0], readerIndex = 4, writerIndex = 4\<rparr>,
     writeBuff = \<lparr>buffer = [0, 0, 0, 0], readerIndex = 4, writerIndex = 4\<rparr>,
     sentBytesCb = Some ClientSentBytes, decodeCb = Some ClientDecode, msgCommitCb = Some ClientMessage,
     connCloseCb = Some ClientClosed, connFinishCb = Some ClientFinished\<rparr>"

definition cli0 :: "(int \<Rightarrow> int32 option, (nat \<times> nat option) list) client_state_scheme" where
  "cli0 = \<lparr>theap = Map.empty, timers = [], nextSerial = 0, clock = [], last_now = 0,
     kern = [7 \<mapsto> 1], poller = \<lparr>ep_fd = 3, max_connections = 1023, ep_events = Some 1024\<rparr>, epoll_answers = [],
     stop = False, wakeupFd = 4, threadId = 0, current = 0,
     register = [7 \<mapsto> \<lparr>es_mask = XE_READABLE, es_data = 0, es_callback = ConnHandleEvent 0\<rparr>],
     fired = [], extraEvents = [], rx = \<lambda>_. [], tx = \<lambda>_. [], wire = \<lambda>_. [], conns = [0 \<mapsto> cconn],
     cenv = \<lparr>replies = [], trace = [], errno_of = EINVAL, sys_out = []\<rparr>, ctrs = [0 \<mapsto> ctr0],
     cli_isConnected = False, cli_addr = [], cli_ctr = 0, cli_lock = None, cli_conn = Some 0, cli_next = 1,
     cli_finishedCb = Some 3, cli_sentBytesCb = None, cli_msgDecodeCb = None, cli_msgCommitCb = None,
     cli_closeCb = Some 4, \<dots> = []\<rparr>"

definition cfns0 :: "(int \<Rightarrow> int32 option, (nat \<times> nat option) list) client_state_scheme client_fns" where
  "cfns0 = \<lparr>c_decode = \<lambda>f bs n s. Done n s, c_sent = \<lambda>f i n s. Done () s, c_commit = \<lambda>f i b s. Done b s,
     c_close = \<lambda>f i s. Done () (client_state.more_update (\<lambda>l. l @ [(f, Some i)]) s),
     c_finished = \<lambda>f i s. Done () (client_state.more_update (\<lambda>l. l @ [(f, i)]) s), c_run = \<lambda>f s. Done () s,
     c_holds = \<lambda>i s. False\<rparr>"

lemma cli0_ok: "mirror (\<lambda>m. m) cli0" "isLoopThread cli0" "mirror (\<lambda>m. m) (cli0\<lparr>clock := cs, cenv := e\<rparr>)"
  "isLoopThread (cli0\<lparr>clock := cs, cenv := e\<rparr>)"
  by (auto simp: mirror_def cli0_def isLoopThread_def events_of_mask_def has_def mask_defs)

lemma cli0_fields [simp]:
  "ctrs cli0 0 = Some ctr0" "cli_ctr cli0 = 0" "cli_conn cli0 = Some 0" "conns cli0 0 = Some cconn" "cli_lock cli0 = None"
  "cli_finishedCb cli0 = Some 3" "client_state.more cli0 = []" "timers cli0 = []" "cli_next cli0 = 1"
  "ctr_finishedCb ctr0 = Some ClientConnected" "reConnMs ctr0 = 0" "connCloseCb cconn = Some ClientClosed" "conn_fd cconn = 7"
  "isConnected cconn"
  by (simp_all add: cli0_def ctr0_def cconn_def isConnected_def)

lemma client_lent_fns [simp]:
  "decode_fn (client_lent_cbs U call) = decode_fn (client_cbs U call)" "conn_fn (client_lent_cbs U call) = conn_fn (client_cbs U call)"
  "call_conn (client_lent_cbs U call) = call_conn (client_cbs U call)"
  "commit_fn (client_lent_cbs U call) f i b s = returning (cli_holds U i) s (commit_fn (client_cbs U call) f i b s)"
  "sent_fn (client_lent_cbs U call) f i n s = returning (cli_holds U i) s (sent_fn (client_cbs U call) f i n s)"
  by (simp_all add: client_lent_cbs_def Let_def call_conn_def fun_eq_iff split: option.split)

section \<open>Connecting\<close>

lemma chained_fds:
  assumes "chained fd as" and "e = last (fd # map att_fd as)"
  shows "map (efd \<circ> att_event) as @ [e] = fd # map att_fd as"
  using assms
proof (induction "as" arbitrary: fd)
  case Nil
  then show ?case by simp
next
  case (Cons a as)
  then show ?case using Cons.IH [of "att_fd a"] by simp
qed

text \<open>The first attempt: the descriptor waits to become writable.\<close>

lemma client_start_ok:
  assumes ctl: "epoll_ctl_spec ctl view usable" and m: "mirror view s" and loop: "isLoopThread s" and c: "ctrs s (cli_ctr s) = Some c"
    and rep: "replies (cenv s) = attempt_replies fd @ att_replies as @ rest" and fd: "usable fd" "0 \<le> fd"
    and api: "api = client_api U errs junk (client_call ctl U errs junk (Suc n))"
  obtains e k where "client_start api s = Done () (put_ctr (cli_ctr s) (c\<lparr>ctr_status := XF_CONN_STATUS_CONNECTING\<rparr>)
      (s\<lparr>cli_isConnected := True, cenv := e\<rparr>)\<lparr>register := (register s)(fd \<mapsto> waiting_event (cli_ctr s)), kern := k\<rparr>)"
    and "replies e = att_replies as @ rest" and "opened (trace e) = opened (trace (cenv s)) @ [fd]"
    and "closed_fds (trace e) = closed_fds (trace (cenv s))"
    and "mirror view (s\<lparr>cli_isConnected := True, register := (register s)(fd \<mapsto> waiting_event (cli_ctr s)), kern := k\<rparr>)"
proof -
  let ?j = "cli_ctr s" and ?s = "s\<lparr>cli_isConnected := True\<rparr>" and ?c = "c\<lparr>ctr_status := XF_CONN_STATUS_CONNECTING\<rparr>"
  let ?api = "client_api U errs junk (client_call ctl U errs junk n)"
  have pre: "mirror view ?s" "isLoopThread ?s" "ctrs ?s ?j = Some c" "replies (cenv ?s) = attempt_replies fd @ (att_replies as @ rest)"
    using m loop c rep by simp_all
  obtain e k where b: "beforeConnect ctl ?api ?j ?s = Done () (put_ctr ?j ?c (?s\<lparr>cenv := e\<rparr>)
      \<lparr>register := (register ?s)(fd \<mapsto> \<lparr>es_mask = XE_WRITABLE, es_data = 0, es_callback = ConnectorOnEvent ?j\<rparr>), kern := k\<rparr>)"
    "replies e = att_replies as @ rest" "opened (trace e) = opened (trace (cenv ?s)) @ [fd]"
    "closed_fds (trace e) = closed_fds (trace (cenv ?s))"
    "mirror view (?s\<lparr>register := (register ?s)(fd \<mapsto> \<lparr>es_mask = XE_WRITABLE, es_data = 0, es_callback = ConnectorOnEvent ?j\<rparr>), kern := k\<rparr>)"
    using beforeConnect_ok [OF ctl pre(1,2) fd pre(3,4)] by metis
  show ?thesis
    using loop b by (intro that [of k e])
      (simp_all add: api client_start_def doConnect_def scheduleToLoopThread_def run_functor_def client_api_def Let_def waiting_event_def)
qed

text \<open>
  C31. Attempts that all start (the kernel answers \<^verbatim>\<open>EINPROGRESS\<close>) and then all fail by an error or hang-up event: the
  client connects seven times, the first attempt and six retries. Each failure but the last sets the one
  timer of the loop, for the time of the failure plus 500 ms, and the retry starts in a pass over the timers at or
  after that time; after the seventh failure it tells the user once that there is no connection. Nothing is left
  behind: no timer, no registered descriptor, and each of the seven descriptors is closed. The kernel
  may give the same descriptor again. (An attempt that fails at once is reported without a retry.)
\<close>

theorem gives_up_after_seven_attempts:
  assumes "epoll_ctl_spec ctl view usable" and "mirror view s" and "isLoopThread s"
    and "ctrs s (cli_ctr s) = Some c" and "reConnMs c = 0" and "ctr_finishedCb c = Some ClientConnected"
    and "timers s = []" and "length as = 6" and "clock s = att_clock as @ cs"
    and "replies (cenv s) = attempt_replies fd @ att_replies as @ rest" and "usable fd" and "0 \<le> fd"
    and "\<forall>a \<in> set as. att_ok usable a" and "chained fd as"
    and "failure_event xe" and "efd xe = last (fd # map att_fd as)"
    and "cli_finishedCb s = Some u" and "\<forall>t. c_finished U u None t = Done () (client_state.more_update h t)"
    and "api = client_api U errs junk (client_call ctl U errs junk (Suc n))" and "2 \<le> fuel"
  shows "\<exists>s1 s2 s3. client_start api s = Done () s1 \<and> failing_run ctl api fuel (cli_ctr s) as s1 = Done () s2 \<and>
    (\<forall>xs a ys. as = xs @ a # ys \<longrightarrow> (\<exists>t t' tm. failing_run ctl api fuel (cli_ctr s) xs s1 = Done () t \<and>
       onEventHandle ctl api (att_timer a) (cli_ctr s) (att_event a) t = Done () t' \<and> timers t' = [att_timer a] \<and>
       theap t' (att_timer a) = Some tm \<and> expiration tm = att_now a + 500 \<and> timer_cb tm = ConnectorOnReConnect (cli_ctr s))) \<and>
    client_state.more s2 = client_state.more s \<and>
    onEventHandle ctl api p (cli_ctr s) xe s2 = Done () s3 \<and> client_state.more s3 = h (client_state.more s) \<and>
    timers s3 = [] \<and> replies (cenv s3) = rest \<and>
    opened (trace (cenv s3)) = opened (trace (cenv s)) @ fd # map att_fd as \<and>
    closed_fds (trace (cenv s3)) = closed_fds (trace (cenv s)) @ fd # map att_fd as \<and>
    register s3 = (\<lambda>x. if x \<in> set (fd # map att_fd as) then None else register s x) \<and>
    map_option ctr_status (ctrs s3 (cli_ctr s)) = Some XF_CONN_STATUS_DISCONNECTED"
proof -
  let ?j = "cli_ctr s" and ?s = "s\<lparr>cli_isConnected := True\<rparr>" and ?c = "c\<lparr>ctr_status := XF_CONN_STATUS_CONNECTING\<rparr>"
  let ?api = "client_api U errs junk (client_call ctl U errs junk n)"
  obtain e k where b: "client_start api s = Done () (put_ctr ?j ?c (?s\<lparr>cenv := e\<rparr>)
      \<lparr>register := (register s)(fd \<mapsto> waiting_event ?j), kern := k\<rparr>)"
    "replies e = att_replies as @ rest" "opened (trace e) = opened (trace (cenv s)) @ [fd]"
    "closed_fds (trace e) = closed_fds (trace (cenv s))"
    "mirror view (?s\<lparr>register := (register s)(fd \<mapsto> waiting_event ?j), kern := k\<rparr>)"
    using client_start_ok [OF assms(1-4,10-12,19)] by metis
  let ?s1 = "put_ctr ?j ?c (?s\<lparr>cenv := e\<rparr>)\<lparr>register := (register s)(fd \<mapsto> waiting_event ?j), kern := k\<rparr>"
  have run: "run_fn api (ConnectorOnReConnect ?j) t = onReConnect ctl ?api ?j t" for t
    by (simp add: assms(19) client_api_def Let_def)
  have pre: "mirror view ?s1" "isLoopThread ?s1" "ctrs ?s1 ?j = Some ?c" "ctr_status ?c = XF_CONN_STATUS_CONNECTING"
    "reConnMs ?c + 500 * int (length as) \<le> ReConnMaxTimeMs" "timers ?s1 = []" "clock ?s1 = att_clock as @ cs"
    "replies (cenv ?s1) = att_replies as @ rest" "\<forall>a \<in> set as. att_ok usable a" "chained fd as"
    "register ?s1 fd = Some (waiting_event ?j)"
    using assms b by (simp_all add: ReConnMaxTimeMs_def mirror_def)
  from failing_run_ok [where api = api and api' = ?api, OF assms(1) run assms(20) pre] obtain s2 where
    s2: "failing_run ctl api fuel ?j as ?s1 = Done () s2" "mirror view s2" "isLoopThread s2"
      "ctrs s2 = (ctrs ?s1)(?j \<mapsto> ?c\<lparr>reConnMs := reConnMs ?c + 500 * int (length as)\<rparr>)" "timers s2 = []" "clock s2 = cs"
      "replies (cenv s2) = rest" "opened (trace (cenv s2)) = opened (trace (cenv ?s1)) @ map att_fd as"
      "closed_fds (trace (cenv s2)) = closed_fds (trace (cenv ?s1)) @ map (efd \<circ> att_event) as"
      "register s2 = (\<lambda>x. if x = last (fd # map att_fd as) then Some (waiting_event ?j)
        else if x \<in> set (fd # map att_fd as) then None else register ?s1 x)"
      "connector_state.more s2 = connector_state.more ?s1"
    by blast
  note more = connector_more_client [OF s2(11)]
  let ?c2 = "?c\<lparr>reConnMs := reConnMs ?c + 500 * int (length as)\<rparr>"
  have c2: "ctrs s2 ?j = Some ?c2" "ReConnMaxTimeMs \<le> reConnMs ?c2" "ctr_finishedCb ?c2 = Some ClientConnected"
    using s2(4) assms(5,6,8) by (simp_all add: ReConnMaxTimeMs_def)
  obtain k3 where k3: "onEventHandle ctl api p ?j xe s2 = finish_fn api ClientConnected INVALID_SOCK (local_addr api) (-7)
      (put_ctr ?j (?c2\<lparr>ctr_status := XF_CONN_STATUS_DISCONNECTED\<rparr>) s2
        \<lparr>register := (register s2)(efd xe := None), kern := k3, cenv := sys_close (efd xe) (cenv s2)\<rparr>)"
    using last_failure [OF assms(1) s2(2,3) c2(1,2) assms(15) c2(3)] by metis
  let ?t = "put_ctr ?j (?c2\<lparr>ctr_status := XF_CONN_STATUS_DISCONNECTED\<rparr>) s2
        \<lparr>register := (register s2)(efd xe := None), kern := k3, cenv := sys_close (efd xe) (cenv s2)\<rparr>"
  let ?s3 = "client_state.more_update h ?t"
  have "finish_fn api ClientConnected INVALID_SOCK (local_addr api) (-7) ?t = Done () ?s3"
    using more(1) assms(17,18) by (simp add: assms(19) client_api_def connectedToServer_def client_connectionFinished_def)
  then have last: "onEventHandle ctl api p ?j xe s2 = Done () ?s3"
    using k3 by simp
  have "last (fd # map att_fd as) \<in> set (fd # map att_fd as)"
    by (rule last_in_set) simp
  then have reg: "register ?s3 = (\<lambda>x. if x \<in> set (fd # map att_fd as) then None else register s x)"
    using assms(16) by (auto simp: fun_eq_iff s2(10) simp del: last.simps)
  have cl: "closed_fds (trace (cenv ?s3)) = closed_fds (trace (cenv s)) @ fd # map att_fd as"
    using s2(9) b(4) chained_fds [OF assms(14,16)] by (simp add: sys_close_def)
  note timer = failing_run_timer [where api = api and api' = ?api, OF assms(1) run assms(20) pre]
  show ?thesis
    using b(1,3) s2 last more(2) reg cl timer
    by (intro exI [of _ ?s1] exI [of _ s2] exI [of _ ?s3]) (simp add: sys_close_def)
qed

definition six_attempts :: "attempt list" where
  "six_attempts = map (\<lambda>k. \<lparr>att_event = \<lparr>efd = 8, emask = XE_HUP, edata = 0\<rparr>, att_timer = 20, att_now = 1000 * k,
     att_later = 1000 * k + 700, att_fd = 8\<rparr>) [0, 1, 2, 3, 4, 5]"

lemma gives_up_after_seven_attempts_witness:
  "\<exists>s1 s2 s3. client_start (client_api cfns0 (\<lambda>_. 1) [] (client_call map_ctl cfns0 (\<lambda>_. 1) [] (Suc 1)))
      (cli0\<lparr>clock := att_clock six_attempts, cenv := (cenv cli0)\<lparr>replies := attempt_replies 8 @ att_replies six_attempts\<rparr>\<rparr>) = Done () s1 \<and>
    failing_run map_ctl (client_api cfns0 (\<lambda>_. 1) [] (client_call map_ctl cfns0 (\<lambda>_. 1) [] (Suc 1))) 2 0 six_attempts s1 = Done () s2 \<and>
    onEventHandle map_ctl (client_api cfns0 (\<lambda>_. 1) [] (client_call map_ctl cfns0 (\<lambda>_. 1) [] (Suc 1))) 21 0
      \<lparr>efd = 8, emask = XE_HUP, edata = 0\<rparr> s2 = Done () s3 \<and> client_state.more s3 = [(3, None)] \<and>
    closed_fds (trace (cenv s3)) = [8, 8, 8, 8, 8, 8, 8]"
proof -
  let ?s = "cli0\<lparr>clock := att_clock six_attempts, cenv := (cenv cli0)\<lparr>replies := attempt_replies 8 @ att_replies six_attempts\<rparr>\<rparr>"
  have f: "failure_event \<lparr>efd = 8, emask = XE_HUP, edata = 0\<rparr>"
    by (simp add: failure_event_def has_def mask_defs)
  then have ok: "\<forall>a \<in> set six_attempts. att_ok (\<lambda>_. True) a" "chained 8 six_attempts" "length six_attempts = 6"
    "map att_fd six_attempts = [8, 8, 8, 8, 8, 8]"
    by (simp_all add: six_attempts_def att_ok_def)
  have more: "\<forall>t. c_finished cfns0 3 None t = Done () (client_state.more_update (\<lambda>l. l @ [(3, None)]) t)"
    by (simp add: cfns0_def)
  have s: "ctrs ?s (cli_ctr ?s) = Some ctr0" "timers ?s = []" "cli_finishedCb ?s = Some 3" "client_state.more ?s = []" "cli_ctr ?s = 0"
    "trace (cenv ?s) = []"
    by (simp_all add: cli0_def)
  show ?thesis
    using gives_up_after_seven_attempts [OF map_ctl_spec cli0_ok(3,4) s(1) _ _ s(2) ok(3), where cs = "[]" and rest = "[]" and fd = 8
        and fuel = 2 and u = 3 and U = cfns0 and n = 1 and errs = "\<lambda>_. 1" and junk = "[]" and p = 21 and
        xe = "\<lparr>efd = 8, emask = XE_HUP, edata = 0\<rparr>" and h = "\<lambda>l. l @ [(3, None)]"] ok f more s
    by (simp del: failing_run.simps) blast
qed

text \<open>The kernel's side of a connect that succeeds: no error pending, the local address, and the flags.\<close>

lemma connect_answers:
  assumes "replies e = [(0, e1, [0, 0, 0, 0]), (0, e2, []), (fl, e3, []), (0, e4, [])] @ rest" and "fl \<noteq> -1" and "0 \<le> fd"
  obtains ea a eb ec where "getSocketError num fd e = (0, ea)" and "getLocalAddr fd fam la ea = ((0, a), eb)"
    and "setNonBlock True fd eb = Done () ec" and "closed_fds (trace ec) = closed_fds (trace e)"
proof -
  obtain ea where ea: "getSocketError num fd e = (0, ea)" "replies ea = [(0, e2, []), (fl, e3, []), (0, e4, [])] @ rest"
    "closed_fds (trace ea) = closed_fds (trace e)"
  proof -
    have "sint (mem_word (patch 0 (take 4 [0, 0, 0, 0]) (replicate 4 0)) :: 32 word) = 0"
      by code_simp
    then show ?thesis
      using assms(1) by (intro that [of "snd (sys (SysGetOpt fd SO_ERROR) e)"]) (simp_all add: getSocketError_def sys_def)
  qed
  obtain a eb where eb: "getLocalAddr fd fam la ea = ((0, a), eb)"
    "replies eb = [(fl, e3, []), (0, e4, [])] @ rest" "closed_fds (trace eb) = closed_fds (trace ea)"
    using ea(2) by (cases "fam = AF_INET6") (simp_all add: getLocalAddr_def sys_def sock_consts Let_def)
  obtain ec where "setNonBlock True fd eb = Done () ec" "closed_fds (trace ec) = closed_fds (trace eb)"
    using eb(2) assms(2,3)
    by (intro that [of "snd (sys (SysSetFl fd (of_int fl OR O_NONBLOCK)) (snd (sys (SysGetFl fd) eb)))"])
      (simp_all add: setNonBlock_def checked_def valid_def nonBlock_def setBlock_def sys_def sock_consts)
  then show ?thesis using that ea(1,3) eb(1,3) by metis
qed

text \<open>
  From the connected descriptor to the callback for the finished attempt: the object is made,
  remembered, connected, and registered for reading.
\<close>

definition new_client_conn :: "int \<Rightarrow> xConnection \<Rightarrow> bool" where
  "new_client_conn fd k \<longleftrightarrow> isConnected k \<and> conn_fd k = fd \<and> content (readBuff k) = [] \<and> content (writeBuff k) = [] \<and>
     bwf (readBuff k) \<and> bwf (writeBuff k) \<and> length (buffer (readBuff k)) \<le> 2 ^ 33 \<and> length (buffer (writeBuff k)) \<le> 2 ^ 33 \<and>
     decodeCb k = Some ClientDecode \<and> msgCommitCb k = Some ClientMessage \<and> sentBytesCb k = Some ClientSentBytes \<and>
     connCloseCb k = Some ClientClosed"

lemma connectedToServer_state:
  assumes ctl: "epoll_ctl_spec ctl view usable" and m: "mirror view s" and loop: "isLoopThread s" and lock: "cli_lock s = None"
    and us: "usable fd" and nb: "setNonBlock True fd (cenv s) = Done () ec"
  obtains k t kn where "connectedToServer U (client_call ctl U errs junk (Suc n)) fd a 0 s = client_connectionFinished U (Some (cli_next s)) t"
    and "t = put_conn (cli_next s) k (s\<lparr>cenv := ec, cli_next := Suc (cli_next s), cli_conn := Some (cli_next s)\<rparr>)
      \<lparr>register := (register s)(fd \<mapsto> \<lparr>es_mask = XE_READABLE, es_data = 0, es_callback = ConnHandleEvent (cli_next s)\<rparr>), kern := kn\<rparr>"
    and "mirror view t" and "new_client_conn fd k"
proof -
  let ?i = "cli_next s" and ?cb = "client_cbs U (client_call ctl U errs junk n)"
  obtain k where k: "xConnection_new fd (Some ClientDecode) (Some ClientMessage) (Some ClientSentBytes) (Some ClientClosed)
      (Some ClientFinished) = Inr k" "conn_fd k = fd" "connFinishCb k = Some ClientFinished" "content (readBuff k) = []"
    "content (writeBuff k) = []" "bwf (readBuff k)" "bwf (writeBuff k)" "length (buffer (readBuff k)) \<le> 2 ^ 33"
    "length (buffer (writeBuff k)) \<le> 2 ^ 33" "decodeCb k = Some ClientDecode" "msgCommitCb k = Some ClientMessage"
    "sentBytesCb k = Some ClientSentBytes" "connCloseCb k = Some ClientClosed"
    using xConnection_new_ok by metis
  let ?k = "k\<lparr>connStatus := XF_CONN_STATUS_CONNECTED\<rparr>"
  let ?s3 = "put_conn ?i k (s\<lparr>cenv := ec, cli_next := Suc ?i\<rparr>)\<lparr>cli_conn := Some ?i\<rparr>"
  have "mirror view ?s3" "isLoopThread ?s3" "conns ?s3 ?i = Some k" "usable (conn_fd k)"
    using m loop us k(2) by simp_all
  from makeConnected_ok [OF ctl this, of ?cb] obtain kn where kn:
    "makeConnected ctl ?cb ?i ?s3 = call_conn ?cb (connFinishCb k) ?i
      (put_conn ?i ?k ?s3\<lparr>register := (register ?s3)(conn_fd k \<mapsto>
         \<lparr>es_mask = XE_READABLE, es_data = 0, es_callback = ConnHandleEvent ?i\<rparr>), kern := kn\<rparr>)"
    "mirror view (?s3\<lparr>register := (register ?s3)(conn_fd k \<mapsto>
         \<lparr>es_mask = XE_READABLE, es_data = 0, es_callback = ConnHandleEvent ?i\<rparr>), kern := kn\<rparr>)"
    by metis
  let ?t = "put_conn ?i ?k (s\<lparr>cenv := ec, cli_next := Suc ?i, cli_conn := Some ?i\<rparr>)
      \<lparr>register := (register s)(fd \<mapsto> \<lparr>es_mask = XE_READABLE, es_data = 0, es_callback = ConnHandleEvent ?i\<rparr>), kern := kn\<rparr>"
  have t: "put_conn ?i ?k ?s3\<lparr>register := (register ?s3)(conn_fd k \<mapsto>
         \<lparr>es_mask = XE_READABLE, es_data = 0, es_callback = ConnHandleEvent ?i\<rparr>), kern := kn\<rparr> = ?t"
    using k(2) by (simp add: put_conn_def)
  have "connectedToServer U (client_call ctl U errs junk (Suc n)) fd a 0 s = client_connectionFinished U (Some ?i) ?t"
    using k(1,3) loop lock kn(1) [unfolded t] with_cenv_Done [of "setNonBlock True fd" s, OF nb]
    by (simp add: connectedToServer_def client_connection_def scheduleToLoopThread_def run_functor_def Let_def call_conn_def client_cbs_def
        client_connectionFinished_def split: option.split)
  moreover have "mirror view ?t" using kn(2) by (simp add: mirror_def k(2))
  moreover have "new_client_conn fd ?k" using k by (simp add: new_client_conn_def isConnected_def)
  ultimately show ?thesis by (intro that [OF _ refl])
qed

text \<open>
  C12. An attempt that succeeds: the descriptor becomes the client's connection, connected,
  registered for reading in place of writing, and reported once to the user; no descriptor is
  closed on the way.
\<close>

theorem connects_to_the_server:
  assumes "epoll_ctl_spec ctl view usable" and "mirror view s" and "isLoopThread s"
    and "ctrs s j = Some c" and "ctr_status c = XF_CONN_STATUS_CONNECTING" and "ctr_finishedCb c = Some ClientConnected"
    and "replies (cenv s) = [(0, e1, [0, 0, 0, 0]), (0, e2, []), (fl, e3, []), (0, e4, [])] @ rest" and "fl \<noteq> -1"
    and "cli_lock s = None" and "cli_finishedCb s = Some u"
    and "\<forall>i t. c_finished U u (Some i) t = Done () (client_state.more_update (h i) t)"
    and "usable fd" and "0 \<le> fd" and "2 \<le> n"
  shows "\<exists>s' k. client_on_event ctl U errs junk n p (ConnectorOnEvent j) \<lparr>efd = fd, emask = XE_WRITABLE, edata = d\<rparr> s = Done () s' \<and>
    cli_conn s' = Some (cli_next s) \<and> conns s' (cli_next s) = Some k \<and> isConnected k \<and> conn_fd k = fd \<and>
    content (readBuff k) = [] \<and> content (writeBuff k) = [] \<and>
    register s' = (register s)(fd \<mapsto> \<lparr>es_mask = XE_READABLE, es_data = 0, es_callback = ConnHandleEvent (cli_next s)\<rparr>) \<and>
    mirror view s' \<and> map_option ctr_status (ctrs s' j) = Some XF_CONN_STATUS_CONNECTED \<and> cli_lock s' = None \<and>
    closed_fds (trace (cenv s')) = closed_fds (trace (cenv s)) \<and> client_state.more s' = h (cli_next s) (client_state.more s)"
proof -
  obtain m where n: "n = Suc m" using assms(14) by (cases n) auto
  let ?call = "client_call ctl U errs junk n" and ?xe = "\<lparr>efd = fd, emask = XE_WRITABLE, edata = d\<rparr>"
  let ?api = "client_api U errs junk ?call" and ?cb = "client_cbs U (client_call ctl U errs junk m)" and ?i = "cli_next s"
  obtain ea a eb ec where ea: "getSocketError (errno_num ?api) fd (cenv s) = (0, ea)"
    and eb: "getLocalAddr fd (family (peerAddr c)) (local_addr ?api) ea = ((0, a), eb)"
    and ec: "setNonBlock True fd eb = Done () ec" "closed_fds (trace ec) = closed_fds (trace (cenv s))"
    using connect_answers [OF assms(7,8,13)] by metis
  let ?s1 = "put_ctr j (c\<lparr>ctr_status := XF_CONN_STATUS_CONNECTED\<rparr>) (s\<lparr>cenv := eb\<rparr>)"
  have "mirror view ?s1" "isLoopThread ?s1" "cli_lock ?s1 = None" "usable fd" "setNonBlock True fd (cenv ?s1) = Done () ec"
    using assms(2,3,9,12) ec(1) by simp_all
  from connectedToServer_state [OF assms(1) this, of U errs junk m a] obtain k t kn where
    t1: "connectedToServer U ?call fd a 0 ?s1 = client_connectionFinished U (Some (cli_next ?s1)) t"
      "t = put_conn (cli_next ?s1) k (?s1\<lparr>cenv := ec, cli_next := Suc (cli_next ?s1), cli_conn := Some (cli_next ?s1)\<rparr>)
        \<lparr>register := (register ?s1)(fd \<mapsto> \<lparr>es_mask = XE_READABLE, es_data = 0, es_callback = ConnHandleEvent (cli_next ?s1)\<rparr>), kern := kn\<rparr>"
      "mirror view t" "new_client_conn fd k"
    unfolding n by metis
  have t: "connectedToServer U ?call fd a 0 ?s1 = client_connectionFinished U (Some ?i) t"
    "t = put_conn ?i k (?s1\<lparr>cenv := ec, cli_next := Suc ?i, cli_conn := Some ?i\<rparr>)
      \<lparr>register := (register s)(fd \<mapsto> \<lparr>es_mask = XE_READABLE, es_data = 0, es_callback = ConnHandleEvent ?i\<rparr>), kern := kn\<rparr>"
    using t1(1,2) by simp_all
  let ?s' = "client_state.more_update (h ?i) t"
  have "client_connectionFinished U (Some ?i) t = Done () ?s'"
    using assms(10,11) t(2) by (simp add: client_connectionFinished_def)
  then have "connectOnSucc ?api j fd (s\<lparr>cenv := ea\<rparr>) = Done () ?s'"
    using assms(4,6) eb t(1) by (simp add: connectOnSucc_def report_def) (simp add: client_api_def)
  then have "client_on_event ctl U errs junk n p (ConnectorOnEvent j) ?xe s = Done () ?s'"
    using assms(4,5) ea by (simp add: client_on_event_def onEventHandle_def has_def mask_defs)
  then show ?thesis
    using t1(3,4) ec(2) assms(9)
    by (intro exI [of _ ?s'] exI [of _ k]) (simp add: t(2) mirror_def new_client_conn_def)
qed

lemma connects_to_the_server_witness:
  "\<exists>s'. client_on_event map_ctl cfns0 (\<lambda>_. 1) [] 2 21 (ConnectorOnEvent 0) \<lparr>efd = 9, emask = XE_WRITABLE, edata = 0\<rparr>
      (cli0\<lparr>clock := [], cenv := (cenv cli0)\<lparr>replies := [(0, EINVAL, [0, 0, 0, 0]), (0, EINVAL, []), (2, EINVAL, []), (0, EINVAL, [])]\<rparr>,
        ctrs := [0 \<mapsto> ctr0\<lparr>ctr_status := XF_CONN_STATUS_CONNECTING\<rparr>]\<rparr>) = Done () s' \<and>
    cli_conn s' = Some 1 \<and> client_state.more s' = [(3, Some 1)]"
proof -
  let ?s = "cli0\<lparr>clock := [], cenv := (cenv cli0)\<lparr>replies := [(0, EINVAL, [0, 0, 0, 0]), (0, EINVAL, []), (2, EINVAL, []), (0, EINVAL, [])]\<rparr>,
        ctrs := [0 \<mapsto> ctr0\<lparr>ctr_status := XF_CONN_STATUS_CONNECTING\<rparr>]\<rparr>"
  have s: "mirror (\<lambda>m. m) ?s" "isLoopThread ?s" "ctrs ?s 0 = Some (ctr0\<lparr>ctr_status := XF_CONN_STATUS_CONNECTING\<rparr>)"
    "cli_lock ?s = None" "cli_finishedCb ?s = Some 3" "cli_next ?s = 1" "client_state.more ?s = []"
    "replies (cenv ?s) = [(0, EINVAL, [0, 0, 0, 0]), (0, EINVAL, []), (2, EINVAL, []), (0, EINVAL, [])] @ []"
    using cli0_ok(3,4) [where cs = "[]" and e = "(cenv cli0)\<lparr>replies := [(0, EINVAL, [0, 0, 0, 0]), (0, EINVAL, []), (2, EINVAL, []), (0, EINVAL, [])]\<rparr>"]
    by (simp_all add: mirror_def isLoopThread_def)
  have u: "\<forall>i t. c_finished cfns0 3 (Some i) t = Done () (client_state.more_update (\<lambda>l. l @ [(3, Some i)]) t)"
    by (simp add: cfns0_def)
  obtain s' where "client_on_event map_ctl cfns0 (\<lambda>_. 1) [] 2 21 (ConnectorOnEvent 0) \<lparr>efd = 9, emask = XE_WRITABLE, edata = 0\<rparr> ?s = Done () s'"
    "cli_conn s' = Some (cli_next ?s)" "client_state.more s' = (\<lambda>l. l @ [(3, Some (cli_next ?s))]) (client_state.more ?s)"
    using connects_to_the_server [OF map_ctl_spec s(1-3) _ _ s(8) _ s(4,5) u, where p = 21 and fd = 9 and n = 2 and errs = "\<lambda>_. 1" and junk = "[]" and d = 0]
    by auto
  then show ?thesis
    using s by (intro exI [of _ s']) simp
qed

section \<open>Closing\<close>

text \<open>The close callback of the client, called while its lock is free: the connection is forgotten.\<close>

lemma client_closed_call:
  assumes "isLoopThread s" and "cli_lock s = None" and "conns s i = Some c"
  shows "call_conn (client_cbs U (client_call ctl U errs junk (Suc (Suc m)))) (Some ClientClosed) i s =
    Done () (put_conn i (c\<lparr>connCloseCb := Some (ClientCloseConnection (cli_closeCb s))\<rparr>) (s\<lparr>cli_conn := None\<rparr>))"
  using assms by (simp add: call_conn_def client_cbs_def client_connectionClosed_def client_doCloseConnection_def
      scheduleToLoopThread_def run_functor_def setConnectionClosedCallBack_def Let_def)

text \<open>Called while the lock is held, it throws.\<close>

lemma client_closed_call_locked:
  assumes "isLoopThread s" and "cli_lock s = Some (current s)"
  shows "call_conn (client_cbs U (client_call ctl U errs junk (Suc m))) (Some ClientClosed) i s = Raise MutexException s"
  using assms by (simp add: call_conn_def client_cbs_def locked_held client_connectionClosed_def client_doCloseConnection_def
      scheduleToLoopThread_def run_functor_def Let_def)

text \<open>\<open>stop\<close> in the loop thread, for a connection that is open.\<close>

lemma client_stop_state:
  assumes ctl: "epoll_ctl_spec ctl view usable" and m: "mirror view s" and loop: "isLoopThread s"
    and i: "cli_conn s = Some i" and c: "conns s i = Some c" "isConnected c" "connCloseCb c = Some ClientClosed" and lock: "cli_lock s = None"
  obtains k where "client_stop ctl (client_cbs U (client_call ctl U errs junk (Suc m))) (client_call ctl U errs junk (Suc m)) s =
      Done () (put_conn i (c\<lparr>connStatus := XF_CONN_STATUS_DISCONNECTING\<rparr>) s
        \<lparr>register := (register s)(conn_fd c := None), kern := k, cli_isConnected := False\<rparr>)"
    and "mirror view (s\<lparr>register := (register s)(conn_fd c := None), kern := k\<rparr>)"
proof -
  let ?c = "c\<lparr>connStatus := XF_CONN_STATUS_DISCONNECTING\<rparr>" and ?call = "client_call ctl U errs junk (Suc m)"
  let ?u = "s\<lparr>cli_isConnected := False, cli_lock := Some (current s)\<rparr>"
  let ?v = "put_conn i ?c ?u"
  have "mirror view ?v" "isLoopThread ?v" using m loop by simp_all
  from loop_remove_ok [OF ctl this] obtain k where k:
    "loop_remove ctl (conn_fd c) ?v = Done 0 (?v\<lparr>register := (register ?v)(conn_fd c := None), kern := k\<rparr>)"
    "mirror view (?v\<lparr>register := (register ?v)(conn_fd c := None), kern := k\<rparr>)"
    by metis
  let ?w = "?v\<lparr>register := (register ?v)(conn_fd c := None), kern := k\<rparr>"
  have "isLoopThread ?w" "cli_lock ?w = Some (current ?w)" using loop by simp_all
  from client_closed_call_locked [OF this, of U ctl errs junk m i]
  have "closeConn ctl (client_cbs U ?call) i ?u = Done 0 ?w"
    using loop c k(1) by (simp add: closeConn_def isConnected_def Let_def)
  then have "client_stop ctl (client_cbs U ?call) ?call s = Done () (?w\<lparr>cli_lock := None\<rparr>)"
    using loop i c lock
    by (simp add: client_stop_def locked_def with_guard_def mutex_lock_def mutex_unlock_def guard_end_def closeConnection_def isConnected_def Let_def)
  moreover have "?w\<lparr>cli_lock := None\<rparr> = put_conn i ?c s\<lparr>register := (register s)(conn_fd c := None), kern := k, cli_isConnected := False\<rparr>"
    using lock by (simp add: put_conn_def)
  moreover have "mirror view (s\<lparr>register := (register s)(conn_fd c := None), kern := k\<rparr>)"
    using k(2) by (simp add: mirror_def)
  ultimately show ?thesis by (intro that [of k]) simp_all
qed

text \<open>
  C32. When the server hangs up, the client forgets its connection, and the descriptor leaves the
  register and the kernel's interest list; but the user's close callback never runs: it is only
  installed for a close that has happened already, and the object stays disconnecting.
\<close>

theorem hangup_is_not_reported:
  assumes "epoll_ctl_spec ctl view usable" and "mirror view s" and "isLoopThread s"
    and "conns s i = Some c" and "isConnected c" and "connCloseCb c = Some ClientClosed" and "cli_lock s = None"
    and "failure_event xe" and "3 \<le> n"
  shows "\<exists>s'. client_on_event ctl U errs junk n p (ConnHandleEvent i) xe s = Done () s' \<and> cli_conn s' = None \<and>
    register s' = (register s)(conn_fd c := None) \<and> view (kern s') (conn_fd c) = None \<and>
    conns s' = (conns s)(i \<mapsto> c\<lparr>connStatus := XF_CONN_STATUS_DISCONNECTING, connCloseCb := Some (ClientCloseConnection (cli_closeCb s))\<rparr>) \<and>
    client_state.more s' = client_state.more s \<and>
    client_on_event ctl U errs junk n p (ConnHandleEvent i) xe s' = Done () s'"
proof -
  obtain m where n: "n = Suc (Suc m)" using assms(9) by (metis Suc_le_D numeral_3_eq_3 Suc_le_mono)
  let ?c = "c\<lparr>connStatus := XF_CONN_STATUS_DISCONNECTING\<rparr>" and ?cb = "client_lent_cbs U (client_call ctl U errs junk n)"
  let ?s1 = "put_conn i ?c s"
  have "mirror view ?s1" "isLoopThread ?s1" using assms(2,3) by simp_all
  from loop_remove_ok [OF assms(1) this] obtain k where k:
    "loop_remove ctl (conn_fd c) ?s1 = Done 0 (?s1\<lparr>register := (register ?s1)(conn_fd c := None), kern := k\<rparr>)"
    "mirror view (?s1\<lparr>register := (register ?s1)(conn_fd c := None), kern := k\<rparr>)"
    by metis
  let ?s2 = "?s1\<lparr>register := (register ?s1)(conn_fd c := None), kern := k\<rparr>"
  let ?d = "?c\<lparr>connCloseCb := Some (ClientCloseConnection (cli_closeCb s))\<rparr>"
  let ?s3 = "put_conn i ?d (?s2\<lparr>cli_conn := None\<rparr>)"
  have cb: "call_conn ?cb (Some ClientClosed) i ?s2 = Done () ?s3"
    using client_closed_call [of ?s2 i ?c U ctl errs junk m] assms(3,7) n by simp
  have "closeConn ctl ?cb i s = Done 0 ?s3"
    using assms(3-6) k(1) cb by (simp add: closeConn_def isConnected_def Let_def)
  then have "client_on_event ctl U errs junk n p (ConnHandleEvent i) xe s = Done () ?s3"
    using assms(8) by (simp add: client_on_event_def HandleEvent_def failure_event_def Let_def)
  moreover have "client_on_event ctl U errs junk n p (ConnHandleEvent i) xe ?s3 = Done () ?s3"
    using assms(3,8) closeConn_closed [of ?s3 i ?d ctl ?cb]
    by (simp add: client_on_event_def HandleEvent_def failure_event_def closed_def Let_def)
  ultimately show ?thesis
    using mirror_view [OF k(2), of "conn_fd c"] by (intro exI [of _ ?s3]) simp
qed

lemma hangup_is_not_reported_witness:
  "\<exists>s'. client_on_event map_ctl cfns0 (\<lambda>_. 1) [] 3 21 (ConnHandleEvent 0) \<lparr>efd = 7, emask = XE_HUP, edata = 0\<rparr> cli0 = Done () s' \<and>
    cli_conn s' = None \<and> client_state.more s' = []"
proof -
  have "failure_event \<lparr>efd = 7, emask = XE_HUP, edata = 0\<rparr>"
    by (simp add: failure_event_def has_def mask_defs)
  then show ?thesis
    using hangup_is_not_reported [OF map_ctl_spec cli0_ok(1,2), of 0 cconn _ 3 cfns0 "\<lambda>_. 1" "[]" 21] by fastforce
qed

text \<open>
  C33. \<open>stop\<close> called in the loop thread closes the connection while it holds the lock that the close
  callback takes again. The mutex reports that as an exception, which \<open>closeConn\<close> swallows: the
  client keeps pointing at the connection that it has closed.
\<close>

theorem stop_in_the_loop_keeps_the_connection:
  assumes "epoll_ctl_spec ctl view usable" and "mirror view s" and "isLoopThread s"
    and "cli_conn s = Some i" and "conns s i = Some c" and "isConnected c" and "connCloseCb c = Some ClientClosed"
    and "cli_lock s = None" and "2 \<le> n"
  shows "\<exists>s'. client_stop ctl (client_cbs U (client_call ctl U errs junk n)) (client_call ctl U errs junk n) s = Done () s' \<and>
    cli_conn s' = Some i \<and> cli_lock s' = None \<and> register s' (conn_fd c) = None \<and>
    conns s' = (conns s)(i \<mapsto> c\<lparr>connStatus := XF_CONN_STATUS_DISCONNECTING\<rparr>) \<and> client_state.more s' = client_state.more s"
proof -
  obtain m where n: "n = Suc m" using assms(9) by (cases n) auto
  obtain k where "client_stop ctl (client_cbs U (client_call ctl U errs junk n)) (client_call ctl U errs junk n) s =
      Done () (put_conn i (c\<lparr>connStatus := XF_CONN_STATUS_DISCONNECTING\<rparr>) s
        \<lparr>register := (register s)(conn_fd c := None), kern := k, cli_isConnected := False\<rparr>)" (is "_ = Done () ?t")
    using client_stop_state [OF assms(1-8), of U errs junk m] n by metis
  then show ?thesis
    using assms(4,8) by (intro exI [of _ ?t]) simp
qed

lemma stop_in_the_loop_keeps_the_connection_witness:
  "\<exists>s'. client_stop map_ctl (client_cbs cfns0 (client_call map_ctl cfns0 (\<lambda>_. 1) [] 2)) (client_call map_ctl cfns0 (\<lambda>_. 1) [] 2) cli0 = Done () s' \<and>
    cli_conn s' = Some 0"
  using stop_in_the_loop_keeps_the_connection [OF map_ctl_spec cli0_ok(1,2) cli0_fields(3,4), of 2 cfns0 "\<lambda>_. 1" "[]"]
  by auto

end
