(* ===== verification/Client_Inv.thy ===== *)
theory Client_Inv
  imports Client_Props Conn_Host
begin

text \<open>
  The state of a running client between two events: the connection objects, the register of the
  loop, the kernel's interest list, the connector and its timers agree. Each operation of the loop
  thread keeps this.
\<close>

section \<open>The invariant\<close>

text \<open>
  A connection object as the client makes it. An open one reports its end to the client; only one
  that is closed already may have another callback.
\<close>

definition cli_obj :: "xConnection \<Rightarrow> bool" where
  "cli_obj c \<longleftrightarrow> sized (readBuff c) \<and> sized (writeBuff c) \<and> decodeCb c = Some ClientDecode \<and>
     msgCommitCb c = Some ClientMessage \<and> sentBytesCb c = Some ClientSentBytes \<and>
     (isConnected c \<and> connCloseCb c = Some ClientClosed \<or> closed c)"

lemma cli_obj_owned: "cli_obj c \<Longrightarrow> owned c"
  by (auto simp: cli_obj_def owned_def)

lemma cli_obj_fields [simp]:
  "cli_obj c \<Longrightarrow> sized b \<Longrightarrow> cli_obj (c\<lparr>readBuff := b\<rparr>)" "cli_obj c \<Longrightarrow> sized b \<Longrightarrow> cli_obj (c\<lparr>writeBuff := b\<rparr>)"
  "cli_obj (c\<lparr>writeEnabled := w\<rparr>) = cli_obj c"
  "cli_obj c \<Longrightarrow> cli_obj (c\<lparr>connStatus := XF_CONN_STATUS_DISCONNECTING\<rparr>)"
  "cli_obj c \<Longrightarrow> cli_obj (c\<lparr>connStatus := XF_CONN_STATUS_DISCONNECTED\<rparr>)"
  "cli_obj c \<Longrightarrow> cli_obj (c\<lparr>connStatus := XF_CONN_STATUS_DISCONNECTING, connCloseCb := f\<rparr>)"
  by (simp_all add: cli_obj_def isConnected_def closed_def)

text \<open>
  The descriptors of open connections are registered with their handlers; besides them only the
  wake-up descriptor and the descriptors on which the connector waits are registered.
\<close>

definition cli_conns :: "nat \<Rightarrow> (nat \<Rightarrow> xConnection option) \<Rightarrow> (int \<Rightarrow> xEventState option) \<Rightarrow> bool" where
  "cli_conns nx C R \<longleftrightarrow> (\<forall>i c. C i = Some c \<longrightarrow>
     i < nx \<and> cli_obj c \<and> (isConnected c \<longrightarrow> map_option es_callback (R (conn_fd c)) = Some (ConnHandleEvent i)))"

definition cli_regs :: "int \<Rightarrow> nat \<Rightarrow> (nat \<Rightarrow> xConnection option) \<Rightarrow> (int \<Rightarrow> xEventState option) \<Rightarrow> bool" where
  "cli_regs wk j C R \<longleftrightarrow> (\<forall>fd st. R fd = Some st \<longrightarrow>
     es_callback st = LoopWakeUp \<and> fd = wk \<or> es_callback st = ConnectorOnEvent j \<or>
     (\<exists>i c. es_callback st = ConnHandleEvent i \<and> C i = Some c \<and> conn_fd c = fd \<and> isConnected c))"

definition cli_wired :: "('k, 'z) client_state_scheme \<Rightarrow> bool" where
  "cli_wired s \<longleftrightarrow> cli_conns (cli_next s) (conns s) (register s) \<and> cli_regs (wakeupFd s) (cli_ctr s) (conns s) (register s) \<and>
     (\<forall>i. cli_conn s = Some i \<longrightarrow> conns s i \<noteq> None)"

text \<open>The timers are the connector's: each fires once and starts the next attempt.\<close>

definition retry_timers :: "nat \<Rightarrow> (closure, 'z) timer_state_scheme \<Rightarrow> bool" where
  "retry_timers j s \<longleftrightarrow> tlive s \<and> tq_ordered s \<and>
     (\<forall>p \<in> set (timers s). \<exists>t. theap s p = Some t \<and> \<not> hasNextTime t \<and> timer_cb t = ConnectorOnReConnect j)"

text \<open>What the decoder of the user computes, when there is one.\<close>

definition client_decodes :: "('k, 'z) client_state_scheme client_fns \<Rightarrow> nat option \<Rightarrow> (byte list \<Rightarrow> int) \<Rightarrow> bool" where
  "client_decodes U cb dec \<longleftrightarrow>
     (case cb of None \<Rightarrow> dec = (\<lambda>bs. int (length bs))
      | Some f \<Rightarrow> (\<forall>bs s. c_decode U f bs (int (length bs)) s = Done (dec bs) s))"

definition client_wf ::
    "('k \<Rightarrow> int \<Rightarrow> int32 option) \<Rightarrow> ('k, 'z) client_state_scheme client_fns \<Rightarrow> (byte list \<Rightarrow> int) \<Rightarrow>
     ('k, 'z) client_state_scheme \<Rightarrow> bool" where
  "client_wf view U dec s \<longleftrightarrow>
     mirror view s \<and> cli_wired s \<and> client_decodes U (cli_msgDecodeCb s) dec \<and>
     map_option ctr_finishedCb (ctrs s (cli_ctr s)) = Some (Some ClientConnected) \<and> cli_lock s = None \<and> retry_timers (cli_ctr s) s"

text \<open>
  What an operation may do: it keeps the invariant, forgets no object, opens none again, stays on its
  thread, and leaves the timers and the list of fired events to the loop.
\<close>

definition cli_keeps ::
    "('k \<Rightarrow> int \<Rightarrow> int32 option) \<Rightarrow> ('k, 'z) client_state_scheme client_fns \<Rightarrow> (byte list \<Rightarrow> int) \<Rightarrow>
     ('k, 'z) client_state_scheme \<Rightarrow> ('k, 'z) client_state_scheme \<Rightarrow> bool" where
  "cli_keeps view U dec s t \<longleftrightarrow> client_wf view U dec t \<and>
     (\<forall>i c. conns s i = Some c \<longrightarrow> (\<exists>d. conns t i = Some d \<and> (isConnected d \<longrightarrow> isConnected c))) \<and>
     threadId t = threadId s \<and> current t = current s \<and> fired t = fired s \<and> timers t = timers s \<and> theap t = theap s"

lemma cli_keeps_trans: "cli_keeps view U dec s t \<Longrightarrow> cli_keeps view U dec t u \<Longrightarrow> cli_keeps view U dec s u"
  unfolding cli_keeps_def by metis

lemma cli_keeps_refl: "client_wf view U dec s \<Longrightarrow> cli_keeps view U dec s s"
  by (simp add: cli_keeps_def)

lemma cli_keepsD:
  assumes "cli_keeps view U dec s t"
  shows "client_wf view U dec t" "isLoopThread t = isLoopThread s"
    "conns s i = Some c \<Longrightarrow> \<exists>d. conns t i = Some d \<and> (isConnected d \<longrightarrow> isConnected c)"
    "fired t = fired s" "timers t = timers s" "theap t = theap s"
  using assms by (auto simp: cli_keeps_def isLoopThread_def)

lemma client_wfD:
  assumes "client_wf view U dec s"
  shows "mirror view s" "cli_wired s" "client_decodes U (cli_msgDecodeCb s) dec" "cli_lock s = None" "retry_timers (cli_ctr s) s"
    "\<exists>c. ctrs s (cli_ctr s) = Some c \<and> ctr_finishedCb c = Some ClientConnected"
  using assms by (auto simp: client_wf_def)

lemma client_wf_conn: "client_wf view U dec s \<Longrightarrow> conns s i = Some c \<Longrightarrow>
    i < cli_next s \<and> cli_obj c \<and> (isConnected c \<longrightarrow> map_option es_callback (register s (conn_fd c)) = Some (ConnHandleEvent i))"
  by (simp add: client_wf_def cli_wired_def cli_conns_def)

lemma cli_wired_obj: "cli_wired s \<Longrightarrow> conns s i = Some c \<Longrightarrow>
    i < cli_next s \<and> cli_obj c \<and> (isConnected c \<longrightarrow> map_option es_callback (register s (conn_fd c)) = Some (ConnHandleEvent i))"
  by (simp add: cli_wired_def cli_conns_def)

section \<open>Changes of the state\<close>

lemma cli_wired_put:
  assumes "cli_wired s" and "conns s i = Some c" and "conn_fd c' = conn_fd c" and "isConnected c' = isConnected c" and "cli_obj c'"
  shows "cli_wired (put_conn i c' s)"
  using assms unfolding cli_wired_def cli_conns_def cli_regs_def put_conn_def by (simp, metis option.inject)

text \<open>A change of a registered mask.\<close>

lemma cli_wired_mask:
  assumes "cli_wired s" and "register s fd = Some st"
  shows "cli_wired (s\<lparr>register := (register s)(fd \<mapsto> st\<lparr>es_mask := m\<rparr>)\<rparr>)"
proof -
  have "map_option es_callback (((register s)(fd \<mapsto> st\<lparr>es_mask := m\<rparr>)) x) = map_option es_callback (register s x)" for x
    using assms(2) by simp
  then show ?thesis using assms unfolding cli_wired_def cli_conns_def cli_regs_def by auto
qed

lemma cli_interest:
  assumes "cli_wired s"
  shows "cli_wired (s\<lparr>register := interest_after c (register s)\<rparr>)"
proof -
  have "cli_wired (s\<lparr>register := reg_spec e (register s)\<rparr>)" if "e = AddEv (conn_fd c) XE_WRITABLE \<or> e = RemoveEv (conn_fd c) XE_WRITABLE" for e
    using that assms cli_wired_mask [OF assms] by (auto split: option.split)
  then show ?thesis using assms by (auto simp: interest_after_def simp del: reg_spec.simps)
qed

text \<open>An open connection that is closed leaves the register.\<close>

lemma cli_wired_close:
  assumes w: "cli_wired s" and c: "conns s i = Some c" "isConnected c" and off: "\<not> isConnected d" "conn_fd d = conn_fd c" "cli_obj d"
  shows "cli_wired (put_conn i d s\<lparr>register := (register s)(conn_fd c := None)\<rparr>)"
proof -
  have k: "map_option es_callback (register s (conn_fd c)) = Some (ConnHandleEvent i)"
    using w c by (simp add: cli_wired_def cli_conns_def)
  have "cli_conns (cli_next s) ((conns s)(i \<mapsto> d)) ((register s)(conn_fd c := None))"
    unfolding cli_conns_def
  proof (intro allI impI)
    fix j e
    assume "((conns s)(i \<mapsto> d)) j = Some e"
    then show "j < cli_next s \<and> cli_obj e \<and>
        (isConnected e \<longrightarrow> map_option es_callback (((register s)(conn_fd c := None)) (conn_fd e)) = Some (ConnHandleEvent j))"
      using cli_wired_obj [OF w, of j e] cli_wired_obj [OF w c(1)] off k by (cases "j = i") auto
  qed
  moreover have "cli_regs (wakeupFd s) (cli_ctr s) ((conns s)(i \<mapsto> d)) ((register s)(conn_fd c := None))"
    unfolding cli_regs_def
  proof (intro allI impI)
    fix fd st
    assume "((register s)(conn_fd c := None)) fd = Some st"
    then have "register s fd = Some st" and ne: "fd \<noteq> conn_fd c" by (auto split: if_splits)
    with w consider "es_callback st = LoopWakeUp \<and> fd = wakeupFd s \<or> es_callback st = ConnectorOnEvent (cli_ctr s)"
      | j e where "es_callback st = ConnHandleEvent j" "conns s j = Some e" "conn_fd e = fd" "isConnected e"
      unfolding cli_wired_def cli_regs_def by blast
    then show "es_callback st = LoopWakeUp \<and> fd = wakeupFd s \<or> es_callback st = ConnectorOnEvent (cli_ctr s) \<or>
        (\<exists>j e. es_callback st = ConnHandleEvent j \<and> ((conns s)(i \<mapsto> d)) j = Some e \<and> conn_fd e = fd \<and> isConnected e)"
    proof cases
      case 2
      then have "j \<noteq> i" using c(1) ne by auto
      then show ?thesis using 2 by auto
    qed auto
  qed
  ultimately show ?thesis using w by (auto simp: cli_wired_def put_conn_def)
qed

text \<open>A descriptor on which the connector waits is taken out of the register, or put in.\<close>

lemma cli_wired_reg:
  assumes w: "cli_wired s" and other: "\<And>i c. conns s i = Some c \<Longrightarrow> isConnected c \<Longrightarrow> conn_fd c \<noteq> fd"
    and r: "\<And>st. r = Some st \<Longrightarrow> es_callback st = ConnectorOnEvent (cli_ctr s)"
  shows "cli_wired (s\<lparr>register := (register s)(fd := r)\<rparr>)"
proof -
  have "cli_conns (cli_next s) (conns s) ((register s)(fd := r))"
    unfolding cli_conns_def using cli_wired_obj [OF w] other by simp
  moreover have "cli_regs (wakeupFd s) (cli_ctr s) (conns s) ((register s)(fd := r))"
    using w r unfolding cli_wired_def cli_regs_def by simp
  ultimately show ?thesis using w by (simp add: cli_wired_def)
qed

lemma cli_wired_drop:
  assumes w: "cli_wired s" and st: "register s fd = Some st" "es_callback st = ConnectorOnEvent j"
  shows "cli_wired (s\<lparr>register := (register s)(fd := None)\<rparr>)"
proof (rule cli_wired_reg [OF w])
  show "conn_fd c \<noteq> fd" if "conns s i = Some c" "isConnected c" for i c
    using cli_wired_obj [OF w that(1)] st that(2) by auto
qed simp

lemma cli_wired_wait:
  assumes w: "cli_wired s" and free: "register s fd = None" and cb: "es_callback st = ConnectorOnEvent (cli_ctr s)"
  shows "cli_wired (s\<lparr>register := (register s)(fd \<mapsto> st)\<rparr>)"
proof (rule cli_wired_reg [OF w])
  show "conn_fd c \<noteq> fd" if "conns s i = Some c" "isConnected c" for i c
    using cli_wired_obj [OF w that(1)] free that(2) by auto
qed (simp add: cb)

text \<open>The descriptor of the connector becomes a connection.\<close>

lemma cli_wired_establish:
  assumes w: "cli_wired s" and st: "register s (conn_fd k) = Some st" "es_callback st = ConnectorOnEvent j"
    and k: "cli_obj k" "isConnected k" and e: "es_callback e = ConnHandleEvent (cli_next s)"
  shows "cli_wired (put_conn (cli_next s) k (s\<lparr>cli_next := Suc (cli_next s), cli_conn := Some (cli_next s)\<rparr>)
    \<lparr>register := (register s)(conn_fd k \<mapsto> e)\<rparr>)"
proof -
  have n: "conns s (cli_next s) = None"
    using w by (cases "conns s (cli_next s)") (auto simp: cli_wired_def cli_conns_def)
  have fd: "conn_fd c \<noteq> conn_fd k" if "conns s i = Some c" "isConnected c" for i c
    using cli_wired_obj [OF w that(1)] st that(2) by auto
  have "cli_conns (Suc (cli_next s)) ((conns s)(cli_next s \<mapsto> k)) ((register s)(conn_fd k \<mapsto> e))"
    unfolding cli_conns_def
  proof (intro allI impI)
    fix i c
    assume "((conns s)(cli_next s \<mapsto> k)) i = Some c"
    then show "i < Suc (cli_next s) \<and> cli_obj c \<and>
        (isConnected c \<longrightarrow> map_option es_callback (((register s)(conn_fd k \<mapsto> e)) (conn_fd c)) = Some (ConnHandleEvent i))"
      using cli_wired_obj [OF w, of i c] k e fd [of i c] by (cases "i = cli_next s") auto
  qed
  moreover have "cli_regs (wakeupFd s) (cli_ctr s) ((conns s)(cli_next s \<mapsto> k)) ((register s)(conn_fd k \<mapsto> e))"
    using w n k(2) e unfolding cli_wired_def cli_regs_def by (simp, metis option.distinct(1))
  ultimately show ?thesis using w by (auto simp: cli_wired_def put_conn_def)
qed

section \<open>Fields\<close>

lemma cli_wired_fields [simp]:
  "cli_wired (s\<lparr>rx := r\<rparr>) = cli_wired s" "cli_wired (s\<lparr>tx := t\<rparr>) = cli_wired s" "cli_wired (s\<lparr>wire := w\<rparr>) = cli_wired s"
  "cli_wired (s\<lparr>kern := k\<rparr>) = cli_wired s" "cli_wired (s\<lparr>cenv := e\<rparr>) = cli_wired s" "cli_wired (s\<lparr>extraEvents := x\<rparr>) = cli_wired s"
  "cli_wired (s\<lparr>current := n\<rparr>) = cli_wired s" "cli_wired (s\<lparr>fired := f\<rparr>) = cli_wired s" "cli_wired (s\<lparr>cli_isConnected := b\<rparr>) = cli_wired s"
  "cli_wired (s\<lparr>epoll_answers := a\<rparr>) = cli_wired s" "cli_wired (s\<lparr>clock := c\<rparr>) = cli_wired s" "cli_wired (s\<lparr>last_now := l\<rparr>) = cli_wired s"
  "cli_wired (s\<lparr>timers := ts\<rparr>) = cli_wired s" "cli_wired (s\<lparr>theap := h\<rparr>) = cli_wired s" "cli_wired (s\<lparr>nextSerial := q\<rparr>) = cli_wired s"
  "cli_wired (put_ctr j d s) = cli_wired s"
  by (simp_all add: cli_wired_def put_ctr_def)

lemma cli_wired_forget: "cli_wired s \<Longrightarrow> cli_wired (s\<lparr>cli_conn := None\<rparr>)"
  by (simp add: cli_wired_def)

lemma retry_timers_fields: "timers t = timers s \<Longrightarrow> theap t = theap s \<Longrightarrow> retry_timers j t = retry_timers j s"
  by (simp add: retry_timers_def tlive_def tq_ordered_def)

text \<open>The invariant looks at no other part of the state.\<close>

lemma client_wf_cong:
  assumes "client_wf view U dec s" and "cli_wired t" and "mirror view t" and "cli_msgDecodeCb t = cli_msgDecodeCb s"
    and "map_option ctr_finishedCb (ctrs t (cli_ctr t)) = map_option ctr_finishedCb (ctrs s (cli_ctr s))" and "cli_ctr t = cli_ctr s"
    and "cli_lock t = cli_lock s" and "timers t = timers s" and "theap t = theap s"
  shows "client_wf view U dec t"
  using assms retry_timers_fields [of t s] by (simp add: client_wf_def)

lemma mirror_loop [simp]:
  "mirror view (s\<lparr>epoll_answers := a\<rparr>) = mirror view s" "mirror view (s\<lparr>extraEvents := x\<rparr>) = mirror view s"
  "mirror view (s\<lparr>current := n\<rparr>) = mirror view s" "mirror view (s\<lparr>fired := f\<rparr>) = mirror view s"
  by (simp_all add: mirror_def)

lemma put_conn_client2 [simp]:
  "cli_msgDecodeCb (put_conn i c s) = cli_msgDecodeCb s" "cli_ctr (put_conn i c s) = cli_ctr s" "timers (put_conn i c s) = timers s"
  "theap (put_conn i c s) = theap s" "threadId (put_conn i c s) = threadId s" "fired (put_conn i c s) = fired s"
  by (simp_all add: put_conn_def)

lemma put_ctr_client2 [simp]:
  "cli_msgDecodeCb (put_ctr i c s) = cli_msgDecodeCb s" "cli_ctr (put_ctr i c s) = cli_ctr s"
  "threadId (put_ctr i c s) = threadId s" "fired (put_ctr i c s) = fired s" "wakeupFd (put_ctr i c s) = wakeupFd s"
  by (simp_all add: put_ctr_def)

lemma client_wf_fields [simp]:
  "client_wf view U dec (s\<lparr>rx := r\<rparr>) = client_wf view U dec s" "client_wf view U dec (s\<lparr>tx := t\<rparr>) = client_wf view U dec s"
  "client_wf view U dec (s\<lparr>wire := w\<rparr>) = client_wf view U dec s" "client_wf view U dec (s\<lparr>cenv := e\<rparr>) = client_wf view U dec s"
  "client_wf view U dec (s\<lparr>extraEvents := x\<rparr>) = client_wf view U dec s" "client_wf view U dec (s\<lparr>current := n\<rparr>) = client_wf view U dec s"
  "client_wf view U dec (s\<lparr>fired := f\<rparr>) = client_wf view U dec s" "client_wf view U dec (s\<lparr>cli_isConnected := b\<rparr>) = client_wf view U dec s"
  "client_wf view U dec (s\<lparr>epoll_answers := a\<rparr>) = client_wf view U dec s" "client_wf view U dec (s\<lparr>clock := c\<rparr>) = client_wf view U dec s"
  "client_wf view U dec (s\<lparr>last_now := l\<rparr>) = client_wf view U dec s"
  by (simp_all add: client_wf_def retry_timers_def tlive_def tq_ordered_def)

lemma client_wf_put:
  assumes wf: "client_wf view U dec s" and "conns s i = Some c" and "conn_fd c' = conn_fd c" and "isConnected c' = isConnected c" and "cli_obj c'"
  shows "client_wf view U dec (put_conn i c' s)"
  by (rule client_wf_cong [OF wf]) (use assms cli_wired_put [OF client_wfD(2) [OF wf] assms(2-5)] in \<open>simp_all add: client_wf_def\<close>)

lemma client_wf_reg:
  assumes wf: "client_wf view U dec s" and "cli_wired (s\<lparr>register := r\<rparr>)" and "mirror view (s\<lparr>register := r, kern := k\<rparr>)"
  shows "client_wf view U dec (s\<lparr>register := r, kern := k\<rparr>)"
  by (rule client_wf_cong [OF wf]) (use assms in \<open>simp_all add: cli_wired_def\<close>)

lemma client_wf_put_ctr:
  assumes wf: "client_wf view U dec s" and "ctr_finishedCb d = Some ClientConnected"
  shows "client_wf view U dec (put_ctr (cli_ctr s) d s)"
  by (rule client_wf_cong [OF wf]) (use assms in \<open>auto simp: client_wf_def\<close>)

lemma cli_keeps_put:
  assumes "client_wf view U dec s" and "conns s i = Some c" and "conn_fd c' = conn_fd c" and "isConnected c' = isConnected c" and "cli_obj c'"
  shows "cli_keeps view U dec s (put_conn i c' s)"
  using client_wf_put [OF assms] assms(2,4) by (auto simp: cli_keeps_def)

section \<open>The user\<close>

text \<open>
  The functions of the user may do anything that keeps the invariant, and may throw. The one for
  messages leaves the read buffer of the connection alone, which it cannot reach. The ones for sent
  bytes and for messages must not give up the last pointer to their connection, as by closing it
  without a pointer of one's own.
\<close>

definition cli_ends :: "('k \<Rightarrow> int \<Rightarrow> int32 option) \<Rightarrow> ('k, 'z) client_state_scheme client_fns \<Rightarrow> (byte list \<Rightarrow> int) \<Rightarrow>
     ('k, 'z) client_state_scheme \<Rightarrow> (unit, ('k, 'z) client_state_scheme) outcome \<Rightarrow> bool" where
  "cli_ends view U dec s r \<longleftrightarrow> (\<exists>t. (r = Done () t \<or> (\<exists>e. r = Raise e t)) \<and> cli_keeps view U dec s t)"

definition client_user_keeps ::
    "('k \<Rightarrow> int \<Rightarrow> int32 option) \<Rightarrow> ('k, 'z) client_state_scheme client_fns \<Rightarrow> (byte list \<Rightarrow> int) \<Rightarrow> bool" where
  "client_user_keeps view U dec \<longleftrightarrow>
     (\<forall>s f i n. client_wf view U dec s \<and> isLoopThread s \<and> conns s i \<noteq> None \<longrightarrow>
        cli_ends view U dec s (c_sent U f i n s) \<and> \<not> drops (cli_holds U i) s (c_sent U f i n s)) \<and>
     (\<forall>s f i. client_wf view U dec s \<and> isLoopThread s \<longrightarrow> cli_ends view U dec s (c_finished U f i s)) \<and>
     (\<forall>s u. client_wf view U dec s \<and> isLoopThread s \<longrightarrow> (\<exists>t. c_run U u s = Done () t \<and> cli_keeps view U dec s t)) \<and>
     (\<forall>s f i b c. client_wf view U dec s \<and> isLoopThread s \<and> conns s i = Some c \<and> bwf b \<longrightarrow>
        (\<exists>t d. ((\<exists>b'. c_commit U f i b s = Done b' t \<and> bwf b') \<or> (\<exists>e. c_commit U f i b s = Raise e t)) \<and>
           cli_keeps view U dec s t \<and> conns t i = Some d \<and> readBuff d = readBuff c) \<and>
        \<not> drops (cli_holds U i) s (c_commit U f i b s))"

lemma client_connectionFinished_keeps:
  assumes u: "client_user_keeps view U dec" and wf: "client_wf view U dec s" and loop: "isLoopThread s"
  obtains t where "client_connectionFinished U i s = Done () t" and "cli_keeps view U dec s t"
proof (cases "cli_finishedCb s")
  case None
  then show ?thesis using wf by (intro that [of s]) (simp_all add: client_connectionFinished_def cli_keeps_refl)
next
  case (Some f)
  have "cli_ends view U dec s (c_finished U f i s)" using u wf loop unfolding client_user_keeps_def by blast
  then show ?thesis using Some that by (auto simp: cli_ends_def client_connectionFinished_def)
qed

lemma client_sent_keeps:
  assumes u: "client_user_keeps view U dec" and wf: "client_wf view U dec s" and loop: "isLoopThread s" and "conns s i \<noteq> None"
  obtains t where "catchS (client_defaultSentBytes U i n s) (\<lambda>e s. Done () s) = Done () t" and "cli_keeps view U dec s t"
proof (cases "cli_sentBytesCb s")
  case None
  then show ?thesis using wf by (intro that [of s]) (simp_all add: client_defaultSentBytes_def cli_keeps_refl)
next
  case (Some f)
  have "cli_ends view U dec s (c_sent U f i n s)" using assms unfolding client_user_keeps_def by blast
  then show ?thesis using Some that by (auto simp: cli_ends_def client_defaultSentBytes_def)
qed

lemma client_messageComing_keeps:
  assumes u: "client_user_keeps view U dec" and wf: "client_wf view U dec s" and loop: "isLoopThread s" and c: "conns s i = Some c" and b: "bwf b"
  obtains b' t d where "client_messageComing U i b s = Done b' t" and "bwf b'" and "cli_keeps view U dec s t"
    and "conns t i = Some d" and "readBuff d = readBuff c"
proof (cases "cli_msgCommitCb s")
  case None
  then show ?thesis using wf b c by (intro that [of b s c]) (simp_all add: client_messageComing_def cli_keeps_refl)
next
  case (Some f)
  obtain t d where t: "(\<exists>b'. c_commit U f i b s = Done b' t \<and> bwf b') \<or> (\<exists>e. c_commit U f i b s = Raise e t)"
    "cli_keeps view U dec s t" "conns t i = Some d" "readBuff d = readBuff c"
    using u wf loop c b unfolding client_user_keeps_def by blast
  from t(1) show ?thesis
  proof (elim disjE exE conjE)
    fix b' assume "c_commit U f i b s = Done b' t" "bwf b'"
    then show ?thesis using Some t by (intro that [of b' t d]) (simp_all add: client_messageComing_def)
  next
    fix e assume "c_commit U f i b s = Raise e t"
    then show ?thesis using Some t b by (intro that [of b t d]) (simp_all add: client_messageComing_def)
  qed
qed

section \<open>Closing\<close>

text \<open>From the removal of the descriptor to the end of the close callback.\<close>

lemma client_closed_keeps:
  assumes wf: "client_wf view U dec s" and loop: "isLoopThread s" and c: "conns s i = Some c" "isConnected c"
    and s1: "s1 = put_conn i (c\<lparr>connStatus := XF_CONN_STATUS_DISCONNECTING\<rparr>) s\<lparr>register := (register s)(conn_fd c := None), kern := k\<rparr>"
    and m: "mirror view s1"
  obtains t where "call_conn (client_cbs U (client_call ctl U errs junk (Suc (Suc n)))) (Some ClientClosed) i s1 = Done () t"
    and "cli_keeps view U dec s t"
proof -
  let ?c = "c\<lparr>connStatus := XF_CONN_STATUS_DISCONNECTING\<rparr>"
  let ?d = "?c\<lparr>connCloseCb := Some (ClientCloseConnection (cli_closeCb s1))\<rparr>"
  let ?t = "put_conn i ?d (s1\<lparr>cli_conn := None\<rparr>)"
  note f = client_wf_conn [OF wf c(1)] and w = client_wfD(2) [OF wf]
  have pre: "isLoopThread s1" "cli_lock s1 = None" "conns s1 i = Some ?c" using loop client_wfD(4) [OF wf] by (simp_all add: s1)
  have call: "call_conn (client_cbs U (client_call ctl U errs junk (Suc (Suc n)))) (Some ClientClosed) i s1 = Done () ?t"
    using client_closed_call [OF pre, of U ctl errs junk n] by simp
  have "\<not> isConnected ?d" "cli_obj ?d" using f by (simp_all add: isConnected_def)
  then have "cli_wired (put_conn i ?d s\<lparr>register := (register s)(conn_fd c := None)\<rparr>)"
    using cli_wired_close [OF w c, of ?d] by simp
  then have "cli_wired ?t" by (simp add: s1 cli_wired_def put_conn_def)
  then have "client_wf view U dec ?t"
    by (intro client_wf_cong [OF wf]) (use m in \<open>simp_all add: s1\<close>)
  then have "cli_keeps view U dec s ?t"
    using c f unfolding cli_keeps_def by (auto simp: s1 isConnected_def)
  with call show ?thesis by (rule that)
qed

section \<open>The client as the owner of its connections\<close>

definition cli_hosted ::
    "'k epoll_ctl \<Rightarrow> ('k \<Rightarrow> int \<Rightarrow> int32 option) \<Rightarrow> (int \<Rightarrow> bool) \<Rightarrow> ('k, 'z) client_state_scheme client_fns \<Rightarrow> (byte list \<Rightarrow> int) \<Rightarrow>
     ('k, 'z) client_state_scheme \<Rightarrow> bool" where
  "cli_hosted ctl view usable U dec s \<longleftrightarrow>
     epoll_ctl_spec ctl view usable \<and> client_user_keeps view U dec \<and> proper_decoder dec \<and> client_wf view U dec s \<and> isLoopThread s"

lemma cli_hostedD:
  assumes "cli_hosted ctl view usable U dec s"
  shows "epoll_ctl_spec ctl view usable" "client_user_keeps view U dec" "proper_decoder dec" "client_wf view U dec s" "isLoopThread s"
    "mirror view s" "cli_wired s"
  using assms by (simp_all add: cli_hosted_def client_wf_def)

lemma cli_hosted_keeps: "cli_hosted ctl view usable U dec s \<Longrightarrow> cli_keeps view U dec s t \<Longrightarrow> cli_hosted ctl view usable U dec t"
  by (simp add: cli_hosted_def cli_keepsD(1) cli_keepsD(2) [of view U dec s t])

lemma cli_keeps_io:
  "client_wf view U dec s \<Longrightarrow> cli_keeps view U dec s (s\<lparr>tx := t, wire := w\<rparr>)"
  "client_wf view U dec s \<Longrightarrow> cli_keeps view U dec s (s\<lparr>rx := r\<rparr>)"
  by (simp_all add: cli_keeps_def)

lemma cli_interest_keeps:
  assumes wf: "client_wf view U dec s" and c: "conns s i = Some c"
    and m: "mirror view (s\<lparr>register := interest_after c (register s), kern := k\<rparr>)"
  shows "cli_keeps view U dec s (put_conn i (c\<lparr>writeEnabled := e\<rparr>) (s\<lparr>register := interest_after c (register s), kern := k\<rparr>))"
proof -
  let ?s = "s\<lparr>register := interest_after c (register s), kern := k\<rparr>"
  have "client_wf view U dec ?s"
    by (rule client_wf_reg [OF wf cli_interest [OF client_wfD(2) [OF wf]] m])
  then have "cli_keeps view U dec ?s (put_conn i (c\<lparr>writeEnabled := e\<rparr>) ?s)"
    using c client_wf_conn [OF wf c] by (intro cli_keeps_put [where c = c]) simp_all
  then show ?thesis by (simp add: cli_keeps_def)
qed

interpretation cli: conn_owner ctl view usable "client_cbs U (client_call ctl U errs junk (Suc (Suc n)))" dec
    "cli_hosted ctl view usable U dec" "\<lambda>s t. cli_hosted ctl view usable U dec s \<and> cli_keeps view U dec s t" "\<lambda>_. 0"
  for ctl :: "'k epoll_ctl" and view usable and U :: "('k, 'z) client_state_scheme client_fns" and errs junk n dec
proof
  fix s :: "('k, 'z) client_state_scheme" and i c
  let ?cb = "client_cbs U (client_call ctl U errs junk (Suc (Suc n)))"
  assume h: "cli_hosted ctl view usable U dec s"
  note wf = cli_hostedD(4) [OF h]
  assume c: "conns s i = Some c"
  note f = client_wf_conn [OF wf c]
  show "owned c" using f by (simp add: cli_obj_owned)
  show "cli_hosted ctl view usable U dec s \<and> cli_keeps view U dec s (put_conn i (c\<lparr>readBuff := b\<rparr>) s)" if "sized b" for b
    using h f that cli_keeps_put [OF wf c, of "c\<lparr>readBuff := b\<rparr>"] by simp
  show "cli_hosted ctl view usable U dec s \<and> cli_keeps view U dec s (put_conn i (c\<lparr>writeBuff := b\<rparr>) s)" if "sized b" for b
    using h f that cli_keeps_put [OF wf c, of "c\<lparr>writeBuff := b\<rparr>"] by simp
  show "cli_hosted ctl view usable U dec s \<and> cli_keeps view U dec s
      (put_conn i (c\<lparr>writeEnabled := e\<rparr>) (s\<lparr>register := interest_after c (register s), kern := k\<rparr>))"
    if "mirror view (s\<lparr>register := interest_after c (register s), kern := k\<rparr>)" for e k
    using h cli_interest_keeps [OF wf c that] by simp
  show "\<exists>t. catchS (case sentBytesCb c of None \<Rightarrow> Done () s | Some f \<Rightarrow> sent_fn ?cb f i m s) (\<lambda>e s. Done () s) = Done () t \<and>
      cli_hosted ctl view usable U dec s \<and> cli_keeps view U dec s t" for m
    using client_sent_keeps [OF cli_hostedD(2,4,5) [OF h], of i m] f c h by (simp add: cli_obj_def client_cbs_def) metis
  show "decode_fn ?cb g bs (int (length bs)) t = Done (dec bs) t"
    if g: "decodeCb c = Some g" and t: "cli_hosted ctl view usable U dec t" for g bs t
    using f g client_wfD(3) [OF cli_hostedD(4) [OF t]] by (cases "cli_msgDecodeCb t")
      (auto simp: cli_obj_def client_cbs_def client_defaultMsgDecode_def client_decodes_def)
  show "\<exists>b' t. commit_fn ?cb g i b s = Done b' t \<and> bwf b' \<and>
      (cli_hosted ctl view usable U dec s \<and> cli_keeps view U dec s t) \<and> (0 :: nat) \<le> Suc 0 \<and>
      (\<exists>d. conns t i = Some d \<and> readBuff d = readBuff c)"
    if "msgCommitCb c = Some g" "bwf b" for g b
    using client_messageComing_keeps [OF cli_hostedD(2,4,5) [OF h] c that(2)] f h that(1) by (simp add: cli_obj_def client_cbs_def) metis
  show "\<exists>t. catchS (if connCloseCb c \<noteq> None then call_conn ?cb (connCloseCb c) i s1 else Done () s1) (\<lambda>e s. Done () s) = Done () t \<and>
      cli_hosted ctl view usable U dec s \<and> cli_keeps view U dec s t"
    if on: "isConnected c" and s1: "s1 = put_conn i (c\<lparr>connStatus := XF_CONN_STATUS_DISCONNECTING\<rparr>) s\<lparr>register := (register s)(conn_fd c := None), kern := k\<rparr>"
      and m: "mirror view s1" for s1 k
  proof -
    obtain t where "call_conn ?cb (Some ClientClosed) i s1 = Done () t" "cli_keeps view U dec s t"
      by (rule client_closed_keeps [OF wf cli_hostedD(5) [OF h] c on s1 m])
    moreover have "connCloseCb c = Some ClientClosed" using f on by (auto simp: cli_obj_def isConnected_def closed_def)
    ultimately show ?thesis using h by simp
  qed
next
  fix s t u :: "('k, 'z) client_state_scheme" and i c
  show "cli_hosted ctl view usable U dec s \<and> cli_keeps view U dec s t \<Longrightarrow> conns s i = Some c \<Longrightarrow> \<exists>c'. conns t i = Some c'"
    using cli_keepsD(3) by blast
  show "cli_hosted ctl view usable U dec s \<and> cli_keeps view U dec s t \<Longrightarrow> cli_hosted ctl view usable U dec t \<and> cli_keeps view U dec t u \<Longrightarrow>
      cli_hosted ctl view usable U dec s \<and> cli_keeps view U dec s u"
    using cli_keeps_trans by blast
qed (auto simp: cli_hosted_keeps cli_keeps_refl cli_keeps_io dest: cli_hostedD)

text \<open>A connection that is open is kept by the register of the loop, whatever the user keeps.\<close>

lemma open_client_connection_is_held:
  assumes "cli_wired s" and "conns s i = Some c" and "isConnected c"
  shows "cli_holds U i s"
  using cli_wired_obj [OF assms(1,2)] assms(2,3)
  by (auto simp: cli_holds_def loop_holds_def register_holds_def closure_target_def split: option.splits)

text \<open>With the user keeping to the rule, the callbacks of a connection whose caller keeps no pointer behave the same.\<close>

lemma client_lent_sent:
  assumes "client_user_keeps view U dec" and "client_wf view U dec s" and "isLoopThread s" and "conns s i \<noteq> None"
  shows "sent_fn (client_lent_cbs U call) ClientSentBytes i n s = sent_fn (client_cbs U call) ClientSentBytes i n s"
  using assms unfolding client_user_keeps_def
  by (cases "cli_sentBytesCb s") (simp_all add: client_cbs_def client_defaultSentBytes_def)

lemma drops_catch: "\<not> drops own s r \<Longrightarrow> \<not> drops own s (catchS r (\<lambda>e t. Done (b :: 'b) t))"
  by (cases r) (simp_all add: drops_def)

lemma client_lent_commit:
  assumes "client_user_keeps view U dec" and "client_wf view U dec s" and "isLoopThread s" and "conns s i \<noteq> None" and "bwf b"
  shows "commit_fn (client_lent_cbs U call) ClientMessage i b s = commit_fn (client_cbs U call) ClientMessage i b s"
proof (cases "cli_msgCommitCb s")
  case None
  then show ?thesis by (simp add: client_cbs_def client_messageComing_def)
next
  case (Some f)
  have "\<not> drops (cli_holds U i) s (c_commit U f i b s)" using assms unfolding client_user_keeps_def by blast
  then show ?thesis using Some by (simp add: drops_catch client_cbs_def client_messageComing_def)
qed

interpretation cli_lent: conn_owner ctl view usable "client_lent_cbs U (client_call ctl U errs junk (Suc (Suc n)))" dec
    "cli_hosted ctl view usable U dec" "\<lambda>s t. cli_hosted ctl view usable U dec s \<and> cli_keeps view U dec s t" "\<lambda>_. 0"
  for ctl :: "'k epoll_ctl" and view usable and U :: "('k, 'z) client_state_scheme client_fns" and errs junk n dec
proof (rule conn_owner_cong [OF cli.conn_owner_axioms])
  fix s :: "('k, 'z) client_state_scheme" and i c f
  let ?call = "client_call ctl U errs junk (Suc (Suc n))"
  assume h: "cli_hosted ctl view usable U dec s" and c: "conns s i = Some c"
  note o = client_wf_conn [OF cli_hostedD(4) [OF h] c]
  show "sent_fn (client_lent_cbs U ?call) f i m s = sent_fn (client_cbs U ?call) f i m s" if "sentBytesCb c = Some f" for m
    using client_lent_sent [OF cli_hostedD(2,4,5) [OF h]] o c that by (simp add: cli_obj_def)
  show "commit_fn (client_lent_cbs U ?call) f i b s = commit_fn (client_cbs U ?call) f i b s" if "msgCommitCb c = Some f" "bwf b" for b
    using client_lent_commit [OF cli_hostedD(2,4,5) [OF h]] o c that by (simp add: cli_obj_def)
qed simp_all

end
