(* ===== verification/Client_Loop.thy ===== *)
theory Client_Loop
  imports Client_Inv Loop_Host
begin

text \<open>
  The operations of the client in the loop thread: attempts to connect, events, functors and timers.
  Each keeps the invariant of \<open>Client_Inv\<close>, so the client is an owner of its loop.
\<close>

section \<open>Attempts\<close>

text \<open>Whatever the kernel answers, an attempt returns a descriptor or the mark of a failure.\<close>

lemma connectNonblock_returns: "\<exists>fd e'. connectNonblock junk a e = Done fd e'"
proof -
  have c: "\<exists>fd e'. createSocket d SOCK_STREAM 0 e = Done fd e'" for d
    by (simp add: createSocket_def Let_def split: prod.split)
  have t: "\<exists>r e'. tcpConnect fl a la e = Done r e'" for fl la
    using c [of "uint (family a)"] by (elim exE) (simp add: tcpConnect_def Let_def split: prod.split)
  obtain fd la e' where "tcpConnect XFNET_CONNECT_NONBLOCK a (xIpAddr_port junk 0 False False) e = Done (fd, la) e'"
    using t [of XFNET_CONNECT_NONBLOCK "xIpAddr_port junk 0 False False"] by (elim exE) (rename_tac r e', case_tac r, blast)
  then show ?thesis by (simp add: connectNonblock_def)
qed

text \<open>A descriptor that the kernel opens for an attempt is one that the process does not have yet.\<close>

definition connect_answer :: "(int \<Rightarrow> bool) \<Rightarrow> xIpAddr \<Rightarrow> ('k, 'z) client_state_scheme \<Rightarrow> bool" where
  "connect_answer usable junk s \<longleftrightarrow>
     (case ctrs s (cli_ctr s) of
        None \<Rightarrow> True
      | Some c \<Rightarrow>
          (case connectNonblock junk (peerAddr c) (cenv s) of
             Done fd e \<Rightarrow> fd \<noteq> INVALID_SOCK \<longrightarrow> usable fd \<and> register s fd = None
           | _ \<Rightarrow> True))"

lemma connect_answer_put_ctr [simp]:
  "ctrs s (cli_ctr s) = Some c \<Longrightarrow> peerAddr d = peerAddr c \<Longrightarrow>
    connect_answer usable junk (put_ctr (cli_ctr s) d s) = connect_answer usable junk s"
  by (simp add: connect_answer_def cong: outcome.case_cong)

lemma cli_keeps_ctr:
  assumes wf: "client_wf view U dec s" and "ctr_finishedCb d = Some ClientConnected"
  shows "cli_keeps view U dec s (put_ctr (cli_ctr s) d (s\<lparr>cenv := e\<rparr>))"
  using client_wf_put_ctr [of view U dec "s\<lparr>cenv := e\<rparr>" d] assms by (simp add: cli_keeps_def put_ctr_def)

text \<open>A failure is told to the user.\<close>

lemma report_failure_keeps:
  assumes h: "cli_hosted ctl view usable U dec s" and j: "j = cli_ctr s" and err: "err \<noteq> 0"
  obtains t where "report (client_api U errs junk call) j fd a err s = Done () t" and "cli_keeps view U dec s t"
proof -
  obtain c where c: "ctrs s j = Some c" "ctr_finishedCb c = Some ClientConnected"
    using client_wfD(6) [OF cli_hostedD(4) [OF h]] j by blast
  obtain t where "client_connectionFinished U None s = Done () t" "cli_keeps view U dec s t"
    by (rule client_connectionFinished_keeps [OF cli_hostedD(2,4,5) [OF h]])
  then show ?thesis using c err by (intro that [of t]) (simp_all add: report_def client_api_def connectedToServer_def)
qed

lemma beforeConnect_keeps:
  assumes h: "cli_hosted ctl view usable U dec s" and j: "j = cli_ctr s" and errs: "\<And>e. errs e \<noteq> 0" and a: "connect_answer usable junk s"
  obtains t where "beforeConnect ctl (client_api U errs junk call) j s = Done () t" and "cli_keeps view U dec s t"
proof -
  let ?api = "client_api U errs junk call"
  note wf = cli_hostedD(4) [OF h] and loop = cli_hostedD(5) [OF h]
  obtain c where c: "ctrs s j = Some c" "ctr_finishedCb c = Some ClientConnected" using client_wfD(6) [OF wf] j by blast
  obtain fd e where fd: "connectNonblock junk (peerAddr c) (cenv s) = Done fd e" using connectNonblock_returns by blast
  then have w: "with_cenv (connectNonblock (junk_addr ?api) (peerAddr c)) s = Done fd (s\<lparr>cenv := e\<rparr>)"
    by (intro with_cenv_Done) (simp add: client_api_def)
  have k: "cli_keeps view U dec s (put_ctr j (c\<lparr>ctr_status := st\<rparr>) (s\<lparr>cenv := e\<rparr>))" for st
    using cli_keeps_ctr [OF wf, of "c\<lparr>ctr_status := st\<rparr>" e] c(2) j by simp
  show ?thesis
  proof (cases "fd = INVALID_SOCK")
    case True
    let ?s = "put_ctr j (c\<lparr>ctr_status := XF_CONN_STATUS_UNKOWN\<rparr>) (s\<lparr>cenv := e\<rparr>)"
    have "cli_hosted ctl view usable U dec ?s" "j = cli_ctr ?s" "errno_num ?api (errno_of (cenv ?s)) \<noteq> 0"
      using cli_hosted_keeps [OF h k] j errs by (simp_all add: client_api_def)
    then obtain t where "report ?api j INVALID_SOCK (local_addr ?api) (errno_num ?api (errno_of (cenv ?s))) ?s = Done () t" "cli_keeps view U dec ?s t"
      by (rule report_failure_keeps)
    then show ?thesis using True w c(1) loop cli_keeps_trans [OF k] by (intro that [of t]) (simp_all add: beforeConnect_def)
  next
    case False
    then have u: "usable fd" "register s fd = None" using a c(1) fd j by (simp_all add: connect_answer_def)
    let ?s = "put_ctr j (c\<lparr>ctr_status := XF_CONN_STATUS_CONNECTING\<rparr>) (s\<lparr>cenv := e\<rparr>)"
    let ?r = "(register s)(fd \<mapsto> waiting_event j)"
    have "mirror view ?s" "isLoopThread ?s" using cli_hostedD(6) [OF h] loop by simp_all
    from loop_reg_ok [OF cli_hostedD(1) [OF h] this u(1), of 0 XE_WRITABLE "ConnectorOnEvent j"] obtain n where
      n: "loop_reg ctl fd 0 XE_WRITABLE (ConnectorOnEvent j) ?s = Done 0 (?s\<lparr>register := ?r, kern := n\<rparr>)"
        "mirror view (?s\<lparr>register := ?r, kern := n\<rparr>)"
      unfolding waiting_event_def by auto
    have "cli_wired (s\<lparr>register := ?r\<rparr>)" using cli_wired_wait [OF cli_hostedD(7) [OF h] u(2)] j by (simp add: waiting_event_def)
    then have "cli_wired (?s\<lparr>register := ?r\<rparr>)" by (simp add: cli_wired_def put_ctr_def)
    from client_wf_reg [OF cli_keepsD(1) [OF k] this n(2)] have "cli_keeps view U dec ?s (?s\<lparr>register := ?r, kern := n\<rparr>)"
      by (simp add: cli_keeps_def)
    then show ?thesis
      using False w c(1) loop n(1) cli_keeps_trans [OF k] by (intro that) (simp_all add: beforeConnect_def)
  qed
qed

lemma onReConnect_keeps:
  assumes h: "cli_hosted ctl view usable U dec s" and j: "j = cli_ctr s" and errs: "\<And>e. errs e \<noteq> 0" and a: "connect_answer usable junk s"
  obtains t where "onReConnect ctl (client_api U errs junk call) j s = Done () t" and "cli_keeps view U dec s t"
proof -
  obtain c where c: "ctrs s j = Some c" "ctr_finishedCb c = Some ClientConnected"
    using client_wfD(6) [OF cli_hostedD(4) [OF h]] j by blast
  let ?s = "put_ctr j (c\<lparr>reConnMs := reConnMs c + ReConnntervalMs\<rparr>) s"
  have k: "cli_keeps view U dec s ?s"
    using cli_keeps_ctr [OF cli_hostedD(4) [OF h], of "c\<lparr>reConnMs := reConnMs c + ReConnntervalMs\<rparr>" "cenv s"] c(2) j by simp
  have "j = cli_ctr ?s" "connect_answer usable junk ?s" using a c(1) j by simp_all
  then obtain t where "beforeConnect ctl (client_api U errs junk call) j ?s = Done () t" "cli_keeps view U dec ?s t"
    by (rule beforeConnect_keeps [where call = call, OF cli_hosted_keeps [OF h k] _ errs])
  then show ?thesis using c(1) cli_keeps_trans [OF k] by (intro that [of t]) (simp_all add: onReConnect_def)
qed

section \<open>Failed attempts\<close>

text \<open>
  \<open>AddTimer\<close> with an ordered set needs no more than a timer that is not in it: one that is
  equivalent to a member is deleted again.
\<close>

lemma AddTimer_any:
  assumes o: "tlive s" "tq_ordered s" and t: "theap s p = Some t" and new: "p \<notin> set (timers s)"
  obtains ts h where "AddTimer p s = Done p (s\<lparr>timers := ts, theap := h\<rparr>)" and "tlive (s\<lparr>timers := ts, theap := h\<rparr>)"
    and "tq_ordered (s\<lparr>timers := ts, theap := h\<rparr>)" and "set ts \<subseteq> insert p (set (timers s))" and "\<forall>q \<in> set ts. h q = theap s q"
proof (cases "\<exists>q \<in> set (timers s). set_equiv s t q")
  case True
  have "sorted_wrt (\<lambda>a b. timer_cmp (the (((theap s)(p := None)) a)) (the (((theap s)(p := None)) b))) (timers s)"
    by (rule sorted_wrt_mono_rel [OF _ o(2) [unfolded tq_ordered_def]]) (use new in auto)
  then show ?thesis
    using True o t new by (intro that [of "(theap s)(p := None)" "timers s"]) (auto simp: AddTimer_def tlive_def tq_ordered_def)
next
  case False
  let ?below = "\<lambda>q. timer_cmp (the (theap s q)) t"
  have "sorted_wrt (\<lambda>p q. timer_cmp (the (theap s p)) (the (theap s q))) (set_insert ?below p (timers s))"
  proof (rule sorted_set_insert)
    fix q assume "q \<in> set (timers s)" "\<not> timer_cmp (the (theap s q)) t"
    then show "timer_cmp (the (theap s p)) (the (theap s q))" using False t by (auto simp: set_equiv_def)
  qed (use o(2) t timer_cmp_trans in \<open>auto simp: tq_ordered_def\<close>)
  then show ?thesis
    using False o t by (intro that [of "theap s" "set_insert ?below p (timers s)"]) (auto simp: AddTimer_def tlive_def tq_ordered_def)
qed

text \<open>The timer of a retry.\<close>

lemma runAfter_retry:
  assumes h: "cli_hosted ctl view usable U dec s" and j: "j = cli_ctr s" and p: "theap s p = None"
  obtains t where "runAfter call p v (ConnectorOnReConnect j) s = Done p t" and "cli_hosted ctl view usable U dec t" and "fired t = fired s"
proof -
  note r = client_wfD(5) [OF cli_hostedD(4) [OF h]]
  obtain now u where u: "TNOWMS s = (now, u)" by (cases "TNOWMS s")
  then have fu: "timers u = timers s" "theap u = theap s" "isLoopThread u" "cli_hosted ctl view usable U dec u" "fired u = fired s" "cli_ctr u = cli_ctr s"
    using h by (auto simp: TNOWMS_def isLoopThread_def cli_hosted_def split: list.splits)
  let ?v = "new_timer_at p (now + sint v) (ConnectorOnReConnect j) u"
  obtain t where t: "theap ?v = (theap s)(p \<mapsto> t)" "repeat t = 1" "timer_cb t = ConnectorOnReConnect j"
    by (rule that [of "\<lparr>repeat = 1, interval = 0, expiration = now + sint v, timerSerial = sint (nextSerial u + 1),
        timer_cb = ConnectorOnReConnect j\<rparr>"]) (simp_all add: new_timer_fields(1) fu(2))
  have tv: "timers ?v = timers s" "isLoopThread ?v" using fu by (subst new_timer_fields(2), simp)+
  have pn: "p \<notin> set (timers s)" using r p by (auto simp: retry_timers_def tlive_def)
  have "sorted_wrt (\<lambda>a b. timer_cmp (the (((theap s)(p \<mapsto> t)) a)) (the (((theap s)(p \<mapsto> t)) b))) (timers s)"
    by (rule sorted_wrt_mono_rel [where P = "\<lambda>a b. timer_cmp (the (theap s a)) (the (theap s b))"])
      (use r pn in \<open>auto simp: retry_timers_def tq_ordered_def\<close>)
  then have o: "tlive ?v" "tq_ordered ?v" "theap ?v p = Some t" "p \<notin> set (timers ?v)"
    using r t pn by (simp_all add: retry_timers_def tlive_def tq_ordered_def tv)
  obtain ts hp where a: "AddTimer p ?v = Done p (?v\<lparr>timers := ts, theap := hp\<rparr>)" "tlive (?v\<lparr>timers := ts, theap := hp\<rparr>)"
    "tq_ordered (?v\<lparr>timers := ts, theap := hp\<rparr>)" "set ts \<subseteq> insert p (set (timers ?v))" "\<forall>q \<in> set ts. hp q = theap ?v q"
    by (rule AddTimer_any [OF o])
  let ?w = "?v\<lparr>timers := ts, theap := hp\<rparr>"
  have w: "?w = u\<lparr>nextSerial := nextSerial ?v, timers := ts, theap := hp\<rparr>" by (subst new_timer_fields(2)) simp
  have "retry_timers j ?w"
    using r a t pn unfolding retry_timers_def j [symmetric] by (auto simp: tv hasNextTime_def)
  then have "client_wf view U dec ?w"
    using cli_hostedD(4) [OF fu(4)] fu(6) j unfolding w client_wf_def by simp
  then have "cli_hosted ctl view usable U dec ?w" using fu(3,4) unfolding w by (simp add: cli_hosted_def)
  moreover have "runAfter call p v (ConnectorOnReConnect j) s = Done p ?w"
    using a(1) tv(2) u by (simp add: runAfter_def scheduleToLoopThread_def run_functor_def Let_def)
  moreover have "fired ?w = fired s" using fu(5) unfolding w by simp
  ultimately show ?thesis by (intro that [of ?w])
qed

text \<open>
  An attempt that fails: the descriptor leaves the loop, and a timer is set for the next attempt,
  or the failure is reported.
\<close>

lemma connectOnError_keeps:
  assumes h: "cli_hosted ctl view usable U dec s" and j: "j = cli_ctr s" and p: "theap s p = None"
    and st: "register s fd = Some st" "es_callback st = ConnectorOnEvent i"
  obtains t where "connectOnError ctl (client_api U errs junk call) p j fd err s = Done () t"
    and "cli_hosted ctl view usable U dec t" and "fired t = fired s"
proof -
  let ?api = "client_api U errs junk call"
  note wf = cli_hostedD(4) [OF h]
  obtain c where c: "ctrs s j = Some c" "ctr_finishedCb c = Some ClientConnected" using client_wfD(6) [OF wf] j by blast
  let ?u = "put_ctr j (c\<lparr>ctr_status := XF_CONN_STATUS_DISCONNECTED\<rparr>) s"
  have k: "cli_keeps view U dec s ?u"
    using cli_keeps_ctr [OF wf, of "c\<lparr>ctr_status := XF_CONN_STATUS_DISCONNECTED\<rparr>" "cenv s"] c(2) j by simp
  have "mirror view ?u" "isLoopThread ?u" using cli_hostedD(5,6) [OF h] by simp_all
  from loop_remove_ok [OF cli_hostedD(1) [OF h] this, of fd] obtain n where
    n: "loop_remove ctl fd ?u = Done 0 (?u\<lparr>register := (register ?u)(fd := None), kern := n\<rparr>)"
      "mirror view (?u\<lparr>register := (register ?u)(fd := None), kern := n\<rparr>)"
    by metis
  let ?v = "?u\<lparr>register := (register ?u)(fd := None), kern := n, cenv := sys_close fd (cenv s)\<rparr>"
  have "cli_wired (?u\<lparr>register := (register ?u)(fd := None)\<rparr>)"
    using cli_wired_drop [OF client_wfD(2) [OF cli_keepsD(1) [OF k]]] st by simp
  from client_wf_reg [OF cli_keepsD(1) [OF k] this n(2)] have "cli_keeps view U dec ?u ?v" by (simp add: cli_keeps_def)
  then have v: "cli_keeps view U dec s ?v" by (rule cli_keeps_trans [OF k])
  note hv = cli_hosted_keeps [OF h v]
  have d: "ctrs ?v j = Some (c\<lparr>ctr_status := XF_CONN_STATUS_DISCONNECTED\<rparr>)" "j = cli_ctr ?v" "theap ?v p = None" "fired ?v = fired s"
    using p j by simp_all
  have step: "connectOnError ctl ?api p j fd err s =
      (if reConnMs c < ReConnMaxTimeMs
       then bindS (runAfter (run_fn ?api) p (of_int ReConnntervalMs) (ConnectorOnReConnect j) ?v) (\<lambda>_ s. Done () s)
       else report ?api j INVALID_SOCK (local_addr ?api) (-7) ?v)"
    using c(1) n(1) by (simp add: connectOnError_def Let_def)
  show ?thesis
  proof (cases "reConnMs c < ReConnMaxTimeMs")
    case True
    obtain t where "runAfter (run_fn ?api) p (of_int ReConnntervalMs) (ConnectorOnReConnect j) ?v = Done p t"
      "cli_hosted ctl view usable U dec t" "fired t = fired ?v"
      by (rule runAfter_retry [OF hv d(2,3)])
    then show ?thesis using True step d(4) by (intro that [of t]) simp_all
  next
    case False
    obtain t where t: "report ?api j INVALID_SOCK (local_addr ?api) (-7) ?v = Done () t" "cli_keeps view U dec ?v t"
      by (rule report_failure_keeps [OF hv d(2)]) auto
    then show ?thesis using False step cli_hosted_keeps [OF hv t(2)] cli_keepsD(4) [OF t(2)] d(4) by (intro that [of t]) simp_all
  qed
qed

section \<open>Events on the descriptor of an attempt\<close>

text \<open>
  What an event on such a descriptor needs: a free address for the timer of a retry when the attempt
  has failed; and when it has succeeded, a kernel that makes the descriptor non-blocking.
\<close>

definition connector_ready ::
    "(int \<Rightarrow> bool) \<Rightarrow> (errno \<Rightarrow> int) \<Rightarrow> xIpAddr \<Rightarrow> ptr \<Rightarrow> xEvent \<Rightarrow> ('k, 'z) client_state_scheme \<Rightarrow> bool" where
  "connector_ready usable errs junk p xe s \<longleftrightarrow>
     (case ctrs s (cli_ctr s) of
        None \<Rightarrow> False
      | Some c \<Rightarrow>
          if has (emask xe) XE_ERROR \<or> has (emask xe) XE_HUP \<or> ctr_status c = XF_CONN_STATUS_DISCONNECTED then theap s p = None
          else has (emask xe) XE_WRITABLE \<longrightarrow>
            (let (rc, e) = getSocketError errs (efd xe) (cenv s) in
             if rc \<noteq> 0 then theap s p = None
             else usable (efd xe) \<and>
               (case setNonBlock True (efd xe) (snd (getLocalAddr (efd xe) (family (peerAddr c)) (xIpAddr_port junk 0 False False) e)) of
                  Done _ _ \<Rightarrow> True | _ \<Rightarrow> False)))"

lemma new_client_conn_obj: "new_client_conn fd k \<Longrightarrow> cli_obj k \<and> isConnected k \<and> conn_fd k = fd"
  by (simp add: new_client_conn_def cli_obj_def sized_def)

lemma connectedToServer_keeps:
  assumes h: "cli_hosted ctl view usable U dec s" and u: "usable fd"
    and st: "register s fd = Some st" "es_callback st = ConnectorOnEvent i" and nb: "setNonBlock True fd (cenv s) = Done () ec"
  obtains t where "connectedToServer U (client_call ctl U errs junk (Suc n)) fd a 0 s = Done () t" and "cli_keeps view U dec s t"
proof -
  note wf = cli_hostedD(4) [OF h]
  obtain k v kn where v: "connectedToServer U (client_call ctl U errs junk (Suc n)) fd a 0 s = client_connectionFinished U (Some (cli_next s)) v"
    "v = put_conn (cli_next s) k (s\<lparr>cenv := ec, cli_next := Suc (cli_next s), cli_conn := Some (cli_next s)\<rparr>)
      \<lparr>register := (register s)(fd \<mapsto> \<lparr>es_mask = XE_READABLE, es_data = 0, es_callback = ConnHandleEvent (cli_next s)\<rparr>), kern := kn\<rparr>"
    "mirror view v" "new_client_conn fd k"
    by (rule connectedToServer_state [OF cli_hostedD(1,6,5) [OF h] client_wfD(4) [OF wf] u nb])
  note k = new_client_conn_obj [OF v(4)]
  have n: "conns s (cli_next s) = None"
    using cli_wired_obj [OF cli_hostedD(7) [OF h]] by (cases "conns s (cli_next s)") auto
  have "cli_wired (put_conn (cli_next s) k (s\<lparr>cli_next := Suc (cli_next s), cli_conn := Some (cli_next s)\<rparr>)
      \<lparr>register := (register s)(fd \<mapsto> \<lparr>es_mask = XE_READABLE, es_data = 0, es_callback = ConnHandleEvent (cli_next s)\<rparr>)\<rparr>)"
    using cli_wired_establish [OF cli_hostedD(7) [OF h], of k] st k by simp
  then have "cli_wired v" by (simp add: v(2) cli_wired_def put_conn_def)
  then have "client_wf view U dec v" by (intro client_wf_cong [OF wf _ v(3)]) (simp_all add: v(2))
  then have kv: "cli_keeps view U dec s v" using n by (auto simp: cli_keeps_def v(2))
  obtain t where "client_connectionFinished U (Some (cli_next s)) v = Done () t" "cli_keeps view U dec v t"
    using client_connectionFinished_keeps [OF cli_hostedD(2,4,5) [OF cli_hosted_keeps [OF h kv]]] by metis
  then show ?thesis using v(1) cli_keeps_trans [OF kv] by (intro that [of t]) simp_all
qed

lemma connectOnSucc_keeps:
  assumes h: "cli_hosted ctl view usable U dec s" and j: "j = cli_ctr s" and u: "usable fd"
    and st: "register s fd = Some st" "es_callback st = ConnectorOnEvent i" and c: "ctrs s j = Some c"
    and nb: "setNonBlock True fd (snd (getLocalAddr fd (family (peerAddr c)) (xIpAddr_port junk 0 False False) (cenv s))) = Done () ec"
  obtains t where "connectOnSucc (client_api U errs junk (client_call ctl U errs junk (Suc n))) j fd s = Done () t"
    and "cli_keeps view U dec s t"
proof -
  let ?api = "client_api U errs junk (client_call ctl U errs junk (Suc n))"
  have f: "ctr_finishedCb c = Some ClientConnected" using client_wfD(6) [OF cli_hostedD(4) [OF h]] j c by auto
  obtain r a e where g: "getLocalAddr fd (family (peerAddr c)) (xIpAddr_port junk 0 False False) (cenv s) = ((r, a), e)"
    by (rule prod_cases3) (metis surj_pair)
  let ?u = "put_ctr j (c\<lparr>ctr_status := XF_CONN_STATUS_CONNECTED\<rparr>) (s\<lparr>cenv := e\<rparr>)"
  have k: "cli_keeps view U dec s ?u"
    using cli_keeps_ctr [OF cli_hostedD(4) [OF h], of "c\<lparr>ctr_status := XF_CONN_STATUS_CONNECTED\<rparr>" e] f j by simp
  have pre: "register ?u fd = Some st" "setNonBlock True fd (cenv ?u) = Done () ec" using st nb g by simp_all
  obtain t where "connectedToServer U (client_call ctl U errs junk (Suc n)) fd a 0 ?u = Done () t" "cli_keeps view U dec ?u t"
    by (rule connectedToServer_keeps [OF cli_hosted_keeps [OF h k] u pre(1) st(2) pre(2)])
  then show ?thesis
    using c f g cli_keeps_trans [OF k]
    by (intro that [of t]) (simp_all add: connectOnSucc_def report_def local_addr_def client_api_def)
qed

text \<open>
  The second demand is needed: when the kernel refuses, the constructor of the connection throws, and
  nothing between it and the loop catches the exception, which leaves \<^verbatim>\<open>xLoop::start\<close>. The new socket has been
  closed, but its descriptor is still registered.
\<close>

lemma refused_socket_escapes:
  assumes "ctrs s j = Some c" and "ctr_status c = XF_CONN_STATUS_CONNECTING" and "ctr_finishedCb c = Some ClientConnected"
    and "getSocketError errs fd (cenv s) = (0, e)"
    and "setNonBlock True fd (snd (getLocalAddr fd (family (peerAddr c)) (xIpAddr_port junk 0 False False) e)) = Raise x ec"
  shows "\<exists>t. client_on_event ctl U errs junk n p (ConnectorOnEvent j) \<lparr>efd = fd, emask = XE_WRITABLE, edata = d\<rparr> s = Raise x t \<and>
    register t = register s \<and> kern t = kern s \<and> cenv t = destroy fd ec"
proof -
  obtain r a e1 where g: "getLocalAddr fd (family (peerAddr c)) (xIpAddr_port junk 0 False False) e = ((r, a), e1)"
    by (rule prod_cases3) (metis surj_pair)
  obtain k where k: "xConnection_new fd (Some ClientDecode) (Some ClientMessage) (Some ClientSentBytes) (Some ClientClosed)
      (Some ClientFinished) = Inr k"
    using xConnection_new_ok by metis
  let ?u = "put_ctr j (c\<lparr>ctr_status := XF_CONN_STATUS_CONNECTED\<rparr>) (s\<lparr>cenv := e1\<rparr>)"
  have "with_cenv (setNonBlock True fd) ?u = Raise x (?u\<lparr>cenv := ec\<rparr>)" using assms(5) g by (simp add: with_cenv_def)
  then have "connectedToServer U (client_call ctl U errs junk n) fd a 0 ?u = Raise x (?u\<lparr>cenv := destroy fd ec\<rparr>)"
    using k by (simp add: connectedToServer_def client_connection_def)
  then show ?thesis
    using assms(1-4) g by (simp add: client_on_event_def onEventHandle_def getStatus_def connectOnSucc_def report_def local_addr_def
        client_api_def setStatus_def get_ctr_def has_def mask_defs put_ctr_def)
qed

lemma onEventHandle_keeps:
  assumes h: "cli_hosted ctl view usable U dec s" and j: "j = cli_ctr s"
    and st: "register s (efd xe) = Some st" "es_callback st = ConnectorOnEvent i" and a: "connector_ready usable errs junk p xe s"
  obtains t where "onEventHandle ctl (client_api U errs junk (client_call ctl U errs junk (Suc n))) p j xe s = Done () t"
    and "cli_hosted ctl view usable U dec t" and "fired t = fired s"
proof -
  let ?api = "client_api U errs junk (client_call ctl U errs junk (Suc n))" and ?fd = "efd xe"
  obtain c where c: "ctrs s j = Some c" using client_wfD(6) [OF cli_hostedD(4) [OF h]] j by blast
  show ?thesis
  proof (cases "has (emask xe) XE_ERROR \<or> has (emask xe) XE_HUP \<or> ctr_status c = XF_CONN_STATUS_DISCONNECTED")
    case True
    then have "theap s p = None" using a c j by (auto simp: connector_ready_def)
    then obtain t where "connectOnError ctl ?api p j ?fd (-4) s = Done () t" "cli_hosted ctl view usable U dec t" "fired t = fired s"
      using connectOnError_keeps [OF h j _ st, where call = "client_call ctl U errs junk (Suc n)"] by metis
    then show ?thesis using True c by (intro that [of t]) (auto simp: onEventHandle_def)
  next
    case ok: False
    show ?thesis
    proof (cases "has (emask xe) XE_WRITABLE")
      case False
      then show ?thesis using ok c h by (intro that [of s]) (simp_all add: onEventHandle_def)
    next
      case True
      obtain rc e where g: "getSocketError errs ?fd (cenv s) = (rc, e)" by (cases "getSocketError errs ?fd (cenv s)")
      let ?u = "s\<lparr>cenv := e\<rparr>"
      have u: "cli_hosted ctl view usable U dec ?u" "j = cli_ctr ?u" "register ?u ?fd = Some st" "ctrs ?u j = Some c" "fired ?u = fired s"
        using h j st(1) c by (simp_all add: cli_hosted_def)
      have eq: "onEventHandle ctl ?api p j xe s =
          (if rc \<noteq> 0 then connectOnError ctl ?api p j ?fd rc ?u else connectOnSucc ?api j ?fd ?u)"
        using ok True c g by (simp add: onEventHandle_def) (simp add: client_api_def)
      show ?thesis
      proof (cases "rc = 0")
        case True
        from a ok \<open>has (emask xe) XE_WRITABLE\<close> g True c j obtain ec where nb: "usable ?fd"
          "setNonBlock True ?fd (snd (getLocalAddr ?fd (family (peerAddr c)) (xIpAddr_port junk 0 False False) (cenv ?u))) = Done () ec"
          by (auto simp: connector_ready_def split: outcome.splits)
        obtain t where t: "connectOnSucc ?api j ?fd ?u = Done () t" "cli_keeps view U dec ?u t"
          by (rule connectOnSucc_keeps [OF u(1,2) nb(1) u(3) st(2) u(4) nb(2)])
        then show ?thesis
          using eq True cli_hosted_keeps [OF u(1) t(2)] cli_keepsD(4) [OF t(2)] u(5) by (intro that [of t]) simp_all
      next
        case False
        then have "theap ?u p = None" using a ok \<open>has (emask xe) XE_WRITABLE\<close> g c j by (simp add: connector_ready_def)
        then obtain t where "connectOnError ctl ?api p j ?fd rc ?u = Done () t" "cli_hosted ctl view usable U dec t" "fired t = fired ?u"
          using connectOnError_keeps [OF u(1,2) _ u(3) st(2), where call = "client_call ctl U errs junk (Suc n)"] by metis
        then show ?thesis using eq False u(5) by (intro that [of t]) simp_all
      qed
    qed
  qed
qed

section \<open>Closures that the loop runs\<close>

declare client_call.simps(2) [simp del]

text \<open>The closures that the client itself queues, those of a connection, and the user's, with what they need.\<close>

definition client_runnable :: "(int \<Rightarrow> bool) \<Rightarrow> xIpAddr \<Rightarrow> closure \<Rightarrow> ('k, 'z) client_state_scheme \<Rightarrow> bool" where
  "client_runnable usable junk f s \<longleftrightarrow>
     (case f of
        ConnectorBeforeConnect j \<Rightarrow> j = cli_ctr s \<and> connect_answer usable junk s
      | ConnectorOnReConnect j \<Rightarrow> j = cli_ctr s \<and> connect_answer usable junk s
      | ConnSendMsgToBuffer i bs \<Rightarrow> (\<exists>c. conns s i = Some c \<and> length (content (writeBuff c)) + length bs < 2 ^ 31)
      | ConnCloseConn i \<Rightarrow> conns s i \<noteq> None
      | ConnCloseConnection i \<Rightarrow> conns s i \<noteq> None
      | ConnSetClosed i \<Rightarrow> (\<exists>c. conns s i = Some c \<and> closed c)
      | UserFn u \<Rightarrow> True
      | _ \<Rightarrow> False)"

lemma setClosed_keeps:
  assumes wf: "client_wf view U dec s" and c: "conns s i = Some c" "closed c"
  shows "setClosed i s = Done () (put_conn i (c\<lparr>connStatus := XF_CONN_STATUS_DISCONNECTED\<rparr>) s) \<and>
    cli_keeps view U dec s (put_conn i (c\<lparr>connStatus := XF_CONN_STATUS_DISCONNECTED\<rparr>) s)"
  using cli_keeps_put [OF wf c(1), of "c\<lparr>connStatus := XF_CONN_STATUS_DISCONNECTED\<rparr>"] client_wf_conn [OF wf c(1)] c
  by (auto simp: setClosed_def isConnected_def closed_def)

lemma client_call_keeps:
  assumes h: "cli_hosted ctl view usable U dec s" and errs: "\<And>e. errs e \<noteq> 0" and f: "client_runnable usable junk f s"
  obtains t where "client_call ctl U errs junk (Suc (Suc (Suc n))) f s = Done () t" and "cli_keeps view U dec s t"
proof -
  let ?call = "client_call ctl U errs junk (Suc (Suc n))"
  let ?cb = "client_cbs U ?call"
  note wf = cli_hostedD(4) [OF h]
  have "\<exists>t. client_call ctl U errs junk (Suc (Suc (Suc n))) f s = Done () t \<and> cli_keeps view U dec s t"
  proof (cases f)
    case (ConnectorBeforeConnect j)
    then have j: "j = cli_ctr s" "connect_answer usable junk s" using f by (simp_all add: client_runnable_def)
    obtain t where "beforeConnect ctl (client_api U errs junk ?call) j s = Done () t" "cli_keeps view U dec s t"
      by (rule beforeConnect_keeps [OF h j(1) errs j(2)])
    then show ?thesis using ConnectorBeforeConnect by (subst client_call.simps(2)) (simp add: Let_def)
  next
    case (ConnectorOnReConnect j)
    then have j: "j = cli_ctr s" "connect_answer usable junk s" using f by (simp_all add: client_runnable_def)
    obtain t where "onReConnect ctl (client_api U errs junk ?call) j s = Done () t" "cli_keeps view U dec s t"
      by (rule onReConnect_keeps [OF h j(1) errs j(2)])
    then show ?thesis using ConnectorOnReConnect by (subst client_call.simps(2)) (simp add: Let_def)
  next
    case (ConnSendMsgToBuffer i bs)
    then obtain c where c: "conns s i = Some c" "length (content (writeBuff c)) + length bs < 2 ^ 31"
      using f by (auto simp: client_runnable_def)
    obtain t where "sendMsgToBuffer ctl ?cb i bs s = Done () t" "cli_keeps view U dec s t"
      using cli.sendMsgToBuffer_keeps [OF h c] by metis
    then show ?thesis using ConnSendMsgToBuffer by (subst client_call.simps(2)) (simp add: Let_def)
  next
    case (ConnCloseConn i)
    then obtain c where "conns s i = Some c" using f by (auto simp: client_runnable_def)
    then obtain t where "closeConn ctl ?cb i s = Done 0 t" "cli_keeps view U dec s t"
      using cli.closeConn_keeps [OF h] by metis
    then show ?thesis using ConnCloseConn by (subst client_call.simps(2)) (simp add: Let_def)
  next
    case (ConnCloseConnection i)
    then obtain c where "conns s i = Some c" using f by (auto simp: client_runnable_def)
    then obtain t where "closeConnection ctl ?cb ?call i s = Done () t" "cli_keeps view U dec s t"
      using cli.closeConnection_keeps [OF h] by metis
    then show ?thesis using ConnCloseConnection by (subst client_call.simps(2)) (simp add: Let_def)
  next
    case (ConnSetClosed i)
    then obtain c where "conns s i = Some c" "closed c" using f by (auto simp: client_runnable_def)
    from setClosed_keeps [OF wf this] show ?thesis
      using ConnSetClosed by (subst client_call.simps(2)) (auto simp: Let_def)
  next
    case (UserFn u)
    obtain t where "c_run U u s = Done () t" "cli_keeps view U dec s t"
      using cli_hostedD(2,4,5) [OF h] unfolding client_user_keeps_def by blast
    then show ?thesis using UserFn by (subst client_call.simps(2)) (simp add: Let_def)
  qed (use f in \<open>simp_all add: client_runnable_def\<close>)
  then show ?thesis using that by blast
qed

section \<open>Events\<close>

definition client_event_ok ::
    "(int \<Rightarrow> bool) \<Rightarrow> (errno \<Rightarrow> int) \<Rightarrow> xIpAddr \<Rightarrow> nat \<Rightarrow> ptr \<Rightarrow> xEvent \<Rightarrow> ('k, 'z) client_state_scheme \<Rightarrow> bool" where
  "client_event_ok usable errs junk n p xe s \<longleftrightarrow> (\<forall>st. register s (efd xe) = Some st \<longrightarrow>
     (case es_callback st of
        ConnectorOnEvent j \<Rightarrow> connector_ready usable errs junk p xe s
      | ConnHandleEvent i \<Rightarrow> (\<forall>c. conns s i = Some c \<longrightarrow>
          length (content (readBuff c)) + data_bytes (rx s (conn_fd c)) < 2 ^ 31 \<and>
          length (content (readBuff c)) + data_bytes (rx s (conn_fd c)) < n)
      | _ \<Rightarrow> True))"

lemma client_event_keeps:
  assumes h: "cli_hosted ctl view usable U dec s" and st: "register s (efd xe) = Some st"
    and a: "client_event_ok usable errs junk (Suc (Suc n)) p xe s"
  obtains t where "client_on_event ctl U errs junk (Suc (Suc n)) p (es_callback st) xe s = Done () t"
    and "cli_hosted ctl view usable U dec t" and "fired t = fired s"
proof -
  note wf = cli_hostedD(4) [OF h]
  note ret = that
  have keep: thesis if "client_on_event ctl U errs junk (Suc (Suc n)) p (es_callback st) xe s = Done () t" "cli_keeps view U dec s t" for t
    using ret [OF that(1) cli_hosted_keeps [OF h that(2)] cli_keepsD(4) [OF that(2)]] .
  from cli_hostedD(7) [OF h] st consider (wake) "es_callback st = LoopWakeUp" | (ctr) "es_callback st = ConnectorOnEvent (cli_ctr s)"
    | (conn) i c where "es_callback st = ConnHandleEvent i" "conns s i = Some c"
    unfolding cli_wired_def cli_regs_def by blast
  then show ?thesis
  proof cases
    case wake
    obtain r got rs where "readFd (rx s (wakeupFd s)) 8 = Inr (r, got, rs)" by (simp add: readFd_def) (metis prod_cases3)
    then have "client_on_event ctl U errs junk (Suc (Suc n)) p (es_callback st) xe s = Done () (s\<lparr>rx := (rx s)(wakeupFd s := rs)\<rparr>)"
      using wake by (simp add: client_on_event_def wakeUpCallBack_def sys_read_def)
    then show ?thesis using cli_keeps_io(2) [OF wf] by (rule keep)
  next
    case ctr
    have r: "connector_ready usable errs junk p xe s" using a st ctr by (simp add: client_event_ok_def)
    obtain t where "onEventHandle ctl (client_api U errs junk (client_call ctl U errs junk (Suc (Suc n)))) p (cli_ctr s) xe s = Done () t"
      "cli_hosted ctl view usable U dec t" "fired t = fired s"
      by (rule onEventHandle_keeps [OF h HOL.refl st ctr r])
    then show ?thesis using ctr that by (simp add: client_on_event_def)
  next
    case conn
    have room: "0 + length (content (readBuff c)) + data_bytes (rx s (conn_fd c)) < 2 ^ 31"
      "length (content (readBuff c)) + data_bytes (rx s (conn_fd c)) < Suc (Suc n)"
      using a st conn by (simp_all add: client_event_ok_def)
    obtain t where "HandleEvent ctl (client_lent_cbs U (client_call ctl U errs junk (Suc (Suc n)))) (Suc (Suc n)) i xe s = Done () t" "cli_keeps view U dec s t"
      using cli_lent.HandleEvent_keeps [OF h conn(2) room] by metis
    then show ?thesis using conn(1) by (intro keep [of t]) (simp_all add: client_on_event_def)
  qed
qed

section \<open>Timers\<close>

text \<open>Each timer that is due has to be admissible in the state in which its turn comes.\<close>

fun timers_admissible ::
    "(closure \<Rightarrow> ('k, 'z) client_state_scheme \<Rightarrow> (unit, ('k, 'z) client_state_scheme) outcome) \<Rightarrow>
     (closure \<Rightarrow> ('k, 'z) client_state_scheme \<Rightarrow> bool) \<Rightarrow> int \<Rightarrow> ptr list \<Rightarrow> ('k, 'z) client_state_scheme \<Rightarrow> bool" where
  "timers_admissible call adm now [] s \<longleftrightarrow> True"
| "timers_admissible call adm now (p # ps) s \<longleftrightarrow>
     expiration (the (theap s p)) > now \<or>
     adm (timer_cb (the (theap s p))) s \<and>
     (case call (timer_cb (the (theap s p))) s of
        Done _ t \<Rightarrow> timers_admissible call adm now ps (t\<lparr>timers := ps, theap := (theap t)(p := None)\<rparr>)
      | _ \<Rightarrow> True)"

lemma retry_timers_tail:
  assumes r: "retry_timers j s" and p: "timers s = p # ps"
  shows "retry_timers j (s\<lparr>timers := ps, theap := (theap s)(p := None)\<rparr>)" and "p \<notin> set ps"
proof -
  show n: "p \<notin> set ps" using tq_ordered_distinct r p by (fastforce simp: retry_timers_def)
  have "sorted_wrt (\<lambda>a b. timer_cmp (the (theap s a)) (the (theap s b))) ps"
    using r p by (simp add: retry_timers_def tq_ordered_def)
  then have "sorted_wrt (\<lambda>a b. timer_cmp (the (((theap s)(p := None)) a)) (the (((theap s)(p := None)) b))) ps"
    by (rule sorted_wrt_mono_rel [rotated]) (use n in auto)
  then show "retry_timers j (s\<lparr>timers := ps, theap := (theap s)(p := None)\<rparr>)"
    using r p n by (auto simp: retry_timers_def tlive_def tq_ordered_def)
qed

lemma client_trigger_loop:
  assumes errs: "\<And>e. errs e \<noteq> 0"
  shows "cli_hosted ctl view usable U dec s \<Longrightarrow> timers s = ps \<Longrightarrow> length ps < fuel \<Longrightarrow>
    timers_admissible (client_call ctl U errs junk (Suc (Suc (Suc n)))) (client_runnable usable junk) now ps s \<Longrightarrow>
    \<exists>t. trigger_loop (client_call ctl U errs junk (Suc (Suc (Suc n)))) fuel now (first_of (timers s)) s = Done () t \<and>
      cli_hosted ctl view usable U dec t"
proof (induction ps arbitrary: s fuel)
  case Nil
  then obtain k where "fuel = Suc k" by (cases fuel) auto
  then show ?case using Nil by simp
next
  case (Cons p ps)
  obtain k where k: "fuel = Suc k" using Cons.prems(3) by (cases fuel) auto
  let ?call = "client_call ctl U errs junk (Suc (Suc (Suc n)))"
  note h = Cons.prems(1) and r = client_wfD(5) [OF cli_hostedD(4) [OF Cons.prems(1)]]
  obtain t where t: "theap s p = Some t" "\<not> hasNextTime t" using r Cons.prems(2) by (auto simp: retry_timers_def)
  show ?case
  proof (cases "expiration t > now")
    case True
    then show ?thesis using k t Cons.prems(2) h by simp
  next
    case False
    then have a: "client_runnable usable junk (timer_cb t) s" using Cons.prems(4) t by simp
    obtain u where u: "?call (timer_cb t) s = Done () u" "cli_keeps view U dec s u" by (rule client_call_keeps [OF h errs a])
    note hu = cli_hosted_keeps [OF h u(2)]
    have q: "timers u = p # ps" "theap u = theap s" using cli_keepsD(5,6) [OF u(2)] Cons.prems(2) by simp_all
    let ?v = "u\<lparr>timers := ps, theap := (theap u)(p := None)\<rparr>"
    note tail = retry_timers_tail [OF client_wfD(5) [OF cli_hostedD(4) [OF hu]] q(1)]
    have hv: "cli_hosted ctl view usable U dec ?v"
      using hu tail(1) by (simp add: cli_hosted_def client_wf_def)
    have "timers_admissible ?call (client_runnable usable junk) now ps ?v"
      using Cons.prems(4) False t u(1) by simp
    then obtain w where w: "trigger_loop ?call k now (first_of (timers ?v)) ?v = Done () w" "cli_hosted ctl view usable U dec w"
      using Cons.IH [OF hv] Cons.prems(3) k by auto
    have "trigger_loop ?call fuel now (first_of (timers s)) s = trigger_loop ?call k now (first_of (timers ?v)) ?v"
      using False t u(1) q k tail(2) Cons.prems(2) by (simp add: doCallBack_def first_of_def)
    then show ?thesis using w by simp
  qed
qed

definition timers_ready ::
    "'k epoll_ctl \<Rightarrow> ('k, 'z) client_state_scheme client_fns \<Rightarrow> (errno \<Rightarrow> int) \<Rightarrow> xIpAddr \<Rightarrow> (int \<Rightarrow> bool) \<Rightarrow> nat \<Rightarrow>
     ('k, 'z) client_state_scheme \<Rightarrow> bool" where
  "timers_ready ctl U errs junk usable n s \<longleftrightarrow>
     (let (now, u) = TNOWMS s in
      length (timers u) < n \<and> timers_admissible (client_call ctl U errs junk n) (client_runnable usable junk) now (timers u) u)"

definition client_functor_ok :: "(int \<Rightarrow> bool) \<Rightarrow> xIpAddr \<Rightarrow> xFunctor \<Rightarrow> ('k, 'z) client_state_scheme \<Rightarrow> bool" where
  "client_functor_ok usable junk f s \<longleftrightarrow> (case f of FCall c \<Rightarrow> client_runnable usable junk c s | _ \<Rightarrow> False)"

section \<open>The client as the owner of its loop\<close>

lemma cli_hosted_loop [simp]:
  "cli_hosted ctl view usable U dec (s\<lparr>fired := x\<rparr>) = cli_hosted ctl view usable U dec s"
  "cli_hosted ctl view usable U dec (s\<lparr>epoll_answers := y\<rparr>) = cli_hosted ctl view usable U dec s"
  "cli_hosted ctl view usable U dec (s\<lparr>extraEvents := z\<rparr>) = cli_hosted ctl view usable U dec s"
  "cli_hosted ctl view usable U dec (s\<lparr>clock := c, last_now := t\<rparr>) = cli_hosted ctl view usable U dec s"
  by (simp_all add: cli_hosted_def) (simp_all add: isLoopThread_def)

definition cli_running ::
    "'k epoll_ctl \<Rightarrow> ('k \<Rightarrow> int \<Rightarrow> int32 option) \<Rightarrow> (int \<Rightarrow> bool) \<Rightarrow> ('k, 'z) client_state_scheme client_fns \<Rightarrow> (byte list \<Rightarrow> int) \<Rightarrow>
     (errno \<Rightarrow> int) \<Rightarrow> ('k, 'z) client_state_scheme \<Rightarrow> bool" where
  "cli_running ctl view usable U dec errs s \<longleftrightarrow> cli_hosted ctl view usable U dec s \<and> (\<forall>e. errs e \<noteq> 0)"

interpretation cli_loop: loop_owner "client_on_event ctl U errs junk (Suc (Suc (Suc n))) p" "client_call ctl U errs junk (Suc (Suc (Suc n)))"
    "Suc (Suc (Suc n))" "cli_running ctl view usable U dec errs" "client_event_ok usable errs junk (Suc (Suc (Suc n))) p"
    "client_functor_ok usable junk" "timers_ready ctl U errs junk usable (Suc (Suc (Suc n)))"
  for ctl :: "'k epoll_ctl" and view usable and U :: "('k, 'z) client_state_scheme client_fns" and dec errs junk n p
proof
  let ?call = "client_call ctl U errs junk (Suc (Suc (Suc n)))"
  fix s :: "('k, 'z) client_state_scheme"
  assume "cli_running ctl view usable U dec errs s"
  then have h: "cli_hosted ctl view usable U dec s" and e: "\<And>e. errs e \<noteq> 0" by (simp_all add: cli_running_def)
  show "\<exists>t. client_on_event ctl U errs junk (Suc (Suc (Suc n))) p (es_callback st) xe s = Done () t \<and>
      cli_running ctl view usable U dec errs t \<and> fired t = fired s"
    if "register s (efd xe) = Some st" "client_event_ok usable errs junk (Suc (Suc (Suc n))) p xe s" for xe st
    using client_event_keeps [OF h that] e unfolding cli_running_def by metis
  show "\<exists>t. run_functor ?call f s = Done () t \<and> cli_running ctl view usable U dec errs t" if r: "client_functor_ok usable junk f s" for f
  proof -
    obtain c where c: "f = FCall c" "client_runnable usable junk c s" using r by (auto simp: client_functor_ok_def split: xFunctor.splits)
    obtain t where "?call c s = Done () t" "cli_keeps view U dec s t" by (rule client_call_keeps [OF h e c(2)])
    then show ?thesis using cli_hosted_keeps [OF h] c(1) e by (auto simp: run_functor_def cli_running_def)
  qed
  show "\<exists>t. triggerTimer ?call (Suc (Suc (Suc n))) s = Done () t \<and> cli_running ctl view usable U dec errs t"
    if r: "timers_ready ctl U errs junk usable (Suc (Suc (Suc n))) s"
  proof -
    obtain now u where u: "TNOWMS s = (now, u)" by (cases "TNOWMS s")
    then have "cli_hosted ctl view usable U dec u" using h by (auto simp: TNOWMS_def split: list.splits)
    moreover have "length (timers u) < Suc (Suc (Suc n))" "timers_admissible ?call (client_runnable usable junk) now (timers u) u"
      using r u by (simp_all add: timers_ready_def)
    ultimately have "\<exists>t. trigger_loop ?call (Suc (Suc (Suc n))) now (first_of (timers u)) u = Done () t \<and> cli_hosted ctl view usable U dec t"
      using client_trigger_loop [where errs = errs, OF e] by metis
    then show ?thesis using u e by (auto simp: triggerTimer_def cli_running_def)
  qed
qed (simp_all add: cli_running_def)

end
