(* ===== verification/Client_Safety.thy ===== *)
theory Client_Safety
  imports Client_Loop Reach
begin

text \<open>
  Everything that can happen to a running client, as one step relation: rounds of the loop, its
  events, functors and timers, calls of the user from any thread, and new answers of the kernel. The
  invariant of \<open>Client_Inv\<close> holds after any steps, and none of them can fail.
\<close>

section \<open>Calls of the user\<close>

text \<open>
  Any thread may call \<^verbatim>\<open>start\<close>, \<^verbatim>\<open>stop\<close> and the connection's \<^verbatim>\<open>sendMsg\<close>. In a
  thread that is not the loop's they only queue a functor and wake the loop.
\<close>

definition by_thread ::
    "nat \<Rightarrow> (('k, 'z) client_state_scheme \<Rightarrow> (unit, ('k, 'z) client_state_scheme) outcome) \<Rightarrow> ('k, 'z) client_state_scheme \<Rightarrow>
     (unit, ('k, 'z) client_state_scheme) outcome" where
  "by_thread t f s = bindS (f (s\<lparr>current := t\<rparr>)) (\<lambda>_ s'. Done () (s'\<lparr>current := current s\<rparr>))"

lemma schedule_other:
  assumes "\<not> isLoopThread s"
  obtains t w where "scheduleToLoopThread call f s = Done () (s\<lparr>extraEvents := extraEvents s @ [f], tx := t, wire := w\<rparr>)"
proof -
  let ?s = "s\<lparr>extraEvents := extraEvents s @ [f]\<rparr>"
  obtain t w where "notify ?s = Done () (?s\<lparr>tx := t, wire := w\<rparr>)" using notify_wire [of ?s] by blast
  then show ?thesis using assms by (intro that [of w t]) (simp add: scheduleToLoopThread_def)
qed

lemma by_thread_keeps:
  assumes wf: "client_wf view U dec s" and loop: "isLoopThread s"
    and own: "t = threadId s \<Longrightarrow> \<exists>u. f s = Done () u \<and> cli_keeps view U dec s u"
    and other: "\<not> isLoopThread (s\<lparr>current := t\<rparr>) \<Longrightarrow>
      \<exists>u. f (s\<lparr>current := t\<rparr>) = Done () u \<and> cli_keeps view U dec (s\<lparr>current := t\<rparr>) u"
  obtains u where "by_thread t f s = Done () u" and "cli_keeps view U dec s u"
proof (cases "t = threadId s")
  case True
  then have "s\<lparr>current := t\<rparr> = s" using loop by (simp add: isLoopThread_def)
  with own [OF True] obtain u where u: "f (s\<lparr>current := t\<rparr>) = Done () u" "cli_keeps view U dec s u" by auto
  then have "u\<lparr>current := current s\<rparr> = u" by (simp add: cli_keeps_def)
  then show ?thesis using u by (intro that [of u]) (simp_all add: by_thread_def)
next
  case False
  then obtain u where u: "f (s\<lparr>current := t\<rparr>) = Done () u" "cli_keeps view U dec (s\<lparr>current := t\<rparr>) u"
    using other by (auto simp: isLoopThread_def)
  then have "cli_keeps view U dec s (u\<lparr>current := current s\<rparr>)" by (simp add: cli_keeps_def)
  then show ?thesis using u by (intro that [of "u\<lparr>current := current s\<rparr>"]) (simp_all add: by_thread_def)
qed


lemma client_start_other:
  assumes "\<not> isLoopThread s"
  obtains t w where "client_start (client_api U errs junk call) s = Done () (s\<lparr>cli_isConnected := True,
      extraEvents := extraEvents s @ [FCall (ConnectorBeforeConnect (cli_ctr s))], tx := t, wire := w\<rparr>)"
proof -
  let ?s = "s\<lparr>cli_isConnected := True\<rparr>"
  have "\<not> isLoopThread ?s" using assms by (simp add: isLoopThread_def)
  then obtain t w where "scheduleToLoopThread call (FCall (ConnectorBeforeConnect (cli_ctr s))) ?s =
      Done () (?s\<lparr>extraEvents := extraEvents ?s @ [FCall (ConnectorBeforeConnect (cli_ctr s))], tx := t, wire := w\<rparr>)"
    by (rule schedule_other)
  then show ?thesis by (intro that [of w t]) (simp add: client_start_def doConnect_def client_api_def)
qed

lemma client_start_keeps:
  assumes h: "cli_hosted ctl view usable U dec s" and errs: "\<And>e. errs e \<noteq> 0"
    and a: "t = threadId s \<Longrightarrow> connect_answer usable junk s"
  obtains u where "by_thread t (client_start (client_api U errs junk (client_call ctl U errs junk (Suc (Suc (Suc n)))))) s = Done () u"
    and "cli_keeps view U dec s u"
proof (rule by_thread_keeps [OF cli_hostedD(4,5) [OF h]])
  let ?start = "client_start (client_api U errs junk (client_call ctl U errs junk (Suc (Suc (Suc n)))))"
  note wf = cli_hostedD(4) [OF h]
  show "\<exists>u. ?start s = Done () u \<and> cli_keeps view U dec s u" if "t = threadId s"
  proof -
    let ?s = "s\<lparr>cli_isConnected := True\<rparr>"
    have k: "cli_keeps view U dec s ?s" using wf by (simp add: cli_keeps_def)
    have r: "client_runnable usable junk (ConnectorBeforeConnect (cli_ctr s)) ?s"
      using a [OF that] by (simp add: client_runnable_def connect_answer_def cong: option.case_cong outcome.case_cong)
    obtain u where "client_call ctl U errs junk (Suc (Suc (Suc n))) (ConnectorBeforeConnect (cli_ctr s)) ?s = Done () u" "cli_keeps view U dec ?s u"
      by (rule client_call_keeps [OF cli_hosted_keeps [OF h k] errs r])
    then show ?thesis
      using cli_keeps_trans [OF k] cli_hostedD(5) [OF h]
      by (auto simp: client_start_def doConnect_def client_api_def scheduleToLoopThread_def run_functor_def)
  qed
  show "\<exists>u. ?start (s\<lparr>current := t\<rparr>) = Done () u \<and> cli_keeps view U dec (s\<lparr>current := t\<rparr>) u" if o: "\<not> isLoopThread (s\<lparr>current := t\<rparr>)"
  proof -
    let ?u = "s\<lparr>current := t\<rparr>"
    obtain tt w where u: "?start ?u = Done () (?u\<lparr>cli_isConnected := True,
        extraEvents := extraEvents ?u @ [FCall (ConnectorBeforeConnect (cli_ctr ?u))], tx := tt, wire := w\<rparr>)"
      using o by (rule client_start_other)
    then show ?thesis using wf by (simp add: cli_keeps_def)
  qed
qed (rule that)

text \<open>\<open>stop\<close> in the loop thread, with a connection that is open, closed already, or missing.\<close>

lemma client_stop_keeps:
  assumes h: "cli_hosted ctl view usable U dec s"
  shows "\<exists>u. client_stop ctl (client_cbs U (client_call ctl U errs junk (Suc m))) (client_call ctl U errs junk (Suc m)) s = Done () u \<and>
    cli_keeps view U dec s u"
proof -
  note wf = cli_hostedD(4) [OF h] and lock = client_wfD(4) [OF cli_hostedD(4) [OF h]]
  let ?stop = "client_stop ctl (client_cbs U (client_call ctl U errs junk (Suc m))) (client_call ctl U errs junk (Suc m))"
  let ?off = "s\<lparr>cli_isConnected := False\<rparr>"
  have off: "cli_keeps view U dec s ?off" using wf by (simp add: cli_keeps_def)
  consider (none) "cli_conn s = None" | (shut) i c where "cli_conn s = Some i" "conns s i = Some c" "\<not> isConnected c"
    | (up) i c where "cli_conn s = Some i" "conns s i = Some c" "isConnected c"
    using client_wfD(2) [OF wf] unfolding cli_wired_def by (cases "cli_conn s") auto
  then show ?thesis
  proof cases
    case none
    then have "?stop s = Done () ?off"
      using lock by (simp add: client_stop_def locked_def with_guard_def mutex_lock_def mutex_unlock_def guard_end_def)
    then show ?thesis using off by blast
  next
    case shut
    then have "?stop s = Done () ?off"
      using lock by (simp add: client_stop_def locked_def with_guard_def mutex_lock_def mutex_unlock_def guard_end_def
          closeConnection_def isConnected_def)
    then show ?thesis using off by blast
  next
    case up
    note f = client_wf_conn [OF wf up(2)]
    then have cb: "connCloseCb c = Some ClientClosed" using up(3) by (auto simp: cli_obj_def isConnected_def closed_def)
    let ?c = "c\<lparr>connStatus := XF_CONN_STATUS_DISCONNECTING\<rparr>"
    obtain k where k: "?stop s = Done () (put_conn i ?c s\<lparr>register := (register s)(conn_fd c := None), kern := k, cli_isConnected := False\<rparr>)"
      "mirror view (s\<lparr>register := (register s)(conn_fd c := None), kern := k\<rparr>)"
      by (rule client_stop_state [OF cli_hostedD(1,6,5) [OF h] up cb lock])
    let ?t = "put_conn i ?c s\<lparr>register := (register s)(conn_fd c := None), kern := k, cli_isConnected := False\<rparr>"
    have "\<not> isConnected ?c" "cli_obj ?c" using f by (simp_all add: isConnected_def)
    then have "cli_wired (put_conn i ?c s\<lparr>register := (register s)(conn_fd c := None)\<rparr>)"
      using cli_wired_close [OF client_wfD(2) [OF wf] up(2,3), of ?c] by simp
    then have "cli_wired ?t" using up(1) by (simp add: cli_wired_def put_conn_def)
    then have "client_wf view U dec ?t" by (intro client_wf_cong [OF wf]) (use k(2) in \<open>simp_all add: mirror_def\<close>)
    then have "cli_keeps view U dec s ?t" using up by (auto simp: cli_keeps_def isConnected_def)
    then show ?thesis using k(1) by blast
  qed
qed

text \<open>\<open>stop\<close> in another thread: only a functor is queued, under the lock.\<close>

lemma client_stop_other:
  assumes wf: "client_wf view U dec s" and other: "\<not> isLoopThread s"
  shows "\<exists>u. client_stop ctl cb call s = Done () u \<and> cli_keeps view U dec s u"
proof -
  note lock = client_wfD(4) [OF wf]
  let ?s = "s\<lparr>cli_isConnected := False, cli_lock := Some (current s)\<rparr>"
  let ?body = "\<lambda>s. case cli_conn s of None \<Rightarrow> Done () s | Some i \<Rightarrow> closeConnection ctl cb call i s"
  have o: "\<not> isLoopThread ?s" using other by (simp add: isLoopThread_def)
  have "\<exists>x t w. ?body ?s = Done () (?s\<lparr>extraEvents := x, tx := t, wire := w\<rparr>)"
  proof (cases "cli_conn s")
    case None
    then show ?thesis by (intro exI [of _ "extraEvents s"] exI [of _ "tx s"] exI [of _ "wire s"]) simp
  next
    case (Some i)
    then obtain c where c: "conns s i = Some c" using client_wfD(2) [OF wf] by (auto simp: cli_wired_def)
    show ?thesis
    proof (cases "isConnected c")
      case True
      obtain t w where "scheduleToLoopThread call (FCall (ConnCloseConn i)) ?s =
          Done () (?s\<lparr>extraEvents := extraEvents ?s @ [FCall (ConnCloseConn i)], tx := t, wire := w\<rparr>)"
        using o by (rule schedule_other)
      then show ?thesis using True Some c o by (auto simp: closeConnection_def isConnected_def)
    next
      case False
      then show ?thesis using Some c
        by (intro exI [of _ "extraEvents s"] exI [of _ "tx s"] exI [of _ "wire s"]) (simp add: closeConnection_def isConnected_def)
    qed
  qed
  then obtain x t w where b: "?body ?s = Done () (?s\<lparr>extraEvents := x, tx := t, wire := w\<rparr>)" by blast
  let ?u = "s\<lparr>cli_isConnected := False, cli_lock := None, extraEvents := x, tx := t, wire := w\<rparr>"
  have "client_stop ctl cb call s = Done () ?u"
    using lock b by (simp add: client_stop_def locked_def with_guard_def mutex_lock_def mutex_unlock_def guard_end_def)
  moreover have "?u = s\<lparr>cli_isConnected := False, extraEvents := x, tx := t, wire := w\<rparr>" using lock by simp
  ultimately show ?thesis using wf by (simp add: cli_keeps_def)
qed

text \<open>Sending, in any thread.\<close>

lemma client_send_keeps:
  assumes h: "cli_hosted ctl view usable U dec s" and c: "conns s i = Some c"
    and room: "t = threadId s \<Longrightarrow> length (content (writeBuff c)) + length bs < 2 ^ 31"
  obtains u where "by_thread t (sendMsg_string ctl (client_cbs U (client_call ctl U errs junk (Suc (Suc n)))) call i bs) s = Done () u"
    and "cli_keeps view U dec s u"
proof (rule by_thread_keeps [OF cli_hostedD(4,5) [OF h]])
  note wf = cli_hostedD(4) [OF h]
  let ?send = "sendMsg_string ctl (client_cbs U (client_call ctl U errs junk (Suc (Suc n)))) call i bs"
  show "\<exists>u. ?send s = Done () u \<and> cli_keeps view U dec s u" if own: "t = threadId s"
  proof (cases "isConnected c")
    case True
    obtain u where "sendMsgToBuffer ctl (client_cbs U (client_call ctl U errs junk (Suc (Suc n)))) i bs s = Done () u" "cli_keeps view U dec s u"
      using cli.sendMsgToBuffer_keeps [OF h c room [OF own]] by metis
    then show ?thesis using True c cli_hostedD(5) [OF h] by (intro exI [of _ u]) (simp add: sendMsg_string_def isConnected_def)
  next
    case False
    then show ?thesis using c cli_keeps_refl [OF wf] by (intro exI [of _ s]) (simp add: sendMsg_string_def isConnected_def)
  qed
  show "\<exists>u. ?send (s\<lparr>current := t\<rparr>) = Done () u \<and> cli_keeps view U dec (s\<lparr>current := t\<rparr>) u" if o: "\<not> isLoopThread (s\<lparr>current := t\<rparr>)"
  proof (cases "isConnected c")
    case True
    obtain tt w where "scheduleToLoopThread call (FCall (ConnSendMsgToBuffer i bs)) (s\<lparr>current := t\<rparr>) =
        Done () (s\<lparr>current := t\<rparr>\<lparr>extraEvents := extraEvents (s\<lparr>current := t\<rparr>) @ [FCall (ConnSendMsgToBuffer i bs)], tx := tt, wire := w\<rparr>)"
      using o by (rule schedule_other)
    then show ?thesis using True c o wf by (simp add: sendMsg_string_def isConnected_def cli_keeps_def)
  next
    case False
    then show ?thesis using c wf by (simp add: sendMsg_string_def isConnected_def cli_keeps_def)
  qed
qed (rule that)

section \<open>Steps\<close>

text \<open>
  What can happen: an event fires on a descriptor, and the loop dispatches it; the loop runs a
  closure, or a whole round; thread \<open>t\<close> starts or stops the client or sends on a connection; the kernel has
  new data to read, new answers to writes and to socket calls, and the clock goes on. The address in an event and in a round is
  the one that the allocator gives to a timer.
\<close>

datatype cli_input =
    CFires ptr int int32 int
  | CRuns closure
  | CRound ptr
  | CStart nat
  | CStop nat
  | CSend nat nat "byte list"
  | CKernel "int \<Rightarrow> rd_res list" "int \<Rightarrow> wr_res list" "(int \<times> errno \<times> byte list) list" "int list"

fun client_step ::
    "'k epoll_ctl \<Rightarrow> ('k, 'z) client_state_scheme client_fns \<Rightarrow> (errno \<Rightarrow> int) \<Rightarrow> xIpAddr \<Rightarrow> nat \<Rightarrow> cli_input \<Rightarrow>
     ('k, 'z) client_state_scheme \<Rightarrow> (unit, ('k, 'z) client_state_scheme) outcome" where
  "client_step ctl U errs junk n (CFires p fd m d) s =
     dispatch_front (client_on_event ctl U errs junk n p) (s\<lparr>fired := \<lparr>efd = fd, emask = m, edata = d\<rparr> # fired s\<rparr>)"
| "client_step ctl U errs junk n (CRuns f) s = client_call ctl U errs junk n f s"
| "client_step ctl U errs junk n (CRound p) s = process (client_on_event ctl U errs junk n p) (client_call ctl U errs junk n) n s"
| "client_step ctl U errs junk n (CStart t) s = by_thread t (client_start (client_api U errs junk (client_call ctl U errs junk n))) s"
| "client_step ctl U errs junk n (CStop t) s =
     by_thread t (client_stop ctl (client_cbs U (client_call ctl U errs junk n)) (client_call ctl U errs junk n)) s"
| "client_step ctl U errs junk n (CSend t i bs) s =
     by_thread t (sendMsg_string ctl (client_cbs U (client_call ctl U errs junk n)) (client_call ctl U errs junk n) i bs) s"
| "client_step ctl U errs junk n (CKernel r w rs ts) s = Done () (s\<lparr>rx := r, tx := w, cenv := (cenv s)\<lparr>replies := rs\<rparr>, clock := ts\<rparr>)"

fun client_admissible ::
    "'k epoll_ctl \<Rightarrow> ('k, 'z) client_state_scheme client_fns \<Rightarrow> (errno \<Rightarrow> int) \<Rightarrow> xIpAddr \<Rightarrow> (int \<Rightarrow> bool) \<Rightarrow> nat \<Rightarrow> cli_input \<Rightarrow>
     ('k, 'z) client_state_scheme \<Rightarrow> bool" where
  "client_admissible ctl U errs junk usable n (CFires p fd m d) s \<longleftrightarrow>
     client_event_ok usable errs junk n p \<lparr>efd = fd, emask = m, edata = d\<rparr> (s\<lparr>fired := \<lparr>efd = fd, emask = m, edata = d\<rparr> # fired s\<rparr>)"
| "client_admissible ctl U errs junk usable n (CRuns f) s \<longleftrightarrow> client_runnable usable junk f s"
| "client_admissible ctl U errs junk usable n (CRound p) s \<longleftrightarrow>
     round_ok (client_on_event ctl U errs junk n p) (client_call ctl U errs junk n) (client_event_ok usable errs junk n p)
       (client_functor_ok usable junk) (timers_ready ctl U errs junk usable n) s"
| "client_admissible ctl U errs junk usable n (CStart t) s \<longleftrightarrow> (t = threadId s \<longrightarrow> connect_answer usable junk s)"
| "client_admissible ctl U errs junk usable n (CStop t) s \<longleftrightarrow> True"
| "client_admissible ctl U errs junk usable n (CSend t i bs) s \<longleftrightarrow>
     (case conns s i of None \<Rightarrow> False | Some c \<Rightarrow> t = threadId s \<longrightarrow> length (content (writeBuff c)) + length bs < 2 ^ 31)"
| "client_admissible ctl U errs junk usable n (CKernel r w rs ts) s \<longleftrightarrow> True"

lemma client_fires_keeps:
  assumes run: "cli_running ctl view usable U dec errs s"
    and adm: "client_admissible ctl U errs junk usable (Suc (Suc (Suc n))) (CFires p fd m d) s"
  shows "\<exists>u. client_step ctl U errs junk (Suc (Suc (Suc n))) (CFires p fd m d) s = Done () u \<and> cli_running ctl view usable U dec errs u"
proof -
  let ?xe = "\<lparr>efd = fd, emask = m, edata = d\<rparr>"
  let ?u = "s\<lparr>fired := ?xe # fired s\<rparr>"
  have "cli_running ctl view usable U dec errs ?u" "fired ?u = ?xe # fired s" using run by (simp_all add: cli_running_def)
  moreover have "client_event_ok usable errs junk (Suc (Suc (Suc n))) p ?xe ?u" using adm by simp
  ultimately obtain u where "dispatch_front (client_on_event ctl U errs junk (Suc (Suc (Suc n))) p) ?u = Done () u"
    "cli_running ctl view usable U dec errs u"
    by (rule cli_loop.dispatch_front_keeps)
  then show ?thesis by (intro exI [of _ u]) simp
qed

lemma client_stop_thread_keeps:
  assumes h: "cli_hosted ctl view usable U dec s"
  obtains u where "by_thread t (client_stop ctl (client_cbs U (client_call ctl U errs junk (Suc m))) (client_call ctl U errs junk (Suc m))) s = Done () u"
    and "cli_keeps view U dec s u"
proof -
  let ?stop = "client_stop ctl (client_cbs U (client_call ctl U errs junk (Suc m))) (client_call ctl U errs junk (Suc m))"
  note wf = cli_hostedD(4) [OF h]
  have "client_wf view U dec (s\<lparr>current := t\<rparr>)" using wf by simp
  then have other: "\<exists>u. ?stop (s\<lparr>current := t\<rparr>) = Done () u \<and> cli_keeps view U dec (s\<lparr>current := t\<rparr>) u" if "\<not> isLoopThread (s\<lparr>current := t\<rparr>)"
    using client_stop_other that by blast
  obtain u where "by_thread t ?stop s = Done () u" "cli_keeps view U dec s u"
    by (rule by_thread_keeps [OF wf cli_hostedD(5) [OF h] client_stop_keeps [OF h] other])
  then show ?thesis by (rule that)
qed

lemma client_step_keeps:
  assumes run: "cli_running ctl view usable U dec errs s" and n: "3 \<le> n" and adm: "client_admissible ctl U errs junk usable n inp s"
  obtains u where "client_step ctl U errs junk n inp s = Done () u" and "cli_running ctl view usable U dec errs u"
proof -
  obtain m where m: "n = Suc (Suc (Suc m))" using n by (metis Suc_le_D numeral_3_eq_3 Suc_le_mono)
  have h: "cli_hosted ctl view usable U dec s" and e: "\<And>x. errs x \<noteq> 0" using run by (simp_all add: cli_running_def)
  note wf = cli_hostedD(4) [OF h] and loop = cli_hostedD(5) [OF h]
  note ret = that
  have keep: thesis if "client_step ctl U errs junk n inp s = Done () u" "cli_keeps view U dec s u" for u
    using ret [OF that(1)] cli_hosted_keeps [OF h that(2)] e by (simp add: cli_running_def)
  show ?thesis
  proof (cases inp)
    case (CFires p fd k d)
    then show ?thesis using client_fires_keeps [OF run, where n = m, folded m] adm that by blast
  next
    case (CRuns f)
    then have "client_runnable usable junk f s" using adm by simp
    then obtain u where "client_call ctl U errs junk n f s = Done () u" "cli_keeps view U dec s u"
      by (rule client_call_keeps [OF h e, where n = m, folded m])
    then show ?thesis using CRuns by (intro keep [of u]) simp_all
  next
    case (CRound p)
    then have "round_ok (client_on_event ctl U errs junk n p) (client_call ctl U errs junk n) (client_event_ok usable errs junk n p)
        (client_functor_ok usable junk) (timers_ready ctl U errs junk usable n) s"
      using adm by simp
    then obtain u where "process (client_on_event ctl U errs junk n p) (client_call ctl U errs junk n) n s = Done () u"
      "cli_running ctl view usable U dec errs u"
      by (rule cli_loop.round_keeps [OF run, where n = m, folded m])
    then show ?thesis using CRound by (intro that [of u]) simp_all
  next
    case (CStart t)
    then have "t = threadId s \<Longrightarrow> connect_answer usable junk s" using adm by simp
    then obtain u where "by_thread t (client_start (client_api U errs junk (client_call ctl U errs junk n))) s = Done () u" "cli_keeps view U dec s u"
      by (rule client_start_keeps [OF h e, where n = m, folded m])
    then show ?thesis using CStart by (intro keep [of u]) simp_all
  next
    case (CStop t)
    obtain u where "by_thread t (client_stop ctl (client_cbs U (client_call ctl U errs junk n)) (client_call ctl U errs junk n)) s = Done () u"
      "cli_keeps view U dec s u"
      by (rule client_stop_thread_keeps [OF h, where m = "Suc (Suc m)", folded m])
    then show ?thesis using CStop by (intro keep [of u]) simp_all
  next
    case (CSend t i bs)
    then obtain c where c: "conns s i = Some c" "t = threadId s \<Longrightarrow> length (content (writeBuff c)) + length bs < 2 ^ 31"
      using adm by (auto split: option.splits)
    obtain u where "by_thread t (sendMsg_string ctl (client_cbs U (client_call ctl U errs junk n)) (client_call ctl U errs junk n) i bs) s = Done () u"
      "cli_keeps view U dec s u"
      by (rule client_send_keeps [OF h c, where n = "Suc m", folded m])
    then show ?thesis using CSend by (intro keep [of u]) simp_all
  next
    case (CKernel r w rs ts)
    have "cli_keeps view U dec s (s\<lparr>rx := r, tx := w, cenv := (cenv s)\<lparr>replies := rs\<rparr>, clock := ts\<rparr>)" using wf by (simp add: cli_keeps_def)
    then show ?thesis using CKernel by (intro keep) simp_all
  qed
qed

text \<open>
  \<open>client_moves\<close> is the step relation, \<open>client_next\<close> the state that an input leads to.
\<close>

definition client_next ::
    "'k epoll_ctl \<Rightarrow> ('k, 'z) client_state_scheme client_fns \<Rightarrow> (errno \<Rightarrow> int) \<Rightarrow> xIpAddr \<Rightarrow> nat \<Rightarrow> cli_input \<Rightarrow>
     ('k, 'z) client_state_scheme \<Rightarrow> ('k, 'z) client_state_scheme option" where
  "client_next ctl U errs junk n inp s = (case client_step ctl U errs junk n inp s of Done _ t \<Rightarrow> Some t | _ \<Rightarrow> None)"

lemma client_next_Some: "client_next ctl U errs junk n inp s = Some t \<longleftrightarrow> client_step ctl U errs junk n inp s = Done () t"
  by (simp add: client_next_def split: outcome.split)

definition client_moves ::
    "'k epoll_ctl \<Rightarrow> ('k, 'z) client_state_scheme client_fns \<Rightarrow> (errno \<Rightarrow> int) \<Rightarrow> xIpAddr \<Rightarrow> nat \<Rightarrow> (int \<Rightarrow> bool) \<Rightarrow>
     ('k, 'z) client_state_scheme \<Rightarrow> ('k, 'z) client_state_scheme \<Rightarrow> bool" where
  "client_moves ctl U errs junk n usable s t \<longleftrightarrow>
     (\<exists>inp. client_admissible ctl U errs junk usable n inp s \<and> client_step ctl U errs junk n inp s = Done () t)"

definition client_set ::
    "'k epoll_ctl \<Rightarrow> ('k \<Rightarrow> int \<Rightarrow> int32 option) \<Rightarrow> (int \<Rightarrow> bool) \<Rightarrow> ('k, 'z) client_state_scheme client_fns \<Rightarrow>
     (byte list \<Rightarrow> int) \<Rightarrow> (errno \<Rightarrow> int) \<Rightarrow> nat \<Rightarrow> ('k, 'z) client_state_scheme \<Rightarrow> bool" where
  "client_set ctl view usable U dec errs n s0 \<longleftrightarrow> cli_running ctl view usable U dec errs s0 \<and> 3 \<le> n"

text \<open>A running client keeps its invariant and makes progress on every admissible input.\<close>

interpretation running_client: live_invariant s0 "client_moves ctl U errs junk n usable"
    "\<lambda>s. client_set ctl view usable U dec errs n s0 \<longrightarrow> cli_running ctl view usable U dec errs s"
    "client_next ctl U errs junk n"
    "\<lambda>inp s. client_set ctl view usable U dec errs n s0 \<and> client_admissible ctl U errs junk usable n inp s"
  for ctl :: "'k epoll_ctl" and view and U :: "('k, 'z) client_state_scheme client_fns" and dec errs n junk usable s0
proof -
  have keep: "\<exists>t. client_step ctl U errs junk n inp s = Done () t \<and> cli_running ctl view usable U dec errs t"
    if "client_set ctl view usable U dec errs n s0" "cli_running ctl view usable U dec errs s" "client_admissible ctl U errs junk usable n inp s" for inp s
    using client_step_keeps [OF that(2) _ that(3)] that(1) unfolding client_set_def by metis
  show "live_invariant s0 (client_moves ctl U errs junk n usable)
    (\<lambda>s. client_set ctl view usable U dec errs n s0 \<longrightarrow> cli_running ctl view usable U dec errs s)
    (client_next ctl U errs junk n) (\<lambda>inp s. client_set ctl view usable U dec errs n s0 \<and> client_admissible ctl U errs junk usable n inp s)"
  proof unfold_locales
    fix s t
    assume "client_set ctl view usable U dec errs n s0 \<longrightarrow> cli_running ctl view usable U dec errs s"
      and "client_moves ctl U errs junk n usable s t"
    then show "client_set ctl view usable U dec errs n s0 \<longrightarrow> cli_running ctl view usable U dec errs t"
      unfolding client_moves_def using keep by (metis outcome.inject(1))
  qed (use keep in \<open>auto simp: client_set_def client_moves_def client_next_Some\<close>)
qed

section \<open>The property\<close>


text \<open>The client of the witnesses.\<close>

lemma client_wf_more: "client_wf view U dec (client_state.more_update g t) = client_wf view U dec t"
  by (simp add: client_wf_def cli_wired_def mirror_def retry_timers_def tlive_def tq_ordered_def)

lemma cfns0_keeps: "client_user_keeps view cfns0 dec"
proof -
  have k: "cli_keeps view cfns0 dec t (client_state.more_update g t)" if "client_wf view cfns0 dec t" for t g
    using that by (simp add: cli_keeps_def client_wf_more)
  show ?thesis
    unfolding client_user_keeps_def cli_ends_def using k cli_keeps_refl [of view cfns0 dec] by (auto simp: cfns0_def)
qed

lemma cli0_wf: "client_wf (\<lambda>m. m) cfns0 (\<lambda>bs. int (length bs)) cli0"
proof -
  have "cli_wired cli0"
    by (auto simp: cli_wired_def cli_conns_def cli_regs_def cli0_def cconn_def cli_obj_def isConnected_def sized_def bwf_def
        vec_max_def content_def)
  then show ?thesis
    using cli0_ok(1) by (simp add: client_wf_def client_decodes_def retry_timers_def) (simp add: cli0_def tlive_def tq_ordered_def)
qed

text \<open>A round of the loop in which an attempt fails at once, as the kernel gives no socket.\<close>

lemma no_socket: "connect_answer usable [] (cli0\<lparr>extraEvents := x\<rparr>)"
  by (simp add: connect_answer_def) (simp add: cli0_def connectNonblock_def tcpConnect_def createSocket_def sys_def sock_consts)

lemma failing_round:
  "client_admissible map_ctl cfns0 (\<lambda>_. 1) [] (\<lambda>_. True) 100 (CRound 21) (cli0\<lparr>extraEvents := [FCall (ConnectorBeforeConnect 0)]\<rparr>)"
proof -
  let ?s = "cli0\<lparr>extraEvents := [FCall (ConnectorBeforeConnect 0)]\<rparr>" and ?call = "client_call map_ctl cfns0 (\<lambda>_. 1) [] 100"
  have w: "poller_Wait ?s (fired ?s) = (0, [], ?s)" by (simp add: poller_Wait_def Let_def) (simp add: cli0_def)
  have "cli_hosted map_ctl (\<lambda>m. m) (\<lambda>_. True) cfns0 (\<lambda>bs. int (length bs)) ?s"
    using map_ctl_spec cfns0_keeps cli0_wf cli0_ok(2) by (simp add: cli_hosted_def proper_decoder_def isLoopThread_def)
  moreover have r: "client_runnable (\<lambda>_. True) [] (ConnectorBeforeConnect 0) ?s"
    using no_socket by (simp add: client_runnable_def)
  ultimately obtain t where t: "?call (ConnectorBeforeConnect 0) ?s = Done () t"
      "cli_keeps (\<lambda>m. m) cfns0 (\<lambda>bs. int (length bs)) ?s t"
    using client_call_keeps [of map_ctl "\<lambda>m. m" "\<lambda>_. True" cfns0 _ ?s "\<lambda>_. 1" "[]" "ConnectorBeforeConnect 0" 97] by auto
  have "timers t = []" using cli_keepsD(5) [OF t(2)] by simp
  moreover have "?s\<lparr>fired := []\<rparr> = ?s" by (simp add: cli0_def)
  ultimately show ?thesis
    using w r t(1) by (simp add: round_ok_def Let_def client_functor_ok_def run_functor_def timers_ready_def TNOWMS_def split: list.split)
qed


end
