(* ===== verification/Client_Start.thy ===== *)
theory Client_Start
  imports Client_Safety
begin

text \<open>
  How a client comes to life: the loop is made, then the client, its connector and the callbacks of
  the user. The result is the state that \<open>Client_Safety\<close> starts from.
\<close>

definition client_birth ::
    "'k epoll_ctl \<Rightarrow> int \<Rightarrow> int \<Rightarrow> nat \<Rightarrow> xIpAddr \<Rightarrow> nat option \<Rightarrow> nat option \<Rightarrow> nat option \<Rightarrow> nat option \<Rightarrow> nat option \<Rightarrow>
     ('k, 'z) client_state_scheme \<Rightarrow> (unit, ('k, 'z) client_state_scheme) outcome" where
  "client_birth ctl evtfd epfd j addr mdcb fcb ccb sbcb mccb s =
     bindS (xLoop_new ctl evtfd epfd s) (\<lambda>_ s.
       Done () (cli_setMsgDecodeCallBack mdcb (cli_setConnectionFinishedCallBack fcb (cli_setConnectionClosedCallBack ccb
         (cli_setSentBytesCallBack sbcb (cli_setMsgCommitCallBack mccb (xClient_new j addr s)))))))"

lemma client_birth_ok:
  assumes ctl: "epoll_ctl_spec ctl view usable" and k: "view (kern s) = Map.empty" and fds: "usable evtfd" "0 \<le> evtfd" "0 < epfd"
    and none: "conns s = Map.empty" and dec: "client_decodes U mdcb dec"
  obtains t where "client_birth ctl evtfd epfd j addr mdcb fcb ccb sbcb mccb s = Done () t" and "client_wf view U dec t"
    and "isLoopThread t" and "cli_conn t = None" and "conns t = Map.empty" and "timers t = []" and "extraEvents t = []" and "cli_ctr t = j" and "threadId t = current s"
    and "cli_finishedCb t = fcb" and "view (kern t) = [evtfd \<mapsto> EPOLLIN]"
proof -
  let ?r = "[evtfd \<mapsto> \<lparr>es_mask = XE_READABLE, es_data = 0, es_callback = LoopWakeUp\<rparr>]"
  obtain k1 p where L: "xLoop_new ctl evtfd epfd s = Done () (s\<lparr>stop := False, wakeupFd := evtfd, threadId := current s, timers := [],
      register := ?r, fired := [], extraEvents := [], poller := p, kern := k1\<rparr>)" (is "_ = Done () ?l") "view k1 = [evtfd \<mapsto> events_of_mask XE_READABLE]"
    using xLoop_new_ok [OF ctl k fds] by metis
  let ?t = "cli_setMsgDecodeCallBack mdcb (cli_setConnectionFinishedCallBack fcb (cli_setConnectionClosedCallBack ccb
      (cli_setSentBytesCallBack sbcb (cli_setMsgCommitCallBack mccb (xClient_new j addr ?l)))))"
  obtain now u cl where u: "TNOWMS (?l\<lparr>cli_isConnected := False, cli_addr := addr, cli_ctr := j, cli_lock := xMutex_new, cli_conn := None,
      cli_finishedCb := None, cli_sentBytesCb := None, cli_msgDecodeCb := None, cli_msgCommitCb := None, cli_closeCb := None\<rparr>) = (now,
      ?l\<lparr>cli_isConnected := False, cli_addr := addr, cli_ctr := j, cli_lock := xMutex_new, cli_conn := None,
      cli_finishedCb := None, cli_sentBytesCb := None, cli_msgDecodeCb := None, cli_msgCommitCb := None, cli_closeCb := None, clock := cl, last_now := u\<rparr>)"
    by (rule that [of "fst (TNOWMS ?l)" "last_now (snd (TNOWMS ?l))" "clock (snd (TNOWMS ?l))"]) (simp add: TNOWMS_def split: list.split)
  note d = cli_setMsgDecodeCallBack_def cli_setConnectionFinishedCallBack_def cli_setConnectionClosedCallBack_def
    cli_setSentBytesCallBack_def cli_setMsgCommitCallBack_def xClient_new_def xConnector_new_def
  have f: "register ?t = ?r" "kern ?t = k1" "conns ?t = Map.empty" "timers ?t = []" "extraEvents ?t = []" "cli_conn ?t = None" "cli_lock ?t = None"
    "cli_msgDecodeCb ?t = mdcb" "wakeupFd ?t = evtfd" "threadId ?t = current s" "current ?t = current s" "cli_ctr ?t = j"
    "map_option ctr_finishedCb (ctrs ?t j) = Some (Some ClientConnected)" "cli_finishedCb ?t = fcb"
    using none by (simp_all only: d u) (simp_all add: put_ctr_def xMutex_new_def)
  have "mirror view ?t" "cli_wired ?t" "retry_timers j ?t"
    unfolding mirror_def cli_wired_def cli_conns_def cli_regs_def retry_timers_def tlive_def tq_ordered_def f using L(2) by auto
  then have "client_wf view U dec ?t" using dec by (simp add: client_wf_def f)
  moreover have "client_birth ctl evtfd epfd j addr mdcb fcb ccb sbcb mccb s = Done () ?t"
    by (simp add: client_birth_def L(1))
  moreover have "isLoopThread ?t" unfolding isLoopThread_def f ..
  moreover have "view (kern ?t) = [evtfd \<mapsto> EPOLLIN]"
    unfolding f using L(2) by (simp add: events_of_mask_def has_def mask_defs)
  ultimately show ?thesis using f by (intro that [of ?t]) simp_all
qed

text \<open>
  C4. The start of a client. The loop is made on a kernel without registrations, the client with the
  callbacks of the user: it is well-formed, without a connection or a timer, and only the wake-up
  descriptor is registered. Then \<^verbatim>\<open>start\<close>, called in any thread, ends normally and leaves it
  well-formed, whether the kernel grants the first attempt, which then waits, or refuses it, which is
  reported to the user.
\<close>

theorem client_starts_well_formed:
  assumes "epoll_ctl_spec ctl view usable" and "view (kern s) = Map.empty" and "usable evtfd" and "0 \<le> evtfd" and "0 < epfd"
    and "conns s = Map.empty" and "client_decodes U mdcb dec"
    and "client_user_keeps view U dec" and "proper_decoder dec" and "\<forall>e. errs e \<noteq> 0" and "3 \<le> n"
  shows "\<exists>s'. client_birth ctl evtfd epfd j addr mdcb fcb ccb sbcb mccb s = Done () s' \<and>
    client_wf view U dec s' \<and> isLoopThread s' \<and> cli_conn s' = None \<and> conns s' = Map.empty \<and> timers s' = [] \<and>
    view (kern s') = [evtfd \<mapsto> EPOLLIN] \<and>
    (\<forall>t. client_admissible ctl U errs junk usable n (CStart t) s' \<longrightarrow>
       (\<exists>s''. client_step ctl U errs junk n (CStart t) s' = Done () s'' \<and> client_wf view U dec s'' \<and>
          (t \<noteq> threadId s' \<longrightarrow> extraEvents s'' = [FCall (ConnectorBeforeConnect j)] \<and> register s'' = register s')))"
proof -
  obtain u where u: "client_birth ctl evtfd epfd j addr mdcb fcb ccb sbcb mccb s = Done () u" "client_wf view U dec u" "isLoopThread u"
    "cli_conn u = None" "conns u = Map.empty" "timers u = []" "extraEvents u = []" "cli_ctr u = j" "view (kern u) = [evtfd \<mapsto> EPOLLIN]"
    by (rule client_birth_ok [OF assms(1-7)])
  have run: "cli_running ctl view usable U dec errs u" using assms(1,8-10) u(2,3) by (simp add: cli_running_def cli_hosted_def)
  have "\<exists>v. client_step ctl U errs junk n (CStart t) u = Done () v \<and> client_wf view U dec v \<and>
      (t \<noteq> threadId u \<longrightarrow> extraEvents v = [FCall (ConnectorBeforeConnect j)] \<and> register v = register u)"
    if a: "client_admissible ctl U errs junk usable n (CStart t) u" for t
  proof -
    obtain v where v: "client_step ctl U errs junk n (CStart t) u = Done () v" "cli_running ctl view usable U dec errs v"
      by (rule client_step_keeps [OF run assms(11) a])
    have "extraEvents v = [FCall (ConnectorBeforeConnect j)] \<and> register v = register u" if "t \<noteq> threadId u"
    proof -
      have "\<not> isLoopThread (u\<lparr>current := t\<rparr>)" using that by (simp add: isLoopThread_def)
      then obtain tt w where "client_start (client_api U errs junk (client_call ctl U errs junk n)) (u\<lparr>current := t\<rparr>) =
          Done () (u\<lparr>current := t, cli_isConnected := True, extraEvents := extraEvents (u\<lparr>current := t\<rparr>) @
            [FCall (ConnectorBeforeConnect (cli_ctr (u\<lparr>current := t\<rparr>)))], tx := tt, wire := w\<rparr>)"
        by (rule client_start_other)
      then show ?thesis using v(1) u(7,8) by (auto simp: by_thread_def)
    qed
    then show ?thesis using v by (auto simp: cli_running_def cli_hosted_def)
  qed
  then show ?thesis using u by blast
qed

text \<open>A client made on a kernel that refuses the first socket.\<close>

lemma client_starts_well_formed_witness:
  "\<exists>s' s''. client_birth map_ctl 3 4 0 (replicate 28 0) None (Some 3) None None None (cli0\<lparr>kern := Map.empty, conns := Map.empty\<rparr>) = Done () s' \<and>
    client_wf (\<lambda>m. m) cfns0 (\<lambda>bs. int (length bs)) s' \<and>
    client_step map_ctl cfns0 (\<lambda>_. 1) [] 3 (CStart (Suc (threadId s'))) s' = Done () s'' \<and>
    extraEvents s'' = [FCall (ConnectorBeforeConnect 0)]"
proof -
  let ?s = "cli0\<lparr>kern := Map.empty, conns := Map.empty\<rparr>"
  have p: "proper_decoder (\<lambda>bs. int (length bs))" "\<forall>e. (\<lambda>_. 1 :: int) (e :: errno) \<noteq> 0" "3 \<le> (3 :: nat)"
    "client_decodes cfns0 None (\<lambda>bs. int (length bs))"
    by (simp_all add: proper_decoder_def client_decodes_def)
  have s: "kern ?s = Map.empty" "(\<lambda>_ :: int. True) 3" "0 \<le> (3 :: int)" "0 < (4 :: int)" "conns ?s = Map.empty" by simp_all
  obtain s' where s': "client_birth map_ctl 3 4 0 (replicate 28 0) None (Some 3) None None None ?s = Done () s'"
    "client_wf (\<lambda>m. m) cfns0 (\<lambda>bs. int (length bs)) s'"
    "\<forall>t. client_admissible map_ctl cfns0 (\<lambda>_. 1) [] (\<lambda>_. True) 3 (CStart t) s' \<longrightarrow>
       (\<exists>s''. client_step map_ctl cfns0 (\<lambda>_. 1) [] 3 (CStart t) s' = Done () s'' \<and> client_wf (\<lambda>m. m) cfns0 (\<lambda>bs. int (length bs)) s'' \<and>
          (t \<noteq> threadId s' \<longrightarrow> extraEvents s'' = [FCall (ConnectorBeforeConnect 0)] \<and> register s'' = register s'))"
    using client_starts_well_formed [OF map_ctl_spec s p(4) cfns0_keeps p(1-3), of 0 "replicate 28 0" "Some 3" None None None "[]"] by metis
  have "client_admissible map_ctl cfns0 (\<lambda>_. 1) [] (\<lambda>_. True) 3 (CStart (Suc (threadId s'))) s'" by simp
  with s' show ?thesis by (metis n_not_Suc_n)
qed

end
