(* ===== verification/Clock.thy ===== *)
theory Clock
  imports Sync
begin

text \<open>
  \<^verbatim>\<open>base/include/time_helper.h\<close> and \<^verbatim>\<open>base/time_helper.cpp\<close>: the cached clock. A
  thread refreshes one of two slots with the system time and the time stamp counter of the
  processor, then publishes it; a reader adds the cycles since then to the published slot.

  The system time and the counter are inputs. The arithmetic of \<^verbatim>\<open>float\<close> is an argument, a
  record of the four operations that the code uses.
\<close>

section \<open>State\<close>

type_synonym timeval = "int \<times> int"

record 'f flt =
  f_zero :: 'f
  f_nonzero :: "'f \<Rightarrow> bool"
  f_cycle :: "int \<Rightarrow> 64 word \<Rightarrow> 'f"
  f_offset :: "int \<Rightarrow> 'f \<Rightarrow> int"
  f_inverse :: "'f \<Rightarrow> 'f"

text \<open>\<open>buf_idx\<close> is 0 or 1: \<open>other\<close> is the \<^verbatim>\<open>!\<close> of the code.\<close>

record 'f xTimeHelper =
  th_terminate :: bool
  use_tsc :: bool
  cpu_cycle :: 'f
  buf_idx :: nat
  slot_t :: "timeval list"
  slot_tsc :: "64 word list"
  th_mutex :: xMutex
  th_thread :: xThread

definition other :: "nat \<Rightarrow> nat" where
  "other i = (if i = 0 then 1 else 0)"

definition xTimeHelper_new :: "'f flt \<Rightarrow> timeval \<Rightarrow> 'f xTimeHelper" where
  "xTimeHelper_new F tv =
     \<lparr>th_terminate = False, use_tsc = True, cpu_cycle = f_zero F, buf_idx = 0, slot_t = [tv, tv],
      slot_tsc = [0, 0], th_mutex = xMutex_new, th_thread = xThread_new\<rparr>"

section \<open>The thread\<close>

text \<open>\<^verbatim>\<open>rdtsc\<close> gives two halves.\<close>

definition join_tsc :: "32 word \<Rightarrow> 32 word \<Rightarrow> 64 word" where
  "join_tsc low high = or (push_bit 32 (ucast high)) (ucast low)"

definition setTsc :: "'f flt \<Rightarrow> 32 word \<times> 32 word \<Rightarrow> timeval \<Rightarrow> 'f xTimeHelper \<Rightarrow> 'f xTimeHelper" where
  "setTsc F rd tt h =
     (let current_tsc = join_tsc (fst rd) (snd rd); i = buf_idx h; last_tt = slot_t h ! i in
      if slot_tsc h ! i = 0 \<or> slot_tsc h ! other i = 0
      then h\<lparr>cpu_cycle := f_zero F, slot_tsc := (slot_tsc h)[other i := current_tsc]\<rparr>
      else
        let sptime = (fst tt - fst last_tt) * 1000 * 1000 + (snd tt - snd last_tt)
        in h\<lparr>cpu_cycle := f_cycle F sptime (current_tsc - slot_tsc h ! i),
             slot_tsc := (slot_tsc h)[other i := current_tsc]\<rparr>)"

text \<open>One turn of the loop, without its wait.\<close>

definition refresh :: "'f flt \<Rightarrow> timeval \<Rightarrow> 32 word \<times> 32 word \<Rightarrow> 'f xTimeHelper \<Rightarrow> 'f xTimeHelper" where
  "refresh F now rd h =
     (let h = h\<lparr>slot_t := (slot_t h)[other (buf_idx h) := now]\<rparr>;
          h = setTsc F rd (slot_t h ! other (buf_idx h)) h
      in h\<lparr>buf_idx := other (buf_idx h)\<rparr>)"

text \<open>
  \<open>run\<close> as thread \<open>t\<close>. Each turn takes from its list of inputs whether another thread has
  asked for the end meanwhile, the time, the counter, and what the wait returns; the list is the
  fuel.
\<close>

record turn =
  asked_to_end :: bool
  tn_now :: timeval
  tn_rdtsc :: "32 word \<times> 32 word"
  tn_wait :: int

fun clock_run :: "'f flt \<Rightarrow> nat \<Rightarrow> turn list \<Rightarrow> 'f xTimeHelper \<Rightarrow> (unit, 'f xTimeHelper) outcome" where
  "clock_run F t [] h = Diverge"
| "clock_run F t (u # us) h =
     (let h = h\<lparr>th_terminate := th_terminate h \<or> asked_to_end u\<rparr> in
      if th_terminate h then Done () h
      else
        bindS (with_guard t th_mutex (\<lambda>m h. h\<lparr>th_mutex := m\<rparr>) (timedWait (tn_wait u)) (refresh F (tn_now u) (tn_rdtsc u) h))
          (\<lambda>_. clock_run F t us))"

definition clock_start :: "'f xTimeHelper \<Rightarrow> (unit, 'f xTimeHelper) outcome" where
  "clock_start h =
     (case thread_start (th_thread h) of
        Done x th \<Rightarrow> Done x (h\<lparr>th_thread := th\<rparr>) | Raise e th \<Rightarrow> Raise e (h\<lparr>th_thread := th\<rparr>)
      | Crash c \<Rightarrow> Crash c | Diverge \<Rightarrow> Diverge)"

definition clock_join :: "'f xTimeHelper \<Rightarrow> (unit, 'f xTimeHelper) outcome" where
  "clock_join h =
     (case thread_join (th_thread h) of
        Done x th \<Rightarrow> Done x (h\<lparr>th_thread := th\<rparr>) | Raise e th \<Rightarrow> Raise e (h\<lparr>th_thread := th\<rparr>)
      | Crash c \<Rightarrow> Crash c | Diverge \<Rightarrow> Diverge)"

text \<open>\<open>rc\<close> is what signalling the condition returns; an exception ends the process in a destructor.\<close>

definition clock_destroy :: "nat \<Rightarrow> int \<Rightarrow> 'f xTimeHelper \<Rightarrow> (unit, 'f xTimeHelper) outcome" where
  "clock_destroy t rc h =
     catchS
       (bindS (with_guard t th_mutex (\<lambda>m h. h\<lparr>th_mutex := m\<rparr>) (cond_signal rc) (h\<lparr>th_terminate := True\<rparr>))
         (\<lambda>_. clock_join))
       (\<lambda>e h. Crash Exited)"

text \<open>
  The one instance, behind its own lock: the state is the lock and the pointer. The pointer is
  read without the lock first.
\<close>

record 'f clock_globals =
  g_tm :: xMutex
  g_th :: "'f xTimeHelper option"

definition getInstance :: "'f flt \<Rightarrow> nat \<Rightarrow> timeval \<Rightarrow> 'f clock_globals \<Rightarrow> (unit, 'f clock_globals) outcome" where
  "getInstance F t now g =
     (if g_th g = None
      then with_guard t g_tm (\<lambda>m g. g\<lparr>g_tm := m\<rparr>)
             (\<lambda>g. if g_th g = None
                  then (case clock_start (xTimeHelper_new F now) of
                          Done x h \<Rightarrow> Done () (g\<lparr>g_th := Some h\<rparr>) | Raise e h \<Rightarrow> Raise e (g\<lparr>g_th := Some h\<rparr>)
                        | Crash c \<Rightarrow> Crash c | Diverge \<Rightarrow> Diverge)
                  else Done () g) g
      else Done () g)"

section \<open>Readers\<close>

text \<open>The loop that carries microseconds over into seconds.\<close>

function carry_usec :: "timeval \<Rightarrow> timeval" where
  "carry_usec (tv_sec, tv_usec) = (if tv_usec \<ge> 1000000 then carry_usec (tv_sec + 1, tv_usec - 1000000) else (tv_sec, tv_usec))"
  by pat_completeness auto
termination by (relation "measure (\<lambda>(_, u). nat u)") auto

declare carry_usec.simps [simp del]

text \<open>
  \<open>rd\<close> and \<open>now\<close> are the counter and the system time at the call. The age \<open>t\<close> is signed:
  the counters of two processors may differ.
\<close>

definition addTimeOffset ::
    "'f flt \<Rightarrow> 32 word \<times> 32 word \<Rightarrow> timeval \<Rightarrow> timeval \<Rightarrow> nat \<Rightarrow> 'f xTimeHelper \<Rightarrow> timeval \<times> 'f xTimeHelper" where
  "addTimeOffset F rd now tt idx h =
     (let current_tsc = join_tsc (fst rd) (snd rd);
          t = sint (current_tsc - slot_tsc h ! idx);
          offset = f_offset F t (cpu_cycle h)
      in if t < -1000 \<or> offset > 1000000 then (now, h\<lparr>use_tsc := False\<rparr>)
         else (carry_usec (fst tt, snd tt + offset), h))"

definition getNow ::
    "'f flt \<Rightarrow> 32 word \<times> 32 word \<Rightarrow> timeval \<Rightarrow> 'f xTimeHelper \<Rightarrow> timeval \<times> 'f xTimeHelper" where
  "getNow F rd now h =
     (let idx = buf_idx h; tv = slot_t h ! idx
      in if f_nonzero F (cpu_cycle h) \<and> use_tsc h then addTimeOffset F rd now tv idx h else (now, h))"

definition getNow_sec :: "'f xTimeHelper \<Rightarrow> int" where
  "getNow_sec h = fst (slot_t h ! buf_idx h)"

definition getNowMs ::
    "'f flt \<Rightarrow> 32 word \<times> 32 word \<Rightarrow> timeval \<Rightarrow> 'f xTimeHelper \<Rightarrow> int \<times> 'f xTimeHelper" where
  "getNowMs F rd now h =
     (let (tv, h) = getNow F rd now h in (fst tv * 1000 + trunc_div (snd tv) 1000, h))"

definition cpuMHz :: "'f flt \<Rightarrow> 'f xTimeHelper \<Rightarrow> 'f" where
  "cpuMHz F h = (if f_nonzero F (cpu_cycle h) then f_inverse F (cpu_cycle h) else f_zero F)"

section \<open>Facts\<close>

definition micros :: "timeval \<Rightarrow> int" where
  "micros tv = fst tv * 1000000 + snd tv"

definition normal :: "timeval \<Rightarrow> bool" where
  "normal tv \<longleftrightarrow> 0 \<le> snd tv \<and> snd tv < 1000000"

lemma carry_usec_micros: "micros (carry_usec tv) = micros tv"
proof (induction tv rule: carry_usec.induct)
  case (1 s u)
  then show ?case by (subst carry_usec.simps) (simp add: micros_def)
qed

lemma carry_usec_normal: "0 \<le> snd tv \<Longrightarrow> normal (carry_usec tv)"
proof (induction tv rule: carry_usec.induct)
  case (1 s u)
  then show ?case by (subst carry_usec.simps) (simp add: normal_def)
qed

lemma carry_usec_negative: "snd tv < 1000000 \<Longrightarrow> carry_usec tv = tv"
  by (cases tv) (simp add: carry_usec.simps)

lemma normal_micros_ms: "normal tv \<Longrightarrow> fst tv * 1000 + trunc_div (snd tv) 1000 = micros tv div 1000"
  by (simp add: normal_def micros_def trunc_div_def)

text \<open>What the thread maintains: two slots, and an index that names one.\<close>

definition clock_wf :: "'f xTimeHelper \<Rightarrow> bool" where
  "clock_wf h \<longleftrightarrow> buf_idx h < 2 \<and> length (slot_t h) = 2 \<and> length (slot_tsc h) = 2"

lemma clock_wf_new: "clock_wf (xTimeHelper_new F tv)"
  by (simp add: clock_wf_def xTimeHelper_new_def)

lemma other_less: "other i < 2" and other_neq: "i < 2 \<Longrightarrow> other i \<noteq> i" and other_other: "i < 2 \<Longrightarrow> other (other i) = i"
  by (auto simp: other_def)

lemma refresh_wf: "clock_wf h \<Longrightarrow> clock_wf (refresh F now rd h)"
  by (simp add: clock_wf_def refresh_def setTsc_def Let_def other_less)

text \<open>A turn leaves the published slot alone and publishes the other one, filled.\<close>

lemma refresh_slots:
  assumes "clock_wf h"
  shows "buf_idx (refresh F now rd h) = other (buf_idx h)"
    and "slot_t (refresh F now rd h) ! buf_idx h = slot_t h ! buf_idx h"
    and "slot_tsc (refresh F now rd h) ! buf_idx h = slot_tsc h ! buf_idx h"
    and "slot_t (refresh F now rd h) ! other (buf_idx h) = now"
    and "slot_tsc (refresh F now rd h) ! other (buf_idx h) = join_tsc (fst rd) (snd rd)"
  using assms other_less [of "buf_idx h"] other_neq [of "buf_idx h"]
  by (auto simp: clock_wf_def refresh_def setTsc_def Let_def)

lemma refresh_use_tsc [simp]: "use_tsc (refresh F now rd h) = use_tsc h"
  by (simp add: refresh_def setTsc_def Let_def)

lemma refresh_cycle:
  assumes "clock_wf h"
  shows "cpu_cycle (refresh F now rd h) =
    (if slot_tsc h ! buf_idx h = 0 \<or> slot_tsc h ! other (buf_idx h) = 0 then f_zero F
     else f_cycle F (micros now - micros (slot_t h ! buf_idx h)) (join_tsc (fst rd) (snd rd) - slot_tsc h ! buf_idx h))"
  using assms other_less [of "buf_idx h"] other_neq [of "buf_idx h"]
  by (simp add: clock_wf_def refresh_def setTsc_def Let_def micros_def algebra_simps)

end
