(* ===== verification/Clock_Props.thy ===== *)
theory Clock_Props
  imports Clock
begin

text \<open>
  What a reader of the cached clock of \<^verbatim>\<open>base/time_helper.cpp\<close> gets.
\<close>

section \<open>The slots stay in order\<close>

definition clock_ok :: "'f xTimeHelper \<Rightarrow> bool" where
  "clock_ok h \<longleftrightarrow> clock_wf h \<and> (\<forall>tv \<in> set (slot_t h). normal tv)"

lemma clock_ok_new: "normal tv \<Longrightarrow> clock_ok (xTimeHelper_new F tv)"
  by (simp add: clock_ok_def clock_wf_new) (simp add: xTimeHelper_new_def)

lemma slot_t_refresh: "slot_t (refresh F now rd h) = (slot_t h)[other (buf_idx h) := now]"
  by (simp add: refresh_def setTsc_def Let_def)

lemma clock_ok_refresh: "clock_ok h \<Longrightarrow> normal now \<Longrightarrow> clock_ok (refresh F now rd h)"
  using set_update_subset_insert [of "slot_t h" "other (buf_idx h)" now]
  by (auto simp: clock_ok_def refresh_wf slot_t_refresh)

lemma clock_ok_published: "clock_ok h \<Longrightarrow> normal (slot_t h ! buf_idx h)"
  by (simp add: clock_ok_def clock_wf_def)

text \<open>The turns of the thread, one after the other.\<close>

definition turns_of :: "'f flt \<Rightarrow> turn list \<Rightarrow> 'f xTimeHelper \<Rightarrow> 'f xTimeHelper" where
  "turns_of F us h = foldl (\<lambda>h u. refresh F (tn_now u) (tn_rdtsc u) h) h us"

lemma clock_ok_turns:
  "clock_ok h \<Longrightarrow> \<forall>u \<in> set us. normal (tn_now u) \<Longrightarrow> clock_ok (turns_of F us h)"
  unfolding turns_of_def by (induction us arbitrary: h) (auto simp: clock_ok_refresh)

text \<open>The loop does these turns until it is asked to end, while no wait fails.\<close>

lemma clock_run_turns:
  assumes "th_mutex h = None" and "\<not> th_terminate h"
    and "\<forall>u \<in> set us. \<not> asked_to_end u \<and> tn_wait u \<in> {0, ETIMEDOUT}" and "asked_to_end e"
  shows "clock_run F t (us @ e # vs) h = Done () ((turns_of F us h)\<lparr>th_terminate := True\<rparr>)"
  using assms(1-3)
proof (induction us arbitrary: h)
  case Nil
  then show ?case using assms(4) by (simp add: turns_of_def)
next
  case (Cons u us)
  let ?h = "refresh F (tn_now u) (tn_rdtsc u) h"
  have q: "th_mutex ?h = None" "\<not> th_terminate ?h" "?h\<lparr>th_mutex := None\<rparr> = ?h" "h\<lparr>th_terminate := False\<rparr> = h"
    using Cons.prems by (simp_all add: refresh_def setTsc_def Let_def)
  have a: "th_terminate h = False" "asked_to_end u = False" "(False \<or> False) = False" using Cons.prems by auto
  have w: "with_guard t th_mutex (\<lambda>m h. h\<lparr>th_mutex := m\<rparr>) (timedWait (tn_wait u)) ?h = Done (tn_wait u = 0) ?h"
    using q Cons.prems by (auto simp: with_guard_def mutex_lock_def mutex_unlock_def guard_end_def timedWait_def)
  have "clock_run F t ((u # us) @ e # vs) h = clock_run F t (us @ e # vs) ?h"
    by (simp only: append_Cons clock_run.simps Let_def a q(4) w if_False bindS_simps)
  also have "\<dots> = Done () ((turns_of F us ?h)\<lparr>th_terminate := True\<rparr>)"
    using Cons.prems q by (intro Cons.IH) auto
  finally show ?case by (simp add: turns_of_def)
qed

section \<open>Readings\<close>

text \<open>The loop that carries over is a division.\<close>

definition at_micros :: "int \<Rightarrow> timeval" where
  "at_micros m = (m div 1000000, m mod 1000000)"

lemma carry_usec_division:
  assumes "0 \<le> u"
  shows "carry_usec (s, u) = at_micros (micros (s, u))"
proof -
  obtain s1 u1 where c: "carry_usec (s, u) = (s1, u1)" by fastforce
  have "micros (s1, u1) = micros (s, u)" and "normal (s1, u1)"
    using carry_usec_micros [of "(s, u)"] carry_usec_normal [of "(s, u)"] assms c by simp_all
  then have "micros (s, u) = s1 * 1000000 + u1" "0 \<le> u1" "u1 < 1000000"
    by (simp_all add: micros_def normal_def)
  then have "s1 = micros (s, u) div 1000000" "u1 = micros (s, u) mod 1000000"
    by simp_all
  then show ?thesis by (simp add: c at_micros_def)
qed

lemma at_micros_ms: "fst (at_micros m) * 1000 + trunc_div (snd (at_micros m)) 1000 = m div 1000"
proof -
  have "normal (at_micros m)" "micros (at_micros m) = m" by (simp_all add: normal_def at_micros_def micros_def)
  then show ?thesis using normal_micros_ms by metis
qed

lemma getNow_cases:
  assumes "clock_wf h" and "use_tsc h" and "b = slot_t h ! buf_idx h"
    and "t = sint (join_tsc (fst rd) (snd rd) - slot_tsc h ! buf_idx h)"
    and "ofs = f_offset F t (cpu_cycle h)"
  shows "getNow F rd now h =
    (if \<not> f_nonzero F (cpu_cycle h) then (now, h)
     else if t < - 1000 \<or> ofs > 1000000 then (now, h\<lparr>use_tsc := False\<rparr>)
     else (if snd b + ofs < 0 then (fst b, snd b + ofs) else at_micros (micros b + ofs), h))"
proof -
  have "carry_usec (fst b, snd b + ofs) = (if snd b + ofs < 0 then (fst b, snd b + ofs) else at_micros (micros b + ofs))"
    using carry_usec_division [of "snd b + ofs" "fst b"] carry_usec_negative [of "(fst b, snd b + ofs)"]
    by (simp add: micros_def add.assoc)
  then show ?thesis using assms by (simp add: getNow_def addTimeOffset_def Let_def)
qed

lemma turns_use_tsc [simp]: "use_tsc (turns_of F us h) = use_tsc h"
  unfolding turns_of_def by (induction us arbitrary: h) auto

text \<open>
  C34. A reading of the cached clock, after any turns of its thread. Before the length of a cycle
  is known it is the system time, and the counter is kept. An age below -1000 cycles or an offset above a
  second gives the system time and gives the counter up, and from then on every reading is the system
  time. Otherwise it is the published time advanced by the cycles since then. When the offset takes back no more
  than the fraction of the published time, the number of microseconds is the exact sum, carried over so
  that the fraction is below a million, and the milliseconds are those of the sum. When it takes back
  more, as after the system time was set back, nothing is carried: the reading has the published
  second and a negative fraction.
\<close>

theorem clock_reading:
  assumes "normal start" and "\<forall>u \<in> set us. normal (tn_now u)" and "h = turns_of F us (xTimeHelper_new F start)"
    and "b = slot_t h ! buf_idx h" and "t = sint (join_tsc (fst rd) (snd rd) - slot_tsc h ! buf_idx h)"
    and "ofs = f_offset F t (cpu_cycle h)"
  shows "normal b \<and>
    getNow F rd now h =
      (if \<not> f_nonzero F (cpu_cycle h) then (now, h)
       else if t < - 1000 \<or> ofs > 1000000 then (now, h\<lparr>use_tsc := False\<rparr>)
       else (if snd b + ofs < 0 then (fst b, snd b + ofs) else at_micros (micros b + ofs), h)) \<and>
    (f_nonzero F (cpu_cycle h) \<and> - 1000 \<le> t \<and> ofs \<le> 1000000 \<and> 0 \<le> snd b + ofs \<longrightarrow>
      fst (getNowMs F rd now h) = (micros b + ofs) div 1000) \<and>
    getNow F rd1 now1 (h\<lparr>use_tsc := False\<rparr>) = (now1, h\<lparr>use_tsc := False\<rparr>)"
proof -
  have ok: "clock_ok h"
    unfolding assms(3) by (rule clock_ok_turns) (use assms(1,2) clock_ok_new in blast)+
  have n: "normal b" using clock_ok_published [OF ok] assms(4) by simp
  have u: "use_tsc h" by (simp add: assms(3) xTimeHelper_new_def)
  have g: "getNow F rd now h =
      (if \<not> f_nonzero F (cpu_cycle h) then (now, h)
       else if t < - 1000 \<or> ofs > 1000000 then (now, h\<lparr>use_tsc := False\<rparr>)
       else (if snd b + ofs < 0 then (fst b, snd b + ofs) else at_micros (micros b + ofs), h))"
    using ok u assms(4-6) by (intro getNow_cases) (auto simp: clock_ok_def)
  show ?thesis
    using n g by (auto simp: getNowMs_def at_micros_ms) (simp add: getNow_def Let_def)
qed

text \<open>A whole-number arithmetic, for the examples.\<close>

definition int_flt :: "int flt" where
  "int_flt =
     \<lparr>f_zero = 0, f_nonzero = (\<lambda>c. c \<noteq> 0), f_cycle = (\<lambda>us n. us div uint n), f_offset = (\<lambda>t c. t * c),
      f_inverse = (\<lambda>c. 1 div c)\<rparr>"

definition at :: "timeval \<Rightarrow> 32 word \<Rightarrow> turn" where
  "at tv n = \<lparr>asked_to_end = False, tn_now = tv, tn_rdtsc = (n, 0), tn_wait = ETIMEDOUT\<rparr>"

lemmas examples = turns_of_def at_def refresh_def setTsc_def int_flt_def xTimeHelper_new_def join_tsc_def other_def Let_def

lemma clock_reading_witness:
  "\<exists>h. h = turns_of int_flt [at (10, 0) 100, at (10, 800000) 200, at (11, 600000) 300] (xTimeHelper_new int_flt (9, 0)) \<and>
     cpu_cycle h = 8000 \<and> getNow int_flt (350, 0) (0, 0) h = ((12, 0), h) \<and>
     fst (getNowMs int_flt (350, 0) (0, 0) h) = 12000"
proof -
  define h where "h = turns_of int_flt [at (10, 0) 100, at (10, 800000) 200, at (11, 600000) 300] (xTimeHelper_new int_flt (9, 0))"
  have e: "cpu_cycle h = 8000" "slot_t h ! buf_idx h = (11, 600000)" "slot_tsc h ! buf_idx h = 300"
    by (simp_all add: h_def examples)
  show ?thesis
    using clock_reading [OF _ _ h_def refl refl refl, of "(350, 0)" "(0, 0)"] e h_def
    by (simp add: normal_def at_def int_flt_def join_tsc_def at_micros_def micros_def)
qed

text \<open>
  When the system time has been set back between two turns, the length of a cycle comes out
  negative, and the readings of the next period have negative microseconds: only an upper bound is
  checked.
\<close>

lemma clock_set_back_reads_negative:
  "fst (getNow int_flt (350, 0) (5, 400000)
     (turns_of int_flt [at (10, 0) 100, at (10, 800000) 200, at (5, 0) 300] (xTimeHelper_new int_flt (9, 0)))) = (5, - 2900000)"
  by (simp add: examples getNow_def addTimeOffset_def carry_usec.simps)

end
