(* ===== verification/CmdOption.thy ===== *)
theory CmdOption
  imports Prelude
begin

text \<open>
  \<^verbatim>\<open>base/include/option.h\<close> and \<^verbatim>\<open>base/option.cpp\<close>: command line options of the form
  \<^verbatim>\<open>--name=value\<close> and \<^verbatim>\<open>--name\<close>, and single words.
\<close>

section \<open>State and strings\<close>

record xOption =
  mParam :: "string \<Rightarrow> string option"
  vSingle :: "string list"

definition xOption_new :: xOption where
  "xOption_new = \<lparr>mParam = Map.empty, vSingle = []\<rparr>"

text \<open>\<^verbatim>\<open>std::string::find\<close> of a character, and \<^verbatim>\<open>substr\<close> with its clamped length.\<close>

definition npos :: size_t where
  "npos = - 1"

fun find_from :: "nat \<Rightarrow> char \<Rightarrow> string \<Rightarrow> size_t" where
  "find_from i c [] = npos"
| "find_from i c (x # xs) = (if x = c then of_nat i else find_from (Suc i) c xs)"

definition find_char :: "char \<Rightarrow> string \<Rightarrow> size_t" where
  "find_char c s = find_from 0 c s"

definition substr :: "string \<Rightarrow> size_t \<Rightarrow> size_t \<Rightarrow> fault + string" where
  "substr s pos n = (if unat pos \<le> length s then Inr (take (unat n) (drop (unat pos) s)) else Inl (Thrown OutOfRange))"

section \<open>Operations\<close>

definition parse_option :: "string \<Rightarrow> xOption \<Rightarrow> fault + xOption" where
  "parse_option s o1 =
     (let pos = find_char (CHR ''='') s in
      if pos \<noteq> npos
      then bindE (substr s 2 (pos - 2)) (\<lambda>k. bindE (substr s (pos + 1) npos) (\<lambda>v.
             Inr (o1\<lparr>mParam := (mParam o1)(k \<mapsto> v)\<rparr>)))
      else bindE (substr s 2 (pos - 2)) (\<lambda>k. Inr (o1\<lparr>mParam := (mParam o1)(k \<mapsto> '''')\<rparr>)))"

fun decode_args :: "string list \<Rightarrow> xOption \<Rightarrow> fault + xOption" where
  "decode_args [] o1 = Inr o1"
| "decode_args (a # v) o1 =
     bindE (if length a > 2 \<and> take 2 a = ''--'' then parse_option a o1 else Inr (o1\<lparr>vSingle := vSingle o1 @ [a]\<rparr>))
       (decode_args v)"

text \<open>\<open>argv\<close> with its first element, the name of the program. The single words are not cleared.\<close>

definition decode :: "string list \<Rightarrow> xOption \<Rightarrow> fault + xOption" where
  "decode argv o1 = decode_args (drop 1 argv) (o1\<lparr>mParam := Map.empty\<rparr>)"

definition getValue :: "string \<Rightarrow> xOption \<Rightarrow> string" where
  "getValue sName o1 = (case mParam o1 sName of Some v \<Rightarrow> v | None \<Rightarrow> '''')"

definition hasParam :: "string \<Rightarrow> xOption \<Rightarrow> bool" where
  "hasParam sName o1 \<longleftrightarrow> mParam o1 sName \<noteq> None"

definition getSingle :: "xOption \<Rightarrow> string list" where
  "getSingle o1 = vSingle o1"

definition getMulti :: "xOption \<Rightarrow> string \<Rightarrow> string option" where
  "getMulti o1 = mParam o1"

section \<open>Items of a command line\<close>

datatype item = Param string string | Flag string | Single string

fun item_text :: "item \<Rightarrow> string" where
  "item_text (Param n v) = ''--'' @ n @ ''='' @ v"
| "item_text (Flag n) = ''--'' @ n"
| "item_text (Single w) = w"

fun item_ok :: "item \<Rightarrow> bool" where
  "item_ok (Param n v) \<longleftrightarrow> CHR ''='' \<notin> set n"
| "item_ok (Flag n) \<longleftrightarrow> CHR ''='' \<notin> set n \<and> n \<noteq> []"
| "item_ok (Single w) \<longleftrightarrow> \<not> (length w > 2 \<and> take 2 w = ''--'')"

fun item_param :: "item \<Rightarrow> (string \<times> string) option" where
  "item_param (Param n v) = Some (n, v)"
| "item_param (Flag n) = Some (n, '''')"
| "item_param (Single w) = None"

fun item_single :: "item \<Rightarrow> string list" where
  "item_single (Single w) = [w]"
| "item_single _ = []"

section \<open>Facts\<close>

lemma find_from_none: "c \<notin> set s \<Longrightarrow> find_from i c s = npos"
  by (induction s arbitrary: i) auto

lemma find_from_some: "c \<notin> set s \<Longrightarrow> find_from i c (s @ c # t) = of_nat (i + length s)"
  by (induction s arbitrary: i) auto

lemma unat_npos: "unat npos = 2 ^ 64 - 1" "unat (npos - 2) = 2 ^ 64 - 3"
  by (simp_all add: npos_def unsigned_minus_1_eq_mask mask_eq_exp_minus_1 unat_sub_if_size word_size)

lemma small_not_npos: "n < 2 ^ 63 \<Longrightarrow> (of_nat n :: size_t) \<noteq> npos"
proof
  assume n: "n < 2 ^ 63" and "(of_nat n :: size_t) = npos"
  then have "unat (of_nat n :: size_t) = unat npos" by simp
  moreover have "unat (of_nat n :: size_t) = n" using n by (intro unat_size_of_nat) simp
  ultimately show False using n by (simp add: unat_npos)
qed

lemma drop_value: "drop (3 + length n) (a # b # n @ c # v) = v"
proof -
  have "3 + length n = Suc (Suc (length n + 1))" by simp
  then show ?thesis by (simp only: drop_Suc_Cons) simp
qed

lemma parse_param:
  assumes "CHR ''='' \<notin> set n" and "length (item_text (Param n v)) < 2 ^ 63"
  shows "parse_option (item_text (Param n v)) o1 = Inr (o1\<lparr>mParam := (mParam o1)(n \<mapsto> v)\<rparr>)"
proof -
  let ?s = "item_text (Param n v)"
  let ?p = "of_nat (2 + length n) :: size_t"
  have f: "find_char (CHR ''='') ?s = ?p"
    using find_from_some [of "CHR ''=''" "''--'' @ n" 0 v] assms(1) by (simp add: find_char_def)
  have l: "length n + length v + 3 < 2 ^ 63" using assms(2) by simp
  have u: "unat ?p = 2 + length n" "unat (?p + 1) = 3 + length n" "unat (?p - 2) = length n"
  proof -
    show "unat ?p = 2 + length n" using l by (intro unat_size_of_nat) simp
    have "?p + 1 = of_nat (3 + length n)" "?p - 2 = of_nat (length n)" by simp_all
    moreover have "unat (of_nat (3 + length n) :: size_t) = 3 + length n" "unat (of_nat (length n) :: size_t) = length n"
      using l by (intro unat_size_of_nat, simp)+
    ultimately show "unat (?p + 1) = 3 + length n" "unat (?p - 2) = length n" by simp_all
  qed
  have "?p \<noteq> npos" using l by (intro small_not_npos) simp
  moreover have "substr ?s 2 (?p - 2) = Inr n"
    unfolding substr_def u by simp
  moreover have "substr ?s (?p + 1) npos = Inr v"
    using l unfolding substr_def u unat_npos by (simp add: drop_value)
  ultimately show ?thesis
    by (simp add: parse_option_def f Let_def del: of_nat_add of_nat_numeral item_text.simps)
qed

lemma parse_flag:
  assumes "CHR ''='' \<notin> set n" and "length (item_text (Flag n)) < 2 ^ 63"
  shows "parse_option (item_text (Flag n)) o1 = Inr (o1\<lparr>mParam := (mParam o1)(n \<mapsto> '''')\<rparr>)"
proof -
  have f: "find_char (CHR ''='') (item_text (Flag n)) = npos"
    using assms(1) by (simp add: find_char_def find_from_none)
  have "substr (item_text (Flag n)) 2 (npos - 2) = Inr n"
    using assms(2) by (simp add: substr_def unat_npos)
  then show ?thesis
    by (simp add: parse_option_def f Let_def del: item_text.simps)
qed

end
