(* ===== verification/CmdOption_Props.thy ===== *)
theory CmdOption_Props
  imports CmdOption
begin

text \<open>
  What the command line parser of \<^verbatim>\<open>base/option.cpp\<close> gives back.
\<close>

definition item_short :: "item \<Rightarrow> bool" where
  "item_short i \<longleftrightarrow> length (item_text i) < 2 ^ 63"

definition items_params :: "item list \<Rightarrow> string \<Rightarrow> string option" where
  "items_params items = map_of (rev (List.map_filter item_param items))"

definition items_singles :: "item list \<Rightarrow> string list" where
  "items_singles items = concat (map item_single items)"

lemma decode_item:
  assumes "item_ok i" and "item_short i"
  shows "decode_args (item_text i # v) o1 =
    decode_args v (o1\<lparr>mParam := mParam o1 ++ map_of (rev (List.map_filter item_param [i])),
      vSingle := vSingle o1 @ item_single i\<rparr>)"
proof (cases i)
  case (Param n w)
  then have "parse_option (item_text (Param n w)) o1 = Inr (o1\<lparr>mParam := (mParam o1)(n \<mapsto> w)\<rparr>)"
    using assms by (intro parse_param) (auto simp: item_short_def)
  then show ?thesis using Param by (simp add: map_filter_simps)
next
  case (Flag n)
  then have "parse_option (item_text (Flag n)) o1 = Inr (o1\<lparr>mParam := (mParam o1)(n \<mapsto> '''')\<rparr>)"
    using assms by (intro parse_flag) (auto simp: item_short_def)
  then show ?thesis using Flag assms by (simp add: map_filter_simps)
next
  case (Single w)
  then show ?thesis using assms by (auto simp: map_filter_simps)
qed

lemma decode_items:
  assumes "\<forall>i \<in> set items. item_ok i \<and> item_short i"
  shows "decode_args (map item_text items) o1 =
    Inr (o1\<lparr>mParam := mParam o1 ++ items_params items, vSingle := vSingle o1 @ items_singles items\<rparr>)"
  using assms
proof (induction items arbitrary: o1)
  case Nil
  then show ?case by (simp add: items_params_def items_singles_def map_filter_simps)
next
  case (Cons i items)
  have "items_params (i # items) = map_of (rev (List.map_filter item_param [i])) ++ items_params items"
    by (simp add: items_params_def map_filter_simps split: option.split)
  then show ?case using Cons
    by (simp add: decode_item items_singles_def map_filter_simps del: decode_args.simps)
qed

text \<open>Every argument is the text of one item.\<close>

lemma every_text_is_an_item: "\<exists>i. item_ok i \<and> item_text i = a"
proof (cases "length a > 2 \<and> take 2 a = ''--''")
  case False
  then show ?thesis by (intro exI [of _ "Single a"]) auto
next
  case True
  define r where "r = drop 2 a"
  have a: "a = ''--'' @ r" and r: "r \<noteq> []"
    using True append_take_drop_id [of 2 a] by (auto simp: r_def)
  show ?thesis
  proof (cases "CHR ''='' \<in> set r")
    case True
    then obtain n v where "r = n @ CHR ''='' # v" "CHR ''='' \<notin> set n"
      by (meson split_list_first)
    then show ?thesis using a by (intro exI [of _ "Param n v"]) simp
  next
    case False
    then show ?thesis using a r by (intro exI [of _ "Flag r"]) simp
  qed
qed

text \<open>
  C35. Parsing a command line gives back its items: after the program's name, \<^verbatim>\<open>--name=value\<close>
  (the first \<^verbatim>\<open>=\<close> ends the name) gives the option \<^verbatim>\<open>name\<close> that value,
  \<^verbatim>\<open>--name\<close> gives it the empty text, and where a name appears again the last one counts;
  every other word joins the single words in its order. The options of an earlier call are
  forgotten, its single words stay. The texts are shorter than half the address space.
\<close>

theorem options_parse_back:
  assumes "\<forall>i \<in> set items. item_ok i \<and> item_short i"
  shows "decode (prog # map item_text items) o1 =
    Inr \<lparr>mParam = items_params items, vSingle = vSingle o1 @ items_singles items\<rparr>"
  using decode_items [OF assms, of "o1\<lparr>mParam := Map.empty\<rparr>"]
  by (simp add: decode_def)

lemma options_parse_back_witness:
  "decode [''main'', ''--port=80=81'', ''run'', ''--v'', ''--port=82''] xOption_new =
     Inr \<lparr>mParam = [''port'' \<mapsto> ''82'', ''v'' \<mapsto> ''''], vSingle = [''run'']\<rparr>"
proof -
  let ?items = "[Param ''port'' ''80=81'', Single ''run'', Flag ''v'', Param ''port'' ''82'']"
  have "\<forall>i \<in> set ?items. item_ok i \<and> item_short i"
    by (simp add: item_short_def)
  then have "decode (''main'' # map item_text ?items) xOption_new =
      Inr \<lparr>mParam = items_params ?items, vSingle = vSingle xOption_new @ items_singles ?items\<rparr>"
    by (rule options_parse_back)
  then show ?thesis
    by (simp add: items_params_def items_singles_def map_filter_simps xOption_new_def fun_upd_twist)
qed

end
