(* ===== verification/Util_Props.thy ===== *)
theory Util_Props
  imports Util
begin

text \<open>
  What the conversions of \<^verbatim>\<open>base/util.cpp\<close> and \<^verbatim>\<open>base/include/util.h\<close> promise:
  numbers survive the way to a text and back, and decimal fractions lose their zeros at the end.
\<close>

section \<open>Integers\<close>

lemma sint_bounds:
  fixes x :: "'a::len word"
  shows "- (2 ^ (LENGTH('a) - 1)) \<le> sint x" and "sint x < 2 ^ (LENGTH('a) - 1)"
  using sint_ge [of x] sint_lt [of x] by auto

text \<open>A signed number of at most \<open>w\<close> bits through a text that fits its buffer.\<close>

lemma signed_text:
  fixes x :: "'a::len word"
  assumes "LENGTH('a) \<le> w" and "nat \<bar>sint x\<bar> < 10 ^ k" and "0 < k" and "Suc k < n"
  shows "snprintf_buf n (fmt_d (sint x)) \<noteq> []"
    and "ato w (snprintf_buf n (fmt_d (sint x))) = Inr (sint x)"
proof -
  have e: "snprintf_buf n (fmt_d (sint x)) = fmt_d (sint x)"
    using assms by (intro snprintf_fmt_d [of _ k])
  have p: "(2::int) ^ (LENGTH('a) - 1) \<le> 2 ^ (w - 1)"
    using assms(1) by (intro power_increasing) auto
  show "snprintf_buf n (fmt_d (sint x)) \<noteq> []" by (simp add: e)
  show "ato w (snprintf_buf n (fmt_d (sint x))) = Inr (sint x)"
    unfolding e using sint_bounds [of x] p by (intro ato_fmt_d) linarith+
qed

lemma unsigned_text:
  fixes x :: "'a::len word"
  assumes "LENGTH('a) \<le> 64" and "nat (uint x) < 10 ^ k" and "0 < k" and "Suc k < n"
  shows "snprintf_buf n (fmt_d (uint x)) \<noteq> []"
    and "strtoul (snprintf_buf n (fmt_d (uint x))) = ucast x"
proof -
  have e: "snprintf_buf n (fmt_d (uint x)) = fmt_d (uint x)"
    using assms by (intro snprintf_fmt_d [of _ k]) auto
  have "(2::int) ^ LENGTH('a) \<le> 2 ^ 64"
    using assms(1) by (intro power_increasing) auto
  then have "uint x < 2 ^ 64" using uint_lt2p [of x] by linarith
  then have "strtoul (fmt_d (uint x)) = of_int (uint x)"
    by (intro strtoul_fmt_d) simp_all
  then show "strtoul (snprintf_buf n (fmt_d (uint x))) = ucast x"
    by (simp add: e)
  show "snprintf_buf n (fmt_d (uint x)) \<noteq> []" by (simp add: e)
qed

lemma abs_sint_less: "nat \<bar>sint (x :: 'a::len word)\<bar> \<le> 2 ^ (LENGTH('a) - 1)"
  using sint_bounds [of x] by (simp add: nat_le_iff)

lemma nat_uint_less: "nat (uint (x :: 'a::len word)) < 2 ^ LENGTH('a)"
  using uint_lt2p [of x] by (simp add: nat_less_iff)

lemma short_back: "strto_short (tostr_short h) = Inr h"
  using signed_text [of 32 h 5 16] abs_sint_less [of h] by (simp add: strto_short_def tostr_short_def)

lemma int_back: "strto_int (tostr_int i) = Inr i"
  using signed_text [of 32 i 10 16] abs_sint_less [of i] by (simp add: strto_int_def tostr_int_def)

lemma long_back: "strto_long (tostr_long l) = Inr l"
  using signed_text [of 64 l 19 32] abs_sint_less [of l] by (simp add: strto_long_def tostr_long_def)

lemma llong_back: "strto_llong (tostr_llong l) = Inr l"
  using signed_text [of 64 l 19 32] abs_sint_less [of l] by (simp add: strto_llong_def tostr_llong_def)

lemma ucast_back: "LENGTH('a) \<le> LENGTH('b) \<Longrightarrow> ucast (ucast (x :: 'a::len word) :: 'b::len word) = x"
  by (rule word_uint_eqI) (simp add: unsigned_ucast_eq take_bit_word_eq_self)

lemma ushort_back: "strto_ushort (tostr_ushort h) = h"
  using unsigned_text [of h 5 16] nat_uint_less [of h] by (simp add: strto_ushort_def tostr_ushort_def ucast_back)

lemma uint_back: "strto_uint (tostr_uint i) = i"
  using unsigned_text [of i 10 16] nat_uint_less [of i] by (simp add: strto_uint_def tostr_uint_def ucast_back)

lemma ulong_back: "strto_ulong (tostr_ulong l) = l"
  using unsigned_text [of l 20 32] nat_uint_less [of l] by (simp add: strto_ulong_def tostr_ulong_def)

lemma char_back: "strto_char (tostr_char c) = c"
  by (simp add: strto_char_def tostr_char_def snprintf_buf_def cstr_def)

lemma uchar_back:
  "strto_uchar (tostr_uchar uc) =
    (if uc = 0 then Inr 48 else if is_space (char_of (unat uc)) then Inl Undefined else Inr uc)"
proof (cases "uc = 0")
  case True
  have "char_of (0 :: nat) = CHR 0x00" by (simp add: char_of_def)
  then show ?thesis using True
    by (simp add: strto_uchar_def tostr_uchar_def snprintf_buf_def cstr_def is_space_def)
next
  case False
  have "unat uc < 256" using unsigned_less [of uc] by simp
  then have c: "of_char (char_of (unat uc) :: char) = unat uc" by simp
  moreover have "(of_char (CHR 0x00) :: nat) = 0" by simp
  ultimately have "char_of (unat uc) \<noteq> CHR 0x00" using False by (metis unat_eq_zero)
  then show ?thesis using False c by (simp add: strto_uchar_def tostr_uchar_def snprintf_buf_def cstr_def)
qed

text \<open>
  C36. A number written by \<^verbatim>\<open>tostr\<close> and read by \<^verbatim>\<open>strto\<close> at the same type is the
  number, for every value of \<^verbatim>\<open>char\<close>, \<^verbatim>\<open>short\<close>, \<^verbatim>\<open>unsigned short\<close>, \<^verbatim>\<open>int\<close>, \<^verbatim>\<open>unsigned int\<close>, \<^verbatim>\<open>long\<close>,
  \<^verbatim>\<open>long long\<close> and \<^verbatim>\<open>unsigned long\<close>, the types with a writer and a reader of their own: the buffers of 16
  and 32 bytes hold the longest text, the reading never leaves the range of \<^verbatim>\<open>atoi\<close> and
  its relatives, and the signs survive. Not so for \<^verbatim>\<open>unsigned char\<close>, whose reader is the general template:
  0 reads back as 48, the code of the digit, and the codes of blanks leave the result uninitialised.
\<close>

theorem numbers_read_back:
  "strto_char (tostr_char c) = c \<and>
   strto_short (tostr_short h) = Inr h \<and> strto_ushort (tostr_ushort uh) = uh \<and>
   strto_int (tostr_int i) = Inr i \<and> strto_uint (tostr_uint ui) = ui \<and>
   strto_long (tostr_long l) = Inr l \<and> strto_llong (tostr_llong ll) = Inr ll \<and>
   strto_ulong (tostr_ulong ul) = ul \<and>
   strto_uchar (tostr_uchar uc) =
     (if uc = 0 then Inr 48 else if is_space (char_of (unat uc)) then Inl Undefined else Inr uc)"
  by (simp only: char_back short_back ushort_back int_back uint_back long_back llong_back ulong_back uchar_back simp_thms)

section \<open>Decimal fractions\<close>

lemma trim_loop_Suc:
  "trim_loop s (int (Suc n)) b =
     (if s ! Suc n = CHR ''0''
      then if s ! n = CHR ''.'' then (int n - 1, True) else trim_loop s (int n) True
      else (int (Suc n), b))"
  by (subst trim_loop.simps) (simp add: nat_add_distrib)

text \<open>The loop over a block of zeros: after a digit that stays, and after the point.\<close>

lemma trim_after_digit:
  assumes "s ! Suc m \<noteq> CHR ''0''" and "s ! Suc m \<noteq> CHR ''.''" and "\<forall>i < j. s ! (Suc m + Suc i) = CHR ''0''"
  shows "trim_loop s (int (Suc (m + j))) b = (int (Suc m), b \<or> 0 < j)"
  using assms(3)
proof (induction j arbitrary: b)
  case 0
  then show ?case using assms(1) by (simp only: trim_loop_Suc add_0_right) simp
next
  case (Suc j)
  have "s ! Suc (m + Suc j) = CHR ''0''" using Suc.prems by auto
  moreover have "s ! (m + Suc j) \<noteq> CHR ''.''"
    using Suc.prems assms(2) by (cases j) auto
  ultimately have "trim_loop s (int (Suc (m + Suc j))) b = trim_loop s (int (Suc (m + j))) True"
    by (simp only: trim_loop_Suc [of s "m + Suc j"]) simp
  then show ?case using Suc.IH [of True] Suc.prems by auto
qed

lemma trim_after_point:
  assumes "s ! m = CHR ''.''" and "\<forall>i < Suc j. s ! (m + Suc i) = CHR ''0''"
  shows "trim_loop s (int (Suc (m + j))) b = (int m - 1, True)"
  using assms(2)
proof (induction j arbitrary: b)
  case 0
  then show ?case using assms(1) by (simp only: trim_loop_Suc add_0_right) simp
next
  case (Suc j)
  have "s ! Suc (m + Suc j) = CHR ''0''" "s ! (m + Suc j) = CHR ''0''" using Suc.prems by auto
  then have "trim_loop s (int (Suc (m + Suc j))) b = trim_loop s (int (Suc (m + j))) True"
    by (simp only: trim_loop_Suc [of s "m + Suc j"]) simp
  then show ?case using Suc.IH [of True] Suc.prems by auto
qed

text \<open>The reference: the fraction without its zeros at the end, and without the point when nothing is left.\<close>

definition decimal :: "string \<Rightarrow> string \<Rightarrow> string" where
  "decimal ip frac =
     (let f = rev (dropWhile (\<lambda>c. c = CHR ''0'') (rev frac)) in if f = [] then ip else ip @ ''.'' @ f)"

lemma split_zeros:
  obtains f k where "frac = f @ replicate k (CHR ''0'')"
    and "f = rev (dropWhile (\<lambda>c. c = CHR ''0'') (rev frac))"
    and "f = [] \<or> last f \<noteq> CHR ''0''"
proof -
  let ?d = "dropWhile (\<lambda>c. c = CHR ''0'') (rev frac)" and ?t = "takeWhile (\<lambda>c. c = CHR ''0'') (rev frac)"
  have t: "?t = replicate (length ?t) (CHR ''0'')"
    by (rule replicate_eqI) (auto dest: set_takeWhileD)
  have "rev frac = ?t @ ?d" by simp
  then have "frac = rev ?d @ rev ?t" by (metis rev_append rev_rev_ident)
  then have "frac = rev ?d @ replicate (length ?t) (CHR ''0'')" using t by (metis rev_replicate)
  moreover have "rev ?d = [] \<or> last (rev ?d) \<noteq> CHR ''0''"
    using hd_dropWhile [of "\<lambda>c. c = CHR ''0''" "rev frac"] by (auto simp: last_rev)
  ultimately show ?thesis using that by blast
qed

lemma trim_zeros_by:
  "trim_loop s (int (length s) - 1) False = (pos, b) \<Longrightarrow> trim_zeros s = (if b then take (nat (pos + 1)) s else s)"
  by (simp add: trim_zeros_def)

lemma trim_zeros_decimal:
  assumes "frac \<noteq> []" and "CHR ''.'' \<notin> set frac"
  shows "trim_zeros (ip @ ''.'' @ frac) = decimal ip frac"
proof -
  obtain f k where f: "frac = f @ replicate k (CHR ''0'')"
    and g: "f = rev (dropWhile (\<lambda>c. c = CHR ''0'') (rev frac))" and l: "f = [] \<or> last f \<noteq> CHR ''0''"
    by (rule split_zeros)
  have d: "decimal ip frac = (if f = [] then ip else ip @ ''.'' @ f)"
    unfolding decimal_def Let_def g [symmetric] ..
  let ?s = "ip @ ''.'' @ frac" and ?m = "length ip"
  show ?thesis
  proof (cases "f = []")
    case True
    then obtain j where k: "k = Suc j" using f assms(1) by (cases k) auto
    have "trim_loop ?s (int (Suc (?m + j))) False = (int ?m - 1, True)"
      using f k True by (intro trim_after_point) (auto simp: nth_append simp del: replicate_Suc)
    then have "trim_zeros ?s = ip" using True f k by (simp add: trim_zeros_def Let_def)
    then show ?thesis using True d by simp
  next
    case False
    then obtain e z where e: "f = e @ [z]" by (cases f rule: rev_cases) auto
    have z: "z \<noteq> CHR ''0''" "z \<noteq> CHR ''.''" using l e f assms(2) by auto
    define p where "p = ip @ ''.'' @ e"
    define m where "m = length (ip @ e)"
    have s: "?s = p @ z # replicate k (CHR ''0'')" and m: "length p = Suc m" using f e by (simp_all add: p_def m_def)
    have "?s ! Suc m = z" unfolding s by (simp add: nth_append m)
    moreover have "\<forall>i < k. ?s ! (Suc m + Suc i) = CHR ''0''" unfolding s by (simp add: nth_append m)
    ultimately have "trim_loop ?s (int (Suc (m + k))) False = (int (Suc m), False \<or> 0 < k)"
      using z by (intro trim_after_digit) simp_all
    then have "trim_loop ?s (int (length ?s) - 1) False = (int (Suc m), 0 < k)" using f e by (simp add: m_def add.assoc)
    then have "trim_zeros ?s = (if 0 < k then take (nat (int (Suc m) + 1)) ?s else ?s)" by (rule trim_zeros_by)
    moreover have "take (nat (int (Suc m) + 1)) ?s = p @ [z]"
      unfolding s using m by (simp add: nat_add_distrib)
    moreover have "k = 0 \<Longrightarrow> ?s = p @ [z]" unfolding s by simp
    ultimately have "trim_zeros ?s = p @ [z]"
      by (cases k) simp_all
    then have "trim_zeros ?s = ip @ ''.'' @ f" using e by (simp add: p_def)
    then show ?thesis using False d by simp
  qed
qed

text \<open>
  C37. Writing a floating-point number drops the zeros at the end of its fraction, and the point
  with them when the fraction is zero (\<^verbatim>\<open>1.0300\<close> gives \<^verbatim>\<open>1.03\<close>,
  \<^verbatim>\<open>1.00\<close> gives \<^verbatim>\<open>1\<close>), and changes nothing else, while the full text of
  \<^verbatim>\<open>%.5f\<close> fits the buffer, with at most 31 characters. The same holds of the three
  floating-point types.
\<close>

theorem decimals_are_trimmed:
  assumes "txt = ip @ ''.'' @ frac" and "frac \<noteq> []" and "CHR ''.'' \<notin> set frac"
    and "length txt \<le> 31" and "CHR 0x00 \<notin> set txt"
  shows "tostr_float txt = decimal ip frac \<and> tostr_double txt = decimal ip frac \<and> tostr_ldouble txt = decimal ip frac"
proof -
  have "snprintf_buf 32 txt = txt" using assms(4,5) by (simp add: snprintf_buf_def cstr_id)
  then show ?thesis
    using assms trim_zeros_decimal [of frac ip] by (simp add: tostr_float_def tostr_double_def tostr_ldouble_def)
qed

lemma decimals_are_trimmed_witness:
  "tostr_double ''-12.03000'' = ''-12.03'' \<and> tostr_double ''100.00000'' = ''100''"
  using decimals_are_trimmed [of "''-12.03000''" "''-12''" "''03000''"]
    decimals_are_trimmed [of "''100.00000''" "''100''" "''00000''"]
  by (simp add: decimal_def)

text \<open>
  A longer text is cut off inside the integer part: the number \<open>10 ^ 40\<close> comes out as one
  of 29 digits.
\<close>

lemma long_numbers_are_cut:
  "tostr_double ''10000000000000000303786028427003666890752.00000'' = ''10000000000000000303786028427''"
  by code_simp

section \<open>The time stamp of the log\<close>

text \<open>
  After the point the log prints hundredths of a second, filled up to four digits: 0.123456 seconds
  past 12:00:00 reads \<^verbatim>\<open>.0012\<close>.
\<close>

lemma log_fraction_is_in_hundredths:
  "now2strLog (\<lambda>t. \<lparr>tm_year = 124, tm_mon = 0, tm_mday = 1, tm_hour = 12, tm_min = 0, tm_sec = 0\<rparr>) (1704110400, 123456)
     = ''2024-01-01 12:00:00.0012''"
  by code_simp

end
