(* ===== verification/TypeList.thy ===== *)
theory TypeList
  imports Prelude
begin

text \<open>
  \<^verbatim>\<open>base/include/loki.h\<close>: computation with types at compile time. A C++ type is a value here,
  a template that names a type is a function, and its partial specialisations are the equations.
  \<open>None\<close> is an instantiation that the compiler rejects.
\<close>

section \<open>Types\<close>

datatype fund = VoidT | BoolT | CharT | SCharT | UCharT | WCharT | Char16T | Char32T | NullPtrT | ShortT | UShortT | IntT | UIntT
  | LongT | ULongT | LLongT | ULLongT | FloatT | DoubleT | LDoubleT

text \<open>
  \<open>ClassType n\<close> is a class, union or enumeration. \<open>Cv c v T\<close> is the type \<open>T\<close> with
  \<^verbatim>\<open>const\<close> when \<open>c\<close> and \<^verbatim>\<open>volatile\<close> when \<open>v\<close>; types that are written by a
  program have at most one \<open>Cv\<close> at a place, one that adds something, and none around a reference
  (\<open>proper\<close>). Arrays, functions and rvalue references are left out.
\<close>

datatype ctype = NullType | EmptyType | Fund fund | ClassType nat | TypeList ctype ctype
  | Pointer ctype | Reference ctype | MemPointer ctype ctype | Cv bool bool ctype

fun unqualified :: "ctype \<Rightarrow> bool" where
  "unqualified (Cv c v T) = False"
| "unqualified T = True"

fun proper :: "ctype \<Rightarrow> bool" where
  "proper (Cv c v T) \<longleftrightarrow> (c \<or> v) \<and> unqualified T \<and> (\<forall>U. T \<noteq> Reference U) \<and> proper T"
| "proper (Pointer T) \<longleftrightarrow> (\<forall>U. T \<noteq> Reference U) \<and> proper T"
| "proper (Reference T) \<longleftrightarrow> (\<forall>U. T \<noteq> Reference U) \<and> proper T"
| "proper (MemPointer T C) \<longleftrightarrow> (\<forall>U. T \<noteq> Reference U) \<and> proper T \<and> proper C"
| "proper (TypeList T U) \<longleftrightarrow> proper T \<and> proper U"
| "proper T \<longleftrightarrow> True"

text \<open>What \<open>U\<close> is when the type matches \<^verbatim>\<open>const U\<close> and \<^verbatim>\<open>volatile U\<close>.\<close>

fun match_const :: "ctype \<Rightarrow> ctype option" where
  "match_const (Cv c v T) = (if c then Some (if v then Cv False True T else T) else None)"
| "match_const T = None"

fun match_volatile :: "ctype \<Rightarrow> ctype option" where
  "match_volatile (Cv c v T) = (if v then Some (if c then Cv True False T else T) else None)"
| "match_volatile T = None"

section \<open>Lists\<close>

fun Length :: "ctype \<Rightarrow> nat option" where
  "Length NullType = Some 0"
| "Length (TypeList Head Tail) = map_option Suc (Length Tail)"
| "Length T = None"

fun TypeAt :: "ctype \<Rightarrow> nat \<Rightarrow> ctype option" where
  "TypeAt (TypeList Head Tail) 0 = Some Head"
| "TypeAt (TypeList Head Tail) (Suc i) = TypeAt Tail i"
| "TypeAt T i = None"

fun TypeAtNonStrict :: "ctype \<Rightarrow> nat \<Rightarrow> ctype \<Rightarrow> ctype" where
  "TypeAtNonStrict (TypeList Head Tail) 0 DefaultType = Head"
| "TypeAtNonStrict (TypeList Head Tail) (Suc i) DefaultType = TypeAtNonStrict Tail i DefaultType"
| "TypeAtNonStrict TList index DefaultType = DefaultType"

fun IndexOf :: "ctype \<Rightarrow> ctype \<Rightarrow> int option" where
  "IndexOf NullType T = Some (-1)"
| "IndexOf (TypeList Head Tail) T =
     (if Head = T then Some 0
      else map_option (\<lambda>temp. if temp = -1 then -1 else 1 + temp) (IndexOf Tail T))"
| "IndexOf U T = None"

fun Append :: "ctype \<Rightarrow> ctype \<Rightarrow> ctype option" where
  "Append NullType T =
     Some (case T of NullType \<Rightarrow> NullType | TypeList Head Tail \<Rightarrow> TypeList Head Tail | _ \<Rightarrow> TypeList T NullType)"
| "Append (TypeList Head Tail) T = map_option (TypeList Head) (Append Tail T)"
| "Append U T = None"

fun Erase :: "ctype \<Rightarrow> ctype \<Rightarrow> ctype option" where
  "Erase NullType T = Some NullType"
| "Erase (TypeList Head Tail) T = (if Head = T then Some Tail else map_option (TypeList Head) (Erase Tail T))"
| "Erase U T = None"

fun EraseAll :: "ctype \<Rightarrow> ctype \<Rightarrow> ctype option" where
  "EraseAll NullType T = Some NullType"
| "EraseAll (TypeList Head Tail) T =
     (if Head = T then EraseAll Tail T else map_option (TypeList Head) (EraseAll Tail T))"
| "EraseAll U T = None"

text \<open>The macros \<^verbatim>\<open>TYPELIST_n\<close>, and the template with twenty parameters, \<^verbatim>\<open>NullType\<close> by default.\<close>

fun TYPELIST :: "ctype list \<Rightarrow> ctype" where
  "TYPELIST [] = NullType"
| "TYPELIST (T # Ts) = TypeList T (TYPELIST Ts)"

definition TLMaker :: "ctype list \<Rightarrow> ctype option" where
  "TLMaker Ts =
     (if length Ts \<le> 20 then EraseAll (TYPELIST (Ts @ replicate (20 - length Ts) NullType)) NullType else None)"

section \<open>Selection and traits\<close>

definition TypeSelect :: "bool \<Rightarrow> ctype \<Rightarrow> ctype \<Rightarrow> ctype" where
  "TypeSelect flag U V = (if flag then U else V)"

text \<open>Each trait gives whether it applies, and the type that is left.\<close>

fun ReferenceTraits :: "ctype \<Rightarrow> bool \<times> ctype" where
  "ReferenceTraits (Reference U) = (True, U)"
| "ReferenceTraits U = (False, U)"

fun PointerTraits :: "ctype \<Rightarrow> bool \<times> ctype" where
  "PointerTraits (Pointer U) = (True, U)"
| "PointerTraits (Reference (Pointer U)) = (True, U)"
| "PointerTraits U = (False, NullType)"

fun PointerToMemberTraits :: "ctype \<Rightarrow> bool" where
  "PointerToMemberTraits (MemPointer U V) = True"
| "PointerToMemberTraits (Reference (MemPointer U V)) = True"
| "PointerToMemberTraits U = False"

definition UnConstTraits :: "ctype \<Rightarrow> bool \<times> ctype" where
  "UnConstTraits T =
     (case T of
        Reference R \<Rightarrow> (case match_const R of Some U \<Rightarrow> (True, Reference U) | None \<Rightarrow> (False, T))
      | _ \<Rightarrow> (case match_const T of Some U \<Rightarrow> (True, U) | None \<Rightarrow> (False, T)))"

definition UnVolatileTraits :: "ctype \<Rightarrow> bool \<times> ctype" where
  "UnVolatileTraits T =
     (case T of
        Reference R \<Rightarrow> (case match_volatile R of Some U \<Rightarrow> (True, Reference U) | None \<Rightarrow> (False, T))
      | _ \<Rightarrow> (case match_volatile T of Some U \<Rightarrow> (True, U) | None \<Rightarrow> (False, T)))"

definition isPointer :: "ctype \<Rightarrow> bool" where "isPointer T = fst (PointerTraits T)"
definition isReference :: "ctype \<Rightarrow> bool" where "isReference T = fst (ReferenceTraits T)"
definition isMemberPointer :: "ctype \<Rightarrow> bool" where "isMemberPointer T = PointerToMemberTraits T"
definition isConst :: "ctype \<Rightarrow> bool" where "isConst T = fst (UnConstTraits T)"
definition isVolatile :: "ctype \<Rightarrow> bool" where "isVolatile T = fst (UnVolatileTraits T)"
definition PointeeType :: "ctype \<Rightarrow> ctype" where "PointeeType T = snd (PointerTraits T)"
definition ReferencedType :: "ctype \<Rightarrow> ctype" where "ReferencedType T = snd (ReferenceTraits T)"
definition NonConstType :: "ctype \<Rightarrow> ctype" where "NonConstType T = snd (UnConstTraits T)"
definition NonVolatileType :: "ctype \<Rightarrow> ctype" where "NonVolatileType T = snd (UnVolatileTraits T)"

definition UnqualifiedType :: "ctype \<Rightarrow> ctype" where
  "UnqualifiedType T = snd (UnVolatileTraits (snd (UnConstTraits T)))"

definition UnsignedInts :: "ctype option" where
  "UnsignedInts = TLMaker [Fund UCharT, Fund UShortT, Fund UIntT, Fund ULongT, Fund ULLongT]"

definition SignedInts :: "ctype option" where
  "SignedInts = TLMaker [Fund SCharT, Fund ShortT, Fund IntT, Fund LongT, Fund LLongT]"

definition OtherInts :: "ctype option" where
  "OtherInts = TLMaker [Fund BoolT, Fund CharT, Fund WCharT]"

definition Floats :: "ctype option" where
  "Floats = TLMaker [Fund FloatT, Fund DoubleT, Fund LDoubleT]"

definition NullTypes :: ctype where
  "NullTypes = TypeList EmptyType (TypeList NullType NullType)"

text \<open>\<^verbatim>\<open>IndexOf<L, T>::value >= 0\<close>, for a list that is defined.\<close>

definition in_list :: "ctype option \<Rightarrow> ctype \<Rightarrow> bool" where
  "in_list L T \<longleftrightarrow> (case Option.bind L (\<lambda>l. IndexOf l T) of Some i \<Rightarrow> 0 \<le> i | None \<Rightarrow> False)"

definition isStdUnsignedInt :: "ctype \<Rightarrow> bool" where "isStdUnsignedInt T = in_list UnsignedInts T"
definition isStdSignedInt :: "ctype \<Rightarrow> bool" where "isStdSignedInt T = in_list SignedInts T"

definition isStdInt :: "ctype \<Rightarrow> bool" where
  "isStdInt T \<longleftrightarrow> isStdUnsignedInt T \<or> isStdSignedInt T \<or> in_list OtherInts T"

definition isStdFloat :: "ctype \<Rightarrow> bool" where "isStdFloat T = in_list Floats T"
definition isStdArith :: "ctype \<Rightarrow> bool" where "isStdArith T \<longleftrightarrow> isStdInt T \<or> isStdFloat T"

definition isStdFundamental :: "ctype \<Rightarrow> bool" where
  "isStdFundamental T \<longleftrightarrow> isStdArith T \<or> in_list (Some (TypeList (Fund VoidT) NullType)) T"

definition isNullType :: "ctype \<Rightarrow> bool" where "isNullType T = in_list (Some NullTypes) T"
definition isBaseType :: "ctype \<Rightarrow> bool" where "isBaseType T \<longleftrightarrow> isStdArith T \<or> isPointer T \<or> isMemberPointer T"

text \<open>
  The reference to a type: none to \<^verbatim>\<open>void\<close>, and a reference to a reference is that reference.
  An instantiation of \<^verbatim>\<open>TypeTraits\<close> names the type \<^verbatim>\<open>ReferencedType&\<close> whatever is
  selected, so without it the whole class is rejected.
\<close>

fun unqual :: "ctype \<Rightarrow> ctype" where
  "unqual (Cv c v T) = T"
| "unqual T = T"

definition add_reference :: "ctype \<Rightarrow> ctype option" where
  "add_reference T =
     (if unqual T = Fund VoidT then None else case T of Reference U \<Rightarrow> Some T | _ \<Rightarrow> Some (Reference T))"

definition TypeTraits_ok :: "ctype \<Rightarrow> bool" where
  "TypeTraits_ok T \<longleftrightarrow> add_reference (ReferencedType T) \<noteq> None"

definition ReferenceType :: "ctype \<Rightarrow> ctype option" where
  "ReferenceType T = map_option (TypeSelect (isBaseType T) T) (add_reference (ReferencedType T))"

definition ParameterType :: "ctype \<Rightarrow> ctype option" where
  "ParameterType T = map_option (TypeSelect (\<not> isReference T) T) (add_reference (ReferencedType T))"

section \<open>Conversions\<close>

text \<open>\<open>conv T U\<close>: the compiler converts a \<open>T\<close> to a \<open>U\<close>, two different types.\<close>

definition Conversion_exists :: "(ctype \<Rightarrow> ctype \<Rightarrow> bool) \<Rightarrow> ctype \<Rightarrow> ctype \<Rightarrow> bool" where
  "Conversion_exists conv T U \<longleftrightarrow> T = U \<or> conv T U"

definition Conversion_exists2Way :: "(ctype \<Rightarrow> ctype \<Rightarrow> bool) \<Rightarrow> ctype \<Rightarrow> ctype \<Rightarrow> bool" where
  "Conversion_exists2Way conv T U \<longleftrightarrow> T = U \<or> Conversion_exists conv T U \<and> Conversion_exists conv U T"

definition Conversion_sameType :: "ctype \<Rightarrow> ctype \<Rightarrow> bool" where
  "Conversion_sameType T U \<longleftrightarrow> T = U"

fun add_const :: "ctype \<Rightarrow> ctype" where
  "add_const (Cv c v T) = Cv True v T"
| "add_const (Reference T) = Reference T"
| "add_const T = Cv True False T"

definition SUPERSUBCLASS :: "(ctype \<Rightarrow> ctype \<Rightarrow> bool) \<Rightarrow> ctype \<Rightarrow> ctype \<Rightarrow> bool" where
  "SUPERSUBCLASS conv T U \<longleftrightarrow>
     Conversion_exists conv (Pointer (add_const U)) (Pointer (add_const T)) \<and>
     \<not> Conversion_sameType (Pointer (add_const T)) (Pointer (add_const (Fund VoidT)))"

definition SUPERSUBCLASS_STRICT :: "(ctype \<Rightarrow> ctype \<Rightarrow> bool) \<Rightarrow> ctype \<Rightarrow> ctype \<Rightarrow> bool" where
  "SUPERSUBCLASS_STRICT conv T U \<longleftrightarrow> SUPERSUBCLASS conv T U \<and> \<not> Conversion_sameType (add_const T) (add_const U)"

section \<open>Generated class hierarchies\<close>

text \<open>
  \<^verbatim>\<open>ScatterHierarchy<T, Unit>\<close> has a left and a right base for a list, no base for
  \<^verbatim>\<open>NullType\<close>, and \<^verbatim>\<open>Unit<T>\<close> for any other type. \<open>subobjects T\<close> names the
  classes of its subobjects by their type argument, itself first.
\<close>

fun subobjects :: "ctype \<Rightarrow> ctype list" where
  "subobjects (TypeList T1 T2) = TypeList T1 T2 # subobjects T1 @ subobjects T2"
| "subobjects T = [T]"

text \<open>A reference to a base class is formed when there is exactly one subobject of that class.\<close>

definition converts_to_base :: "ctype \<Rightarrow> ctype \<Rightarrow> bool" where
  "converts_to_base T B \<longleftrightarrow> count_list (tl (subobjects T)) B = 1"

text \<open>
  An object, with a value in each unit; the place of a subobject in it. \<open>field_path\<close> is
  \<^verbatim>\<open>FieldHelperByIndex\<close>: where the reference that \<^verbatim>\<open>field<i>\<close> returns points to.
\<close>

datatype 'v hobject = HUnit 'v | HNull | HBoth "'v hobject" "'v hobject"

datatype dir = LeftBase | RightBase

fun field_path :: "ctype \<Rightarrow> nat \<Rightarrow> dir list option" where
  "field_path (TypeList T1 T2) 0 =
     (if converts_to_base (TypeList T1 T2) T1 then Some [LeftBase] else None)"
| "field_path (TypeList T1 T2) (Suc i) =
     (if TypeAt (TypeList T1 T2) (Suc i) \<noteq> None \<and> converts_to_base (TypeList T1 T2) T2
      then map_option (Cons RightBase) (field_path T2 i) else None)"
| "field_path T i = None"

text \<open>The places of the unit of type \<open>T\<close>; \<^verbatim>\<open>FieldHelperByType\<close> casts to it.\<close>

fun unit_paths :: "ctype \<Rightarrow> ctype \<Rightarrow> dir list list" where
  "unit_paths (TypeList T1 T2) T = map (Cons LeftBase) (unit_paths T1 T) @ map (Cons RightBase) (unit_paths T2 T)"
| "unit_paths NullType T = []"
| "unit_paths U T = (if U = T then [[]] else [])"

definition field_by_type :: "ctype \<Rightarrow> ctype \<Rightarrow> dir list option" where
  "field_by_type H T = (case unit_paths H T of [p] \<Rightarrow> Some p | _ \<Rightarrow> None)"

fun hobject_of :: "ctype \<Rightarrow> 'v hobject \<Rightarrow> bool" where
  "hobject_of (TypeList T1 T2) (HBoth l r) \<longleftrightarrow> hobject_of T1 l \<and> hobject_of T2 r"
| "hobject_of (TypeList T1 T2) ob \<longleftrightarrow> False"
| "hobject_of NullType ob \<longleftrightarrow> ob = HNull"
| "hobject_of T ob \<longleftrightarrow> (\<exists>v. ob = HUnit v)"

fun read_at :: "'v hobject \<Rightarrow> dir list \<Rightarrow> 'v option" where
  "read_at (HUnit v) [] = Some v"
| "read_at (HBoth l r) (LeftBase # p) = read_at l p"
| "read_at (HBoth l r) (RightBase # p) = read_at r p"
| "read_at ob p = None"

fun write_at :: "'v hobject \<Rightarrow> dir list \<Rightarrow> 'v \<Rightarrow> 'v hobject" where
  "write_at (HUnit u) [] v = HUnit v"
| "write_at (HBoth l r) (LeftBase # p) v = HBoth (write_at l p v) r"
| "write_at (HBoth l r) (RightBase # p) v = HBoth l (write_at r p v)"
| "write_at ob p v = ob"

section \<open>Which conversion from a text\<close>

text \<open>
  \<^verbatim>\<open>xUtil::strto\<close> of \<^verbatim>\<open>base/include/util.h\<close>: the templates for arithmetic types and for the
  others, given what \<^verbatim>\<open>operator>>\<close> makes of a text.
\<close>

definition strto1 :: "(string \<Rightarrow> 'a) \<Rightarrow> string \<Rightarrow> 'a" where
  "strto1 extract sStr = (let s = ''0''; s = (if sStr \<noteq> [] then sStr else s) in extract s)"

definition strto2 :: "(string \<Rightarrow> 'a) \<Rightarrow> string \<Rightarrow> 'a" where
  "strto2 extract sStr = extract sStr"

definition tostr :: "('a \<Rightarrow> string) \<Rightarrow> 'a \<Rightarrow> string" where
  "tostr put t = put t"

datatype strto_type = Strto1 | Strto2

definition strto :: "ctype \<Rightarrow> strto_type option" where
  "strto T = (if TypeTraits_ok T then Some (if isStdArith T then Strto1 else Strto2) else None)"

end
