(* ===== verification/TypeList_Props.thy ===== *)
theory TypeList_Props
  imports TypeList
begin

text \<open>
  The properties of the type computations: the templates for lists compute the list functions of
  their names, the traits pick out the types that they name, and the fields of a generated class
  do not overlap.
\<close>

section \<open>Lists\<close>

text \<open>The reference for \<^verbatim>\<open>IndexOf\<close>: the first position, or -1.\<close>

definition first_index :: "ctype list \<Rightarrow> ctype \<Rightarrow> int" where
  "first_index Ts T = (if T \<in> set Ts then int (length (takeWhile (\<lambda>U. U \<noteq> T) Ts)) else -1)"

lemma Length_list: "Length (TYPELIST Ts) = Some (length Ts)"
  by (induction Ts) simp_all

lemma TypeAt_list: "TypeAt (TYPELIST Ts) i = (if i < length Ts then Some (Ts ! i) else None)"
  by (induction Ts arbitrary: i; case_tac i) simp_all

lemma TypeAtNonStrict_list: "TypeAtNonStrict (TYPELIST Ts) i D = (if i < length Ts then Ts ! i else D)"
  by (induction Ts arbitrary: i; case_tac i) simp_all

lemma IndexOf_list: "IndexOf (TYPELIST Ts) T = Some (first_index Ts T)"
  by (induction Ts) (auto simp: first_index_def)

lemma Append_list: "Append (TYPELIST Ts) (TYPELIST Us) = Some (TYPELIST (Ts @ Us))"
  by (induction Ts) (simp_all split: ctype.split, cases Us, simp_all)

lemma Append_one:
  assumes "T \<noteq> NullType" and "\<forall>U V. T \<noteq> TypeList U V"
  shows "Append (TYPELIST Ts) T = Some (TYPELIST (Ts @ [T]))"
  using assms by (induction Ts) (auto split: ctype.split)

lemma Erase_list: "Erase (TYPELIST Ts) T = Some (TYPELIST (remove1 T Ts))"
  by (induction Ts) auto

lemma EraseAll_list: "EraseAll (TYPELIST Ts) T = Some (TYPELIST (removeAll T Ts))"
  by (induction Ts) auto

lemma removeAll_replicate: "removeAll x (replicate n x) = []"
  by (induction n) simp_all

lemma TLMaker_list: "length Ts \<le> 20 \<Longrightarrow> TLMaker Ts = Some (TYPELIST (removeAll NullType Ts))"
  by (simp add: TLMaker_def EraseAll_list removeAll_append removeAll_replicate)

text \<open>
  C38. The templates of the type lists compute what their names say, for lists of any types and
  length: length, element at a position (rejected, or the default, out of range), first position
  or -1, concatenation and appending one type, removal of the first or of all occurrences, and the
  list of up to twenty parameters without the empty ones.
\<close>

theorem type_lists_compute_lists:
  "Length (TYPELIST Ts) = Some (length Ts) \<and>
   TypeAt (TYPELIST Ts) i = (if i < length Ts then Some (Ts ! i) else None) \<and>
   TypeAtNonStrict (TYPELIST Ts) i D = (if i < length Ts then Ts ! i else D) \<and>
   IndexOf (TYPELIST Ts) T = Some (first_index Ts T) \<and>
   Append (TYPELIST Ts) (TYPELIST Us) = Some (TYPELIST (Ts @ Us)) \<and>
   (T = NullType \<or> (\<exists>U V. T = TypeList U V) \<or> Append (TYPELIST Ts) T = Some (TYPELIST (Ts @ [T]))) \<and>
   Erase (TYPELIST Ts) T = Some (TYPELIST (remove1 T Ts)) \<and>
   EraseAll (TYPELIST Ts) T = Some (TYPELIST (removeAll T Ts)) \<and>
   TLMaker Ts = (if length Ts \<le> 20 then Some (TYPELIST (removeAll NullType Ts)) else None)"
  using Append_one [of T Ts]
  by (auto simp: Length_list TypeAt_list TypeAtNonStrict_list IndexOf_list Append_list Erase_list EraseAll_list TLMaker_list)
    (simp_all add: TLMaker_def)

section \<open>Traits\<close>

definition arith_funds :: "fund list" where
  "arith_funds = [UCharT, UShortT, UIntT, ULongT, ULLongT, SCharT, ShortT, IntT, LongT, LLongT, BoolT, CharT, WCharT,
     FloatT, DoubleT, LDoubleT]"

lemma in_list_TYPELIST: "in_list (Some (TYPELIST Ts)) T \<longleftrightarrow> T \<in> set Ts"
  by (simp add: in_list_def IndexOf_list first_index_def)

lemma trait_lists:
  "UnsignedInts = Some (TYPELIST (map Fund [UCharT, UShortT, UIntT, ULongT, ULLongT]))"
  "SignedInts = Some (TYPELIST (map Fund [SCharT, ShortT, IntT, LongT, LLongT]))"
  "OtherInts = Some (TYPELIST (map Fund [BoolT, CharT, WCharT]))"
  "Floats = Some (TYPELIST (map Fund [FloatT, DoubleT, LDoubleT]))"
  by (simp_all add: UnsignedInts_def SignedInts_def OtherInts_def Floats_def TLMaker_list)

lemma isStdArith_iff: "isStdArith T \<longleftrightarrow> T \<in> Fund ` set arith_funds"
  unfolding isStdArith_def isStdInt_def isStdUnsignedInt_def isStdSignedInt_def isStdFloat_def trait_lists in_list_TYPELIST
  by (auto simp: arith_funds_def)

lemma isStdFundamental_iff: "isStdFundamental T \<longleftrightarrow> T \<in> Fund ` set (VoidT # arith_funds)"
  using in_list_TYPELIST [of "[Fund VoidT]" T] by (auto simp: isStdFundamental_def isStdArith_iff)

text \<open>The class of the traits is rejected for \<^verbatim>\<open>void\<close>, qualified or not, and for references to it.\<close>

lemma TypeTraits_ok_iff:
  assumes "proper T"
  shows "TypeTraits_ok T \<longleftrightarrow> unqual (ReferencedType T) \<noteq> Fund VoidT"
  by (auto simp: TypeTraits_ok_def add_reference_def split: ctype.splits)

text \<open>The strongest qualifiers go: what is left of a type under \<^verbatim>\<open>UnqualifiedType\<close> has none at the top.\<close>

lemma UnqualifiedType_cv: "proper T \<Longrightarrow> T = Cv c v U \<Longrightarrow> UnqualifiedType T = U"
  by (cases U) (auto simp: UnqualifiedType_def UnConstTraits_def UnVolatileTraits_def)

lemma UnqualifiedType_ref: "proper T \<Longrightarrow> T = Reference (Cv c v U) \<Longrightarrow> UnqualifiedType T = Reference U"
  by (cases U) (auto simp: UnqualifiedType_def UnConstTraits_def UnVolatileTraits_def)

text \<open>
  C39. The conversion that \<^verbatim>\<open>xUtil::strto\<close> selects for a type. It is the numeric one for exactly
  the sixteen arithmetic types of the lists, without qualifiers; a qualified type, a reference or
  any other type gets the generic one; for \<^verbatim>\<open>void\<close>, and for what refers to it or qualifies it, the
  traits do not compile, so that \<^verbatim>\<open>isStdFundamental\<close>, which means to hold for it, cannot be asked.
\<close>

theorem strto_selection:
  assumes "proper T"
  shows "strto T = (if unqual (ReferencedType T) = Fund VoidT then None
      else if T \<in> Fund ` set arith_funds then Some Strto1 else Some Strto2) \<and>
    (isStdFundamental T \<longleftrightarrow> T \<in> Fund ` set (VoidT # arith_funds)) \<and>
    (T = Fund VoidT \<longrightarrow> \<not> TypeTraits_ok T)"
  using TypeTraits_ok_iff [OF assms] isStdFundamental_iff [of T]
  by (auto simp: strto_def isStdArith_iff ReferencedType_def)

lemma strto_selection_witness:
  "strto (Fund IntT) = Some Strto1 \<and> strto (Cv True False (Fund IntT)) = Some Strto2 \<and> strto (Fund VoidT) = None"
  using strto_selection [of "Fund IntT"] strto_selection [of "Cv True False (Fund IntT)"] strto_selection [of "Fund VoidT"]
  by (auto simp: arith_funds_def ReferencedType_def)

section \<open>Fields\<close>

text \<open>Types that are no lists and not empty: the elements of a tuple.\<close>

definition elementary :: "ctype \<Rightarrow> bool" where
  "elementary T \<longleftrightarrow> T \<noteq> NullType \<and> (\<forall>U V. T \<noteq> TypeList U V)"

lemma subobjects_elementary: "elementary T \<Longrightarrow> subobjects T = [T]"
  by (cases T) (auto simp: elementary_def)

lemma unit_paths_elementary: "elementary U \<Longrightarrow> unit_paths U T = (if U = T then [[]] else [])"
  by (cases U) (auto simp: elementary_def)

lemma hobject_elementary: "elementary T \<Longrightarrow> hobject_of T ob \<longleftrightarrow> (\<exists>v. ob = HUnit v)"
  by (cases T) (auto simp: elementary_def)

lemma count_subobjects:
  "elementary T \<Longrightarrow> \<forall>U \<in> set Ts. elementary U \<Longrightarrow> count_list (subobjects (TYPELIST Ts)) T = count_list Ts T"
  by (induction Ts) (auto simp: subobjects_elementary elementary_def)

lemma count_longer: "\<forall>U \<in> set Ts. elementary U \<Longrightarrow> length Ts < length Us \<Longrightarrow> count_list (subobjects (TYPELIST Ts)) (TYPELIST Us) = 0"
proof (induction Ts)
  case Nil
  then show ?case by (cases Us) simp_all
next
  case (Cons T Ts)
  have "TYPELIST Us \<noteq> TypeList T (TYPELIST Ts)"
    using Cons.prems(2) Length_list [of Us] Length_list [of "T # Ts"] by (metis TYPELIST.simps(2) nat_neq_iff option.inject)
  moreover have "TYPELIST Us \<noteq> T" using Cons.prems by (cases Us) (auto simp: elementary_def)
  ultimately show ?case using Cons by (simp add: subobjects_elementary)
qed

lemma tail_converts: "\<forall>U \<in> set (T # Ts). elementary U \<Longrightarrow> converts_to_base (TYPELIST (T # Ts)) (TYPELIST Ts)"
proof -
  assume e: "\<forall>U \<in> set (T # Ts). elementary U"
  have n: "T \<noteq> TYPELIST Ts" using e by (cases Ts) (auto simp: elementary_def)
  have "count_list (subobjects (TYPELIST Ts)) (TYPELIST Ts) = 1"
  proof (cases Ts)
    case (Cons U Us)
    then show ?thesis using e count_longer [of Us Ts] by (auto simp: subobjects_elementary elementary_def)
  qed simp
  then show ?thesis using e n by (simp add: converts_to_base_def subobjects_elementary)
qed

lemma head_converts: "\<forall>U \<in> set (T # Ts). elementary U \<Longrightarrow> converts_to_base (TYPELIST (T # Ts)) T \<longleftrightarrow> T \<notin> set Ts"
  using count_subobjects [of T Ts] by (simp add: converts_to_base_def subobjects_elementary count_list_0_iff)

lemma field_path_tuple:
  "\<forall>U \<in> set Ts. elementary U \<Longrightarrow> field_path (TYPELIST Ts) i =
    (if i < length Ts \<and> Ts ! i \<notin> set (drop (Suc i) Ts) then Some (replicate i RightBase @ [LeftBase]) else None)"
proof (induction Ts arbitrary: i)
  case Nil
  then show ?case by (cases i) simp_all
next
  case (Cons T Ts)
  note t = tail_converts [OF Cons.prems] head_converts [OF Cons.prems]
  show ?case using Cons t by (cases i) (simp_all add: TypeAt_list)
qed

lemma read_path: "hobject_of (TYPELIST Ts) ob \<Longrightarrow> \<forall>U \<in> set Ts. elementary U \<Longrightarrow> i < length Ts \<Longrightarrow> j < length Ts \<Longrightarrow>
    read_at (write_at ob (replicate i RightBase @ [LeftBase]) v) (replicate j RightBase @ [LeftBase]) =
    (if i = j then Some v else read_at ob (replicate j RightBase @ [LeftBase]))"
proof (induction Ts arbitrary: ob i j)
  case Nil
  then show ?case by simp
next
  case (Cons T Ts)
  obtain u r where ob: "ob = HBoth (HUnit u) r" "hobject_of (TYPELIST Ts) r"
    using Cons.prems(1,2) by (cases ob) (auto simp: hobject_elementary)
  then show ?case using Cons by (cases i; cases j) auto
qed

text \<open>
  C40. The fields of a generated tuple. For a list of elementary types, \<^verbatim>\<open>field<i>\<close> compiles exactly
  for the positions whose type does not occur again behind, and then the references for two
  positions never overlap: what is written to one is read there, and at no other. So a tuple with
  a type twice has a field that no index reaches.
\<close>

theorem tuple_fields:
  assumes "\<forall>U \<in> set Ts. elementary U" and "hobject_of (TYPELIST Ts) ob"
  shows "(field_path (TYPELIST Ts) i \<noteq> None \<longleftrightarrow> i < length Ts \<and> Ts ! i \<notin> set (drop (Suc i) Ts)) \<and>
    (\<forall>p q. field_path (TYPELIST Ts) i = Some p \<longrightarrow> field_path (TYPELIST Ts) j = Some q \<longrightarrow>
       read_at (write_at ob p v) q = (if i = j then Some v else read_at ob q) \<and> read_at ob q \<noteq> None)"
proof -
  have r: "read_at ob (replicate j RightBase @ [LeftBase]) \<noteq> None" if "j < length Ts"
    using assms(2,1) that
  proof (induction Ts arbitrary: ob j)
    case (Cons T Ts)
    obtain u r where "ob = HBoth (HUnit u) r" "hobject_of (TYPELIST Ts) r"
      using Cons.prems(1,2) by (cases ob) (auto simp: hobject_elementary)
    then show ?case using Cons by (cases j) auto
  qed simp
  show ?thesis
    using read_path [OF assms(2,1), of i j v] r by (simp add: field_path_tuple [OF assms(1)])
qed

lemma tuple_fields_witness:
  "field_path (TYPELIST [Fund IntT, Fund CharT, Fund IntT]) 0 = None \<and>
   field_path (TYPELIST [Fund IntT, Fund CharT, Fund IntT]) 2 = Some [RightBase, RightBase, LeftBase] \<and>
   read_at (write_at (HBoth (HUnit 1) (HBoth (HUnit 2) (HBoth (HUnit (3::nat)) HNull))) [RightBase, RightBase, LeftBase] 9) [RightBase, LeftBase] = Some 2"
proof -
  let ?Ts = "[Fund IntT, Fund CharT, Fund IntT]" and ?ob = "HBoth (HUnit 1) (HBoth (HUnit 2) (HBoth (HUnit (3::nat)) HNull))"
  have e: "\<forall>U \<in> set ?Ts. elementary U" by (simp add: elementary_def)
  have o: "hobject_of (TYPELIST ?Ts) ?ob" by simp
  have p: "field_path (TYPELIST ?Ts) 2 = Some [RightBase, RightBase, LeftBase]" "field_path (TYPELIST ?Ts) 1 = Some [RightBase, LeftBase]"
    using field_path_tuple [OF e, of 2] field_path_tuple [OF e, of 1] by (simp_all add: numeral_2_eq_2)
  show ?thesis
    using tuple_fields [OF e o, of 0 0 0] tuple_fields [OF e o, of 2 1 9] p by simp
qed

end
