(* ===== verification/Exception.thy ===== *)
theory Exception
  imports Util
begin

text \<open>
  \<^verbatim>\<open>base/include/exception.h\<close> and \<^verbatim>\<open>base/exception.cpp\<close>: the base class of the
  exceptions, a text and a code. The classes derived from it add nothing; elsewhere in the
  development an exception is the value of type \<open>exn\<close> that stands for its class.
  \<^verbatim>\<open>strerror\<close>, \<^verbatim>\<open>backtrace\<close> (the addresses on the stack) and
  \<^verbatim>\<open>backtrace_symbols\<close> (\<open>None\<close> for a null pointer) are arguments.
\<close>

section \<open>The class\<close>

record xException =
  ex_buffer :: string
  ex_code :: int

text \<open>The loop over the names of the frames, from the \<open>i\<close>-th on; no index is checked.\<close>

fun symbol_loop :: "string list option \<Rightarrow> nat \<Rightarrow> nat \<Rightarrow> string \<Rightarrow> fault + string" where
  "symbol_loop symbols i 0 buf = Inr buf"
| "symbol_loop symbols i (Suc n) buf =
     (case symbols of
        None \<Rightarrow> Inl Undefined
      | Some names \<Rightarrow> if i < length names then symbol_loop symbols (Suc i) n (buf @ cstr (names ! i) @ [CHR 0x0A]) else Inl Undefined)"

definition getBacktrace :: "('f list \<Rightarrow> string list option) \<Rightarrow> 'f list \<Rightarrow> xException \<Rightarrow> fault + xException" where
  "getBacktrace backtrace_symbols stack e =
     (let array = take 64 stack; nSize = length array; symbols = backtrace_symbols array
      in bindE (symbol_loop symbols 0 nSize (ex_buffer e)) (\<lambda>buf. Inr (e\<lparr>ex_buffer := buf\<rparr>)))"

definition xException_new :: "('f list \<Rightarrow> string list option) \<Rightarrow> 'f list \<Rightarrow> string \<Rightarrow> fault + xException" where
  "xException_new backtrace_symbols stack buf = getBacktrace backtrace_symbols stack \<lparr>ex_buffer = buf, ex_code = 0\<rparr>"

definition xException_err :: "(int \<Rightarrow> string) \<Rightarrow> string \<Rightarrow> int \<Rightarrow> xException" where
  "xException_err strerror buf err = \<lparr>ex_buffer = buf @ '' :'' @ strerror err, ex_code = err\<rparr>"

text \<open>What a reader of the returned pointer sees ends at the first zero.\<close>

definition what :: "xException \<Rightarrow> string" where
  "what e = cstr (ex_buffer e)"

definition getErrCode :: "xException \<Rightarrow> int" where
  "getErrCode e = ex_code e"

section \<open>Facts\<close>

lemma symbol_loop_names:
  "i + n \<le> length names \<Longrightarrow>
    symbol_loop (Some names) i n buf = Inr (buf @ concat (map (\<lambda>s. cstr s @ [CHR 0x0A]) (take n (drop i names))))"
proof (induction n arbitrary: i buf)
  case (Suc n)
  then have "drop i names = names ! i # drop (Suc i) names" by (simp add: Cons_nth_drop_Suc)
  then show ?case using Suc by simp
qed simp

text \<open>
  With the names of all frames the text is the message and a line for each of the first 64 frames.
  When \<^verbatim>\<open>backtrace_symbols\<close> has no memory for them, the null pointer is used.
\<close>

lemma xException_new_text:
  assumes "backtrace_symbols (take 64 stack) = Some names" and "length names = length (take 64 stack)"
  shows "xException_new backtrace_symbols stack buf =
    Inr \<lparr>ex_buffer = buf @ concat (map (\<lambda>s. cstr s @ [CHR 0x0A]) names), ex_code = 0\<rparr>"
  using assms symbol_loop_names [of 0 "length names" names buf] by (simp add: xException_new_def getBacktrace_def Let_def)

lemma xException_new_null:
  assumes "backtrace_symbols (take 64 stack) = None" and "stack \<noteq> []"
  shows "xException_new backtrace_symbols stack buf = Inl Undefined"
  using assms by (cases stack) (simp_all add: xException_new_def getBacktrace_def)

lemma cstr_append: "CHR 0x00 \<notin> set s \<Longrightarrow> cstr (s @ t) = s @ cstr t"
  by (induction s) (auto simp: cstr_def)

lemma cstr_no_zero: "CHR 0x00 \<notin> set s \<Longrightarrow> cstr s = s"
  using cstr_append [of s "[]"] by (simp add: cstr_def)

lemma xException_err_what:
  assumes "CHR 0x00 \<notin> set buf" and "CHR 0x00 \<notin> set (strerror err)"
  shows "what (xException_err strerror buf err) = buf @ '' :'' @ strerror err \<and> getErrCode (xException_err strerror buf err) = err"
  using assms cstr_no_zero [of "buf @ '' :'' @ strerror err"] by (simp add: what_def getErrCode_def xException_err_def)

end
