(* ===== verification/Spec2Isabelle.thy ===== *)
theory Spec2Isabelle
  imports Buffer_Props Channel_Props Timer_Props Loop_Props Connection_Props Socket_Props Server_Echo Server_Start Client_Start
    Clock_Props CmdOption_Props Util_Props TypeList_Props Exception
begin

text \<open>
  A verification development for xfast, an event-driven TCP library in C++.

  \<^bold>\<open>The program.\<close> One thread runs an event loop (\<^verbatim>\<open>xLoop\<close>): it waits on
  \<^verbatim>\<open>epoll\<close>, calls the callback of each descriptor that has an event, then runs the functors
  that other threads have queued, then the timers that are due. On top of the loop a server
  (\<^verbatim>\<open>xServer\<close>) listens, makes an \<^verbatim>\<open>xConnection\<close> of each accepted socket, cuts the bytes
  that arrive into messages, and puts each message, with the descriptor of its connection in front,
  into a channel. Handler threads take messages from the channel and answer with
  \<^verbatim>\<open>sendResponse\<close>, which queues a functor for the loop thread; the functor finds the connection
  by its descriptor and sends. A client (\<^verbatim>\<open>xClient\<close>) has a connector, a state machine that
  connects without blocking and retries by timer, and one connection.

  \<^bold>\<open>The theories and the code.\<close> Each part has a theory with its state and operations in the
  order of the code, one with the laws of the operations (\<open>_Laws\<close>) where the proofs need it, and
  one with its properties (\<open>_Props\<close>).

  \<^item> \<open>Prelude\<close>: machine types, the ways a call can end, byte vectors, the answers of the kernel.
  \<^item> \<open>Reach\<close>: runs of a step relation, and what makes a property hold in all of them.
  \<^item> \<open>Endian\<close>: \<^verbatim>\<open>net/include/xendian.h\<close>.
  \<^item> \<open>Buffer\<close>, \<open>Buffer_Laws\<close>, \<open>Buffer_Fifo\<close>, \<open>Buffer_Props\<close>: \<^verbatim>\<open>net/include/buffer.h\<close>,
    \<^verbatim>\<open>net/buffer.cpp\<close>. The state is the vector and its two indices, with the wrap-around of
    \<^verbatim>\<open>size_t\<close>; \<open>content\<close> is the abstract byte queue.
  \<^item> \<open>FileApi\<close>: \<^verbatim>\<open>base/file_api.cpp\<close>, the loops around \<^verbatim>\<open>read\<close> and \<^verbatim>\<open>write\<close>.
  \<^item> \<open>Channel\<close>, \<open>Channel_Conc\<close>, \<open>Channel_Props\<close>: \<^verbatim>\<open>base/include/xatomic.h\<close>,
    \<^verbatim>\<open>base/include/channel.h\<close>, first for one thread, then as interleaved steps of any number of
    threads.
  \<^item> \<open>Timer\<close>, \<open>Timer_Fire\<close>, \<open>Timer_Props\<close>: \<^verbatim>\<open>base/include/xtimer.h\<close>,
    \<^verbatim>\<open>base/xtimer_queue.cpp\<close>. Timers are objects on a heap; the ordered set is the list of their
    addresses, so that changing a key in place is visible.
  \<^item> \<open>Epoller\<close>, \<open>Closures\<close>, \<open>Loop\<close>, \<open>Loop_Laws\<close>, \<open>Loop_Race\<close>, \<open>Loop_Host\<close>, \<open>Loop_Props\<close>:
    \<^verbatim>\<open>base/epoller.cpp\<close>, \<^verbatim>\<open>base/xloop.cpp\<close>. Function objects are data (\<open>closure\<close>), and the
    loop takes their interpreter as an argument. \<open>Loop_Host\<close> is the contract with the owner of a loop.
  \<^item> \<open>Connection\<close>, \<open>Connection_Laws\<close>, \<open>Framing\<close>, \<open>Conn_Host\<close>, \<open>Connection_Props\<close>:
    \<^verbatim>\<open>net/connection.cpp\<close>, \<^verbatim>\<open>net/include/connection.h\<close>. \<open>Framing\<close> is the contract with
    the one who takes the messages of a connection, \<open>Conn_Host\<close> the contract with the owner of
    connections: what its callbacks and its invariant promise, and that each operation of a
    connection then ends normally and keeps the invariant.
  \<^item> \<open>IpAddr\<close>, \<open>SockApi\<close>, \<open>Socket\<close>, \<open>Socket_Props\<close>: \<^verbatim>\<open>net/ipaddr.cpp\<close>,
    \<^verbatim>\<open>net/netapi.cpp\<close>, \<^verbatim>\<open>net/sockapi.cpp\<close>, \<^verbatim>\<open>net/socket.cpp\<close>. Each system call takes
    the next answer of the kernel and is recorded in a trace.
  \<^item> \<open>Listener\<close>, \<open>HandlerGroup\<close>, \<open>Server\<close>, \<open>Server_Laws\<close>, \<open>Server_Props\<close>, \<open>Server_Echo\<close>,
    \<open>Server_Inv\<close>, \<open>Server_Safety\<close>, \<open>Server_Start\<close>: \<^verbatim>\<open>net/listener.cpp\<close>, \<^verbatim>\<open>net/handler.cpp\<close>, \<^verbatim>\<open>net/handler_group.cpp\<close>,
    \<^verbatim>\<open>net/xserver.cpp\<close>. \<open>Server_Inv\<close> is the invariant of a server and its preservation by each
    operation, \<open>Server_Safety\<close> puts all that can happen to a running server into one step relation,
    and \<open>Server_Start\<close> makes the loop and the server from nothing. The records extend each other (timers, poller, loop, connections,
    listener, group, server), so an operation of a lower part works on the state of a higher one as
    it is.
  \<^item> \<open>Connector\<close>, \<open>Client\<close>, \<open>Client_Laws\<close>, \<open>Client_Props\<close>, \<open>Client_Inv\<close>, \<open>Client_Loop\<close>,
    \<open>Client_Safety\<close>, \<open>Client_Start\<close>:
    \<^verbatim>\<open>net/connector.cpp\<close>, \<^verbatim>\<open>net/xclient.cpp\<close>. \<open>Client_Inv\<close> is the invariant of a client and
    makes it an owner of connections, \<open>Client_Loop\<close> its preservation by attempts, events, functors
    and timers, which makes it an owner of its loop, and \<open>Client_Safety\<close> the step relation of a
    running client with the calls of the user from any thread; \<open>Client_Start\<close> makes the loop and the
    client from nothing.
  \<^item> \<open>Sync\<close>: \<^verbatim>\<open>base/mutex.cpp\<close>, \<^verbatim>\<open>base/condition.cpp\<close>, \<^verbatim>\<open>base/xthread.cpp\<close>, used by
    the client (its lock) and by the clock.
  \<^item> \<open>Clock\<close>, \<open>Clock_Props\<close>: \<^verbatim>\<open>base/time_helper.cpp\<close>.
  \<^item> \<open>CmdOption\<close>, \<open>CmdOption_Props\<close>: \<^verbatim>\<open>base/option.cpp\<close>.
  \<^item> \<open>Util\<close>, \<open>Util_Props\<close>: \<^verbatim>\<open>base/util.cpp\<close>, \<^verbatim>\<open>base/include/util.h\<close>.
  \<^item> \<open>Exception\<close>: \<^verbatim>\<open>base/exception.cpp\<close>, the text and the code that an exception carries.
  \<^item> \<open>TypeList\<close>, \<open>TypeList_Props\<close>: \<^verbatim>\<open>base/include/loki.h\<close>, computation with types at compile
    time. A C++ type is a value (\<open>ctype\<close>), a template is a function, a rejected instantiation is
    \<open>None\<close>; and the templates of \<^verbatim>\<open>xUtil\<close> that are selected by it.

  \<^bold>\<open>Conventions.\<close> A call ends with a result, an exception, the end of the process (a failed
  \<^verbatim>\<open>assert\<close>, undefined behaviour, \<^verbatim>\<open>exit\<close>), or not at all (\<open>fault + 'a\<close> for an operation on
  a value, \<open>outcome\<close> for a handler on the whole state); every \<^verbatim>\<open>throw\<close>, \<^verbatim>\<open>catch\<close> and
  \<^verbatim>\<open>assert\<close> of the code is a branch. The kernel is an input: lists of answers for
  \<^verbatim>\<open>read\<close>, \<^verbatim>\<open>write\<close>, \<^verbatim>\<open>epoll_wait\<close> and the socket calls, and a function for
  \<^verbatim>\<open>epoll_ctl\<close>, of which \<open>epoll_ctl_spec\<close> states the documented behaviour; \<open>map_ctl\<close> meets it
  and serves in the witnesses. The callbacks of the user are functions on the state; where a
  property needs it, a hypothesis says that they only work behind the program's own state.

  \<^bold>\<open>The interfaces.\<close> \<open>byte_fifo\<close> (the contract of a bounded byte queue) and \<open>int_codec\<close> (write, then
  read back), interpreted on \<open>xBuffer\<close>; \<open>message_queue\<close> and its extension \<open>message_deque\<close>, interpreted on
  \<open>xChan\<close>; \<open>message_sink\<close>, the contract of the owner of a connection for incoming messages, interpreted
  on callbacks behind the network state and on those of the server; \<open>conn_owner\<close>, the contract of the
  owner of connections, interpreted on the server and on the client, for connections to which the caller
  keeps a pointer and for lent ones; \<open>loop_owner\<close>, that of the owner of an event loop, interpreted on
  the server and on the client; \<open>invariant\<close>, of which \<open>guarded_invariant\<close> is an instance and
  \<open>live_invariant\<close> an extension, interpreted on the threads of a channel, on the list of functors,
  on a running server and on a running client.

  \<^bold>\<open>Lifetimes.\<close> A connection lives as long as somebody keeps a \<^verbatim>\<open>shared_ptr\<close> to it: a function
  object in the loop's register, its queue of functors or its timers (\<open>loop_holds\<close>), the server's map or the client's
  \<^verbatim>\<open>connectionPtr_\<close>, or the user (\<open>srv_holds\<close>, \<open>cli_holds\<close>; what the user keeps is an argument, \<open>u_holds\<close>
  and \<open>c_holds\<close>). The code reads a connection after user code has run, without a pointer of its own,
  in two places: \<^verbatim>\<open>sendMsg\<close> after \<^verbatim>\<open>sentBytesCb_\<close> and \<^verbatim>\<open>parseProtocol\<close> after
  \<^verbatim>\<open>msgCommitCb_\<close>. There the model asks whether the callback has dropped the last pointer, and if
  so the outcome is undefined (\<open>returning\<close> in \<open>server_lent_cbs\<close> and \<open>client_lent_cbs\<close>). Whether a
  caller lends a pointer or keeps one is the caller's choice: an event and \<^verbatim>\<open>doSendResponse\<close> lend
  one, a functor has bound its own. After the other calls of user code, in \<^verbatim>\<open>closeConn\<close>,
  \<^verbatim>\<open>doCloseConnection\<close>, \<^verbatim>\<open>makeConnected\<close> and on the way of a new connection, the code either reads nothing
  more of the connection or holds a pointer. An object in \<open>conns\<close> is not
  removed when its life ends: no operation reaches it any more.

  \<^bold>\<open>What is shown.\<close> The end-to-end properties: requests that arrive in any chunks are answered on
  the same connection by an echoing handler, once and in order while the kernel takes each answer
  whole (\<open>Server_Echo\<close>); a message reaches a handler with the
  descriptor of its connection; accepting, hanging up and connecting leave the maps, the register
  and the kernel's interest list consistent. A server that has been started is well-formed, stays so
  under any events, functors, handler turns and kernel answers, and none of them ends in a failed
  assertion, a branch that the model marks undefined, an escaping exception or an endless loop, as long as the functions
  of the user keep its invariant and its callback for sent bytes does not give up the last pointer to
  its connection (\<open>user_keeps\<close>, \<open>dispatch_keeps\<close>; \<open>closing_in_the_sent_callback_is_undefined\<close> is what
  happens otherwise), and fewer than \<open>2 ^ 31\<close> bytes are
  buffered, the range of the \<^verbatim>\<open>int\<close> that counts them (\<open>admissible\<close>; buffers are shorter than
  \<open>2 ^ 33\<close> bytes, \<open>sized\<close>). The same holds of a client (\<open>client_wf\<close>, \<open>client_user_keeps\<close>,
  \<open>client_admissible\<close>), with its attempts to connect, its retries by timer, and \<^verbatim>\<open>start\<close>,
  \<^verbatim>\<open>stop\<close> and \<^verbatim>\<open>sendMsg\<close> called in any thread, when the kernel makes the socket of an attempt that has
  succeeded non-blocking (\<open>connector_ready\<close>; otherwise \<open>refused_socket_escapes\<close>). Below them: the buffer refines a byte queue; integers
  are read back; the register mirrors the kernel; timers fire in order and as often as they should;
  the channel is a double-ended queue, and its counter is right under interleaving; a send accounts for every byte; a write
  event drains; a failed connect leaks no descriptor; command lines and numbers are read back; the type-list templates compute list functions, and
  the fields of a tuple do not overlap. Where
  the code does not do what it means to, the property says what it does: a write that the kernel
  takes in part is repeated from its start, \<^verbatim>\<open>removeEvent\<close> sets flags, a functor can be lost,
  a moved timer starves another, a callback for sent bytes that closes its connection leads to the use of a destroyed
  object, the user's close callback of a client never runs, an \<^verbatim>\<open>unsigned char\<close> is not read back, and others.

  \<^bold>\<open>Fuel.\<close> The loops that may not end take fuel, and running out of it is the outcome
  \<open>Diverge\<close>, which no property confuses with a result. \<open>parse_loop\<close> needs one unit more than the
  buffered bytes, as each message takes at least one byte; a decoder that returns 0 runs for ever
  with any fuel, which is a property. \<open>trigger_loop\<close> needs one more than the timers that fire.
  \<open>server_call\<close> and \<open>client_call\<close> need one unit per closure that runs another at once; two or
  three are enough for every operation of the code. The other loops recurse on the answers of the
  kernel or on the data, and end.

  \<^bold>\<open>Not modelled.\<close> The lifetimes of loop, server, client, groups and handlers, and of connections
  beyond what is said above: the counts of the pointers, and the destructor of a connection, which closes its descriptor;
  the destruction of a function object while it runs, which touches nothing afterwards; the width
  of the counters inside a timer, which are whole numbers here; the allocator; log
  texts and what logging does to \<^verbatim>\<open>errno\<close>; the addresses that a connection keeps for its log
  texts; the texts that a thrown exception carries, so that its class, a value of type \<open>exn\<close>, stands for
  it. \<^verbatim>\<open>loger.h\<close>, \<^verbatim>\<open>xkill.h\<close>, \<^verbatim>\<open>clike.h\<close> and \<^verbatim>\<open>noncopyable.h\<close> are output, the
  end of the process, and language helpers. Array, function and rvalue reference types are not in
  \<open>ctype\<close>. Floating-point arithmetic is an argument of
  \<open>Clock\<close>, and \<open>Util\<close> starts from the text that \<^verbatim>\<open>snprintf\<close> makes of a number. Threads are
  interleaved where the code has unprotected steps (the channel, the list of functors); elsewhere
  an operation is one step of one thread.
\<close>

end
